(* ===== verification/Budge_Prelude.thy ===== *)
theory Budge_Prelude
  imports Main "HOL-Library.List_Lexorder" "HOL-Library.Char_ord" "HOL-Library.Sublist"
    "HOL-Library.AList"
begin

text \<open>
  Shared vocabulary of the development. Go strings are byte sequences and are modelled by
  \<^typ>\<open>string\<close>, a list of 8-bit characters; \<open>len\<close> counts bytes, as \<^const>\<open>length\<close> does here.
  The theory holds the functions of Go's \<open>strings\<close>, \<open>net/textproto\<close> and \<open>net/http\<close> header
  packages that the sources call, the result type of fallible code, and the generic list
  lemmas the components share.

  \<open>strings.ToLower\<close> and \<open>strings.EqualFold\<close> are given on ASCII. Every call in the sources is
  guarded by a check that the compared names are ASCII tokens (\<open>HeaderName\<close>), or compares
  with an ASCII literal that has no letter with a non-ASCII case fold and is followed by a
  check of the bytes (\<open>Method\<close>), so the two agree with Unicode folding where they are used.
\<close>

named_theorems go_simps \<open>equations of the string and header functions of the Go library\<close>

section \<open>Bytes\<close>

abbreviation byte_of :: "char \<Rightarrow> nat" where
  "byte_of c \<equiv> of_char c"

definition is_lower :: "char \<Rightarrow> bool" where
  "is_lower c \<longleftrightarrow> 97 \<le> byte_of c \<and> byte_of c \<le> 122"

definition is_upper :: "char \<Rightarrow> bool" where
  "is_upper c \<longleftrightarrow> 65 \<le> byte_of c \<and> byte_of c \<le> 90"

definition is_digit :: "char \<Rightarrow> bool" where
  "is_digit c \<longleftrightarrow> 48 \<le> byte_of c \<and> byte_of c \<le> 57"

definition to_upper :: "char \<Rightarrow> char" where
  "to_upper c = (if is_lower c then char_of (byte_of c - 32) else c)"

definition to_lower :: "char \<Rightarrow> char" where
  "to_lower c = (if is_upper c then char_of (byte_of c + 32) else c)"

lemmas byte_class_defs = is_lower_def is_upper_def is_digit_def

lemma byte_of_inject: "byte_of c = byte_of d \<longleftrightarrow> c = d"
  by simp

lemma byte_of_to_lower:
  "byte_of (to_lower c) = (if is_upper c then byte_of c + 32 else byte_of c)"
  by (simp add: to_lower_def is_upper_def)

lemma byte_of_to_upper:
  "byte_of (to_upper c) = (if is_lower c then byte_of c - 32 else byte_of c)"
  by (auto simp: to_upper_def is_lower_def intro: mod_less)

lemma to_lower_to_lower [simp]: "to_lower (to_lower c) = to_lower c"
  by (simp add: byte_of_inject [symmetric] byte_of_to_lower is_upper_def)

lemma to_lower_to_upper [simp]: "to_lower (to_upper c) = to_lower c"
  by (auto simp: byte_of_inject [symmetric] byte_of_to_lower byte_of_to_upper is_upper_def is_lower_def)

lemma to_upper_to_lower [simp]: "to_upper (to_lower c) = to_upper c"
  by (auto simp: byte_of_inject [symmetric] byte_of_to_lower byte_of_to_upper is_upper_def is_lower_def)

lemma to_upper_to_upper [simp]: "to_upper (to_upper c) = to_upper c"
  by (auto simp: byte_of_inject [symmetric] byte_of_to_upper is_lower_def)


section \<open>The \<open>strings\<close> package\<close>

definition HasPrefix :: "string \<Rightarrow> string \<Rightarrow> bool" where
  "HasPrefix s p = prefix p s"

definition TrimPrefix :: "string \<Rightarrow> string \<Rightarrow> string" where
  "TrimPrefix s p = (if prefix p s then drop (length p) s else s)"

definition TrimSuffix :: "string \<Rightarrow> string \<Rightarrow> string" where
  "TrimSuffix s e = (if suffix e s then take (length s - length e) s else s)"

text \<open>\<open>strings.Split\<close> with a one-byte separator: the empty string gives one empty field.\<close>

fun Split :: "char \<Rightarrow> string \<Rightarrow> string list" where
  "Split c [] = [[]]"
| "Split c (x # xs) =
     (if x = c then [] # Split c xs
      else case Split c xs of [] \<Rightarrow> [[x]] | y # ys \<Rightarrow> (x # y) # ys)"

fun Join :: "string \<Rightarrow> string list \<Rightarrow> string" where
  "Join sep [] = []"
| "Join sep [x] = x"
| "Join sep (x # y # ys) = x @ sep @ Join sep (y # ys)"

text \<open>\<open>strings.FieldsFunc\<close>: the maximal runs of bytes that are no separators.\<close>

function FieldsFunc :: "(char \<Rightarrow> bool) \<Rightarrow> string \<Rightarrow> string list" where
  "FieldsFunc f [] = []"
| "FieldsFunc f (x # xs) =
     (if f x then FieldsFunc f xs
      else (x # takeWhile (\<lambda>c. \<not> f c) xs) # FieldsFunc f (dropWhile (\<lambda>c. \<not> f c) xs))"
  by pat_completeness auto
termination
  by (relation "measure (\<lambda>(f, s). length s)") (auto simp: le_imp_less_Suc length_dropWhile_le)

text \<open>\<open>strings.Cut\<close> at a byte: before, after, found.\<close>

definition Cut :: "char \<Rightarrow> string \<Rightarrow> string \<times> string \<times> bool" where
  "Cut c s = (takeWhile (\<lambda>x. x \<noteq> c) s, drop 1 (dropWhile (\<lambda>x. x \<noteq> c) s), c \<in> set s)"

definition ContainsAny :: "string \<Rightarrow> string \<Rightarrow> bool" where
  "ContainsAny s chars = list_ex (\<lambda>c. c \<in> set chars) s"

definition Contains :: "string \<Rightarrow> string \<Rightarrow> bool" where
  "Contains s sub = sublist sub s"

definition ToLower :: "string \<Rightarrow> string" where
  "ToLower s = map to_lower s"

definition EqualFold :: "string \<Rightarrow> string \<Rightarrow> bool" where
  "EqualFold s t \<longleftrightarrow> ToLower s = ToLower t"

text \<open>
  \<open>strings.TrimSpace\<close> removes Unicode white space at both ends: the ASCII spaces and the UTF-8
  encodings of U+0085, U+00A0, U+1680, U+2000 to U+200A, U+2028, U+2029, U+202F, U+205F and
  U+3000.
\<close>

definition spaces :: "string list" where
  "spaces = map (\<lambda>n. [char_of n]) [9, 10, 11, 12, 13, 32 :: nat] @
     map (map char_of) ([[194, 133], [194, 160], [225, 154, 128], [226, 128, 168], [226, 128, 169],
       [226, 128, 175], [226, 129, 159], [227, 128, 128]] @
       map (\<lambda>n. [226, 128, 128 + n]) [0..<11] :: nat list list)"

function trim_left :: "string list \<Rightarrow> string \<Rightarrow> string" where
  "trim_left ps s =
     (case find (\<lambda>p. p \<noteq> [] \<and> prefix p s) ps of
        None \<Rightarrow> s
      | Some p \<Rightarrow> trim_left ps (drop (length p) s))"
  by pat_completeness auto
termination
  by (relation "measure (\<lambda>(ps, s). length s)")
    (auto simp: find_Some_iff prefix_def)

declare trim_left.simps [simp del]

definition TrimSpace :: "string \<Rightarrow> string" where
  "TrimSpace s = rev (trim_left (map rev spaces) (rev (trim_left spaces s)))"

section \<open>Header names and the \<open>http.Header\<close> map\<close>

text \<open>The token bytes of RFC 7230, as the literal in \<open>HeaderName\<close> and \<open>Method\<close> lists them.\<close>

definition token_punct :: string where
  "token_punct = ''!#$%&'' @ [CHR 0x27] @ ''*+-.^_'' @ [CHR 0x60] @ ''|~''"

definition token_byte :: "char \<Rightarrow> bool" where
  "token_byte c \<longleftrightarrow> is_lower c \<or> is_upper c \<or> is_digit c \<or> c \<in> set token_punct"

text \<open>
  \<open>http.CanonicalHeaderKey\<close>: a name with a byte outside the token set is returned as it is;
  otherwise the first letter and every letter after a hyphen is upper case, the others lower.
\<close>

fun canon_from :: "bool \<Rightarrow> string \<Rightarrow> string" where
  "canon_from up [] = []"
| "canon_from up (c # cs) =
     (let d = (if up then to_upper c else to_lower c) in d # canon_from (d = CHR ''-'') cs)"

definition CanonicalHeaderKey :: "string \<Rightarrow> string" where
  "CanonicalHeaderKey s = (if list_all token_byte s then canon_from True s else s)"

text \<open>A header map holds one entry per key; the order of the entries is Go's iteration order.\<close>

type_synonym header = "(string \<times> string list) list"

definition Values :: "header \<Rightarrow> string \<Rightarrow> string list" where
  "Values h k = (case map_of h (CanonicalHeaderKey k) of None \<Rightarrow> [] | Some vs \<Rightarrow> vs)"

definition Get :: "header \<Rightarrow> string \<Rightarrow> string" where
  "Get h k = (case Values h k of [] \<Rightarrow> [] | v # _ \<Rightarrow> v)"

definition Add :: "header \<Rightarrow> string \<Rightarrow> string \<Rightarrow> header" where
  "Add h k v = AList.update (CanonicalHeaderKey k) (Values h k @ [v]) h"

definition Set :: "header \<Rightarrow> string \<Rightarrow> string \<Rightarrow> header" where
  "Set h k v = AList.update (CanonicalHeaderKey k) [v] h"

definition Del :: "header \<Rightarrow> string \<Rightarrow> header" where
  "Del h k = AList.delete (CanonicalHeaderKey k) h"


section \<open>Lemmas on the string functions\<close>

lemma HasPrefix_iff: "HasPrefix s p \<longleftrightarrow> (\<exists>r. s = p @ r)"
  by (simp add: HasPrefix_def prefix_def)

lemma HasPrefix_append [simp]: "HasPrefix (p @ r) p"
  by (simp add: HasPrefix_def)

lemma TrimPrefix_append [simp]: "TrimPrefix (p @ r) p = r"
  by (simp add: TrimPrefix_def)

lemma TrimSuffix_append [simp]: "TrimSuffix (s @ e) e = s"
  by (simp add: TrimSuffix_def suffix_def)

lemma TrimSuffix_cases:
  obtains (trimmed) "s = TrimSuffix s e @ e" | (same) "TrimSuffix s e = s"
  by (cases "suffix e s") (auto simp: TrimSuffix_def suffix_def)

lemma Split_not_Nil [simp]: "Split c s \<noteq> []"
  by (cases s) (auto split: list.splits)

lemma Split_no_sep: "x \<in> set (Split c s) \<Longrightarrow> c \<notin> set x"
  by (induction c s arbitrary: x rule: Split.induct) (fastforce split: if_splits list.splits)+

lemma Join_Cons: "xs \<noteq> [] \<Longrightarrow> Join sep (x # xs) = x @ sep @ Join sep xs"
  by (cases xs) auto

lemma Join_Cons_char: "Join sep ((c # x) # xs) = c # Join sep (x # xs)"
  by (cases xs) auto

lemma Join_Split [simp]: "Join [c] (Split c s) = s"
  by (induction c s rule: Split.induct)
    (auto simp: Join_Cons Join_Cons_char split: list.splits)

lemma Split_append_sep: "c \<notin> set x \<Longrightarrow> Split c (x @ c # s) = x # Split c s"
  by (induction x) auto

lemma Split_single: "c \<notin> set x \<Longrightarrow> Split c x = [x]"
  by (induction x) auto

lemma Split_Join:
  "xs \<noteq> [] \<Longrightarrow> (\<And>x. x \<in> set xs \<Longrightarrow> c \<notin> set x) \<Longrightarrow> Split c (Join [c] xs) = xs"
  by (induction "[c]" xs rule: Join.induct) (auto simp: Split_single Split_append_sep)

lemma Split_set_subset: "x \<in> set (Split c s) \<Longrightarrow> set x \<subseteq> set s"
  by (induction c s arbitrary: x rule: Split.induct) (fastforce split: if_splits list.splits)+

lemma FieldsFunc_bytes: "x \<in> set (FieldsFunc f s) \<Longrightarrow> b \<in> set x \<Longrightarrow> b \<in> set s \<and> \<not> f b"
  by (induction f s rule: FieldsFunc.induct)
    (auto split: if_splits dest: set_takeWhileD set_dropWhileD)

lemma FieldsFunc_not_Nil: "x \<in> set (FieldsFunc f s) \<Longrightarrow> x \<noteq> []"
  by (induction f s rule: FieldsFunc.induct) (auto split: if_splits)

lemma ToLower_idem [simp]: "ToLower (ToLower s) = ToLower s"
  by (simp add: ToLower_def)

lemma length_ToLower [simp]: "length (ToLower s) = length s"
  by (simp add: ToLower_def)

lemma EqualFold_refl [simp]: "EqualFold s s"
  by (simp add: EqualFold_def)

lemma EqualFold_sym: "EqualFold s t \<Longrightarrow> EqualFold t s"
  by (simp add: EqualFold_def)

lemma EqualFold_trans: "EqualFold s t \<Longrightarrow> EqualFold t u \<Longrightarrow> EqualFold s u"
  by (simp add: EqualFold_def)

section \<open>Lemmas on header names and header maps\<close>

lemma to_lower_hyphen_iff: "to_lower c = CHR ''-'' \<longleftrightarrow> c = CHR ''-''"
  by (auto simp: byte_of_inject [symmetric] byte_of_to_lower is_upper_def simp del: of_char_eq_iff)

lemma to_upper_hyphen_iff: "to_upper c = CHR ''-'' \<longleftrightarrow> c = CHR ''-''"
  by (auto simp: byte_of_inject [symmetric] byte_of_to_upper is_lower_def simp del: of_char_eq_iff)

lemma ToLower_canon_from [simp]: "ToLower (canon_from up s) = ToLower s"
  by (induction s arbitrary: up) (auto simp: ToLower_def Let_def)

lemma canon_from_idem [simp]: "canon_from up (canon_from up s) = canon_from up s"
  by (induction s arbitrary: up) (auto simp: Let_def)

lemma canon_from_cong_fold: "ToLower s = ToLower t \<Longrightarrow> canon_from up s = canon_from up t"
proof (induction s arbitrary: up t)
  case Nil
  then show ?case by (simp add: ToLower_def)
next
  case (Cons c s)
  then obtain d t' where t: "t = d # t'" "to_lower c = to_lower d" "ToLower s = ToLower t'"
    by (auto simp: ToLower_def Cons_eq_map_conv)
  have "to_upper c = to_upper d"
    using t(2) by (metis to_upper_to_lower)
  with t Cons.IH [OF t(3)] show ?case by (simp add: Let_def)
qed

lemma canon_from_Nil_iff [simp]: "canon_from up s = [] \<longleftrightarrow> s = []"
  by (cases s) (auto simp: Let_def)

lemma token_byte_to_lower [simp]: "token_byte c \<Longrightarrow> token_byte (to_lower c)"
  by (cases "is_upper c")
    (auto simp: token_byte_def byte_class_defs byte_of_to_lower to_lower_def)

lemma token_byte_to_upper [simp]: "token_byte c \<Longrightarrow> token_byte (to_upper c)"
  by (cases "is_lower c")
    (auto simp: token_byte_def byte_class_defs byte_of_to_upper to_upper_def)

lemma canon_from_token: "list_all token_byte s \<Longrightarrow> list_all token_byte (canon_from up s)"
  by (induction s arbitrary: up) (auto simp: Let_def)

lemma CanonicalHeaderKey_idem [simp]:
  "CanonicalHeaderKey (CanonicalHeaderKey s) = CanonicalHeaderKey s"
  by (simp add: CanonicalHeaderKey_def canon_from_token)

lemma ToLower_CanonicalHeaderKey [simp]: "ToLower (CanonicalHeaderKey s) = ToLower s"
  by (simp add: CanonicalHeaderKey_def)

lemma EqualFold_CanonicalHeaderKey [simp]:
  "EqualFold (CanonicalHeaderKey s) t \<longleftrightarrow> EqualFold s t"
  "EqualFold s (CanonicalHeaderKey t) \<longleftrightarrow> EqualFold s t"
  by (simp_all add: EqualFold_def)

lemma CanonicalHeaderKey_token [simp]:
  "list_all token_byte (CanonicalHeaderKey s) \<longleftrightarrow> list_all token_byte s"
  by (simp add: CanonicalHeaderKey_def canon_from_token)

lemma CanonicalHeaderKey_Nil [simp]: "CanonicalHeaderKey [] = []"
  by (simp add: CanonicalHeaderKey_def)

lemma CanonicalHeaderKey_eq_Nil [simp]: "CanonicalHeaderKey s = [] \<longleftrightarrow> s = []"
  by (simp add: CanonicalHeaderKey_def)

text \<open>Two token names have the same key exactly when they are equal up to ASCII case.\<close>

lemma canonical_eq_iff_EqualFold:
  assumes "list_all token_byte s" and "list_all token_byte t"
  shows "CanonicalHeaderKey s = CanonicalHeaderKey t \<longleftrightarrow> EqualFold s t"
proof
  assume "CanonicalHeaderKey s = CanonicalHeaderKey t"
  then have "ToLower (CanonicalHeaderKey s) = ToLower (CanonicalHeaderKey t)" by simp
  then show "EqualFold s t" by (simp add: EqualFold_def)
next
  assume "EqualFold s t"
  with assms show "CanonicalHeaderKey s = CanonicalHeaderKey t"
    by (auto simp: CanonicalHeaderKey_def EqualFold_def intro: canon_from_cong_fold)
qed

lemma Values_canonical [simp]: "Values h (CanonicalHeaderKey k) = Values h k"
  by (simp add: Values_def)

lemma Values_Nil [simp]: "Values [] k = []"
  by (simp add: Values_def)

lemma Values_Add [simp]:
  "Values (Add h k v) j = (if CanonicalHeaderKey j = CanonicalHeaderKey k
     then Values h k @ [v] else Values h j)"
  by (simp add: Values_def Add_def update_conv' fun_upd_def)

lemma Values_Set [simp]:
  "Values (Set h k v) j = (if CanonicalHeaderKey j = CanonicalHeaderKey k
     then [v] else Values h j)"
  by (simp add: Values_def Set_def update_conv')

lemma Values_Del [simp]:
  "Values (Del h k) j = (if CanonicalHeaderKey j = CanonicalHeaderKey k then [] else Values h j)"
  by (simp add: Values_def Del_def delete_conv')

lemma Get_Set [simp]: "Get (Set h k v) k = v"
  by (simp add: Get_def)

section \<open>Trimming\<close>

lemma spaces_no_token: "list_all (\<lambda>p. p \<noteq> [] \<and> \<not> token_byte (hd p) \<and> \<not> token_byte (last p)) spaces"
  by code_simp

lemma trim_left_stop: "list_all (\<lambda>p. p = [] \<or> \<not> prefix p s) ps \<Longrightarrow> trim_left ps s = s"
proof -
  assume "list_all (\<lambda>p. p = [] \<or> \<not> prefix p s) ps"
  then have "find (\<lambda>p. p \<noteq> [] \<and> prefix p s) ps = None"
    by (auto simp: find_None_iff list_all_iff)
  then show ?thesis by (simp add: trim_left.simps)
qed

lemma TrimSpace_token: 
  assumes "list_all token_byte s"
  shows "TrimSpace s = s"
proof -
  have p: "p \<noteq> []" "\<not> prefix p s" "\<not> prefix (rev p) (rev s)" if "p \<in> set spaces" for p
  proof -
    from that spaces_no_token have *: "p \<noteq> []" "\<not> token_byte (hd p)" "\<not> token_byte (last p)"
      by (auto simp: list_all_iff)
    have "hd p \<in> set s" if "prefix p s" using that * by (auto simp: prefix_def)
    moreover have "last p \<in> set s" if "prefix (rev p) (rev s)"
      using that * by (auto simp: suffix_to_prefix [symmetric] suffix_def)
    ultimately show "p \<noteq> []" "\<not> prefix p s" "\<not> prefix (rev p) (rev s)"
      using * assms by (auto simp: list_all_iff)
  qed
  have "trim_left spaces s = s" by (rule trim_left_stop) (use p in \<open>simp add: list_all_iff\<close>)
  moreover have "trim_left (map rev spaces) (rev s) = rev s"
    by (rule trim_left_stop) (use p in \<open>simp add: list_all_iff\<close>)
  ultimately show ?thesis by (simp add: TrimSpace_def)
qed

section \<open>Searching\<close>

lemma find_Some_in: "find P xs = Some x \<Longrightarrow> x \<in> set xs \<and> P x"
  by (auto simp: find_Some_iff)

lemma find_take: "find P (take n xs) = Some x \<Longrightarrow> find P xs = Some x"
  by (induction xs arbitrary: n) (auto simp: take_Cons split: nat.splits if_splits)

lemma find_unique:
  assumes "x \<in> set xs" "P x" "\<And>y. y \<in> set xs \<Longrightarrow> P y \<Longrightarrow> y = x"
  shows "find P xs = Some x"
proof (cases "find P xs")
  case None
  with assms(1,2) show ?thesis by (simp add: find_None_iff)
next
  case (Some y)
  with assms(3) find_Some_in [OF Some] show ?thesis by simp
qed

lemma filter_key: "distinct (map f xs) \<Longrightarrow> x \<in> set xs \<Longrightarrow> filter (\<lambda>y. f y = f x) xs = [x]"
  by (induction xs) (auto simp: filter_empty_conv image_iff)

section \<open>Instants\<close>

text \<open>An instant (\<open>time.Time\<close>) is a number of nanoseconds; certificates are renewed in their last week.\<close>

definition second :: int where
  "second = 1000000000"

definition renewal_window :: int where
  "renewal_window = 7 * 24 * 3600 * second"

end
