(* ===== verification/Netip.thy ===== *)
theory Netip
  imports Budge_Prelude "HOL-Library.Word"
begin

unbundle bit_operations_syntax

text \<open>
  The part of Go's \<open>net/netip\<close> that \<open>internal/access/access.go\<close> and \<open>internal/upstream/http.go\<close>
  use: addresses, their textual form, prefixes, and the predicates on special ranges. An IPv4
  address is a 32-bit word, an IPv6 address a 128-bit word with its zone, and the zero value
  \<open>netip.Addr{}\<close> is no address at all.
\<close>

datatype addr = NoAddr | V4 "32 word" | V6 "128 word" string

fun Is4 :: "addr \<Rightarrow> bool" where
  "Is4 (V4 _) = True"
| "Is4 _ = False"

fun Is4In6 :: "addr \<Rightarrow> bool" where
  "Is4In6 (V6 w _) = (drop_bit 32 w = 0xffff)"
| "Is4In6 _ = False"

fun Unmap :: "addr \<Rightarrow> addr" where
  "Unmap (V6 w z) = (if Is4In6 (V6 w z) then V4 (ucast w) else V6 w z)"
| "Unmap a = a"

definition IsValid :: "addr \<Rightarrow> bool" where
  "IsValid a \<longleftrightarrow> a \<noteq> NoAddr"

section \<open>Special ranges\<close>

text \<open>Each predicate first replaces an IPv4-mapped IPv6 address by the IPv4 address, as netip does.\<close>

fun loopback_raw :: "addr \<Rightarrow> bool" where
  "loopback_raw (V4 w) = (drop_bit 24 w = 127)"
| "loopback_raw (V6 w _) = (w = 1)"
| "loopback_raw NoAddr = False"

definition IsLoopback :: "addr \<Rightarrow> bool" where
  "IsLoopback a = loopback_raw (Unmap a)"

fun link_local_unicast_raw :: "addr \<Rightarrow> bool" where
  "link_local_unicast_raw (V4 w) = (drop_bit 16 w = 0xa9fe)"
| "link_local_unicast_raw (V6 w _) = (drop_bit 118 w = 0x3fa)"
| "link_local_unicast_raw NoAddr = False"

definition IsLinkLocalUnicast :: "addr \<Rightarrow> bool" where
  "IsLinkLocalUnicast a = link_local_unicast_raw (Unmap a)"

fun link_local_multicast_raw :: "addr \<Rightarrow> bool" where
  "link_local_multicast_raw (V4 w) = (drop_bit 8 w = 0xe00000)"
| "link_local_multicast_raw (V6 w _) =
     (drop_bit 120 w = 0xff \<and> take_bit 4 (drop_bit 112 w) = 2)"
| "link_local_multicast_raw NoAddr = False"

definition IsLinkLocalMulticast :: "addr \<Rightarrow> bool" where
  "IsLinkLocalMulticast a = link_local_multicast_raw (Unmap a)"

fun multicast_raw :: "addr \<Rightarrow> bool" where
  "multicast_raw (V4 w) = (drop_bit 28 w = 0xe)"
| "multicast_raw (V6 w _) = (drop_bit 120 w = 0xff)"
| "multicast_raw NoAddr = False"

definition IsMulticast :: "addr \<Rightarrow> bool" where
  "IsMulticast a = multicast_raw (Unmap a)"

definition IsUnspecified :: "addr \<Rightarrow> bool" where
  "IsUnspecified a \<longleftrightarrow> a = V4 0 \<or> a = V6 0 []"

fun private_raw :: "addr \<Rightarrow> bool" where
  "private_raw (V4 w) =
     (drop_bit 24 w = 10 \<or> drop_bit 20 w = 0xac1 \<or> drop_bit 16 w = 0xc0a8)"
| "private_raw (V6 w _) = (drop_bit 121 w = 0x7e)"
| "private_raw NoAddr = False"

definition IsPrivate :: "addr \<Rightarrow> bool" where
  "IsPrivate a = private_raw (Unmap a)"

definition IsGlobalUnicast :: "addr \<Rightarrow> bool" where
  "IsGlobalUnicast a0 =
     (if a0 = NoAddr then False
      else let a = Unmap a0 in
        if a = V4 0 \<or> a = V4 0xffffffff then False
        else a \<noteq> V6 0 [] \<and> \<not> IsLoopback a \<and> \<not> IsMulticast a \<and> \<not> IsLinkLocalUnicast a)"

section \<open>Textual addresses\<close>

definition digit_val :: "char \<Rightarrow> int" where
  "digit_val c = of_char c - 48"

definition dec_val :: "string \<Rightarrow> int" where
  "dec_val s = foldl (\<lambda>v c. v * 10 + digit_val c) 0 s"

definition octet :: "string \<Rightarrow> int option" where
  "octet s =
     (if s \<noteq> [] \<and> list_all is_digit s \<and> \<not> (1 < length s \<and> hd s = CHR ''0'') \<and> dec_val s \<le> 255
      then Some (dec_val s) else None)"

text \<open>\<open>parseIPv4Fields\<close>: four dotted decimal octets without leading zeros.\<close>

definition ipv4_fields :: "string \<Rightarrow> int list option" where
  "ipv4_fields s =
     (case map octet (Split CHR ''.'' s) of
        [Some a, Some b, Some c, Some d] \<Rightarrow> Some [a, b, c, d]
      | _ \<Rightarrow> None)"

definition bytes_val :: "int list \<Rightarrow> int" where
  "bytes_val bs = foldl (\<lambda>v b. v * 256 + b) 0 bs"

definition is_hex :: "char \<Rightarrow> bool" where
  "is_hex c \<longleftrightarrow> is_digit c \<or> 97 \<le> byte_of c \<and> byte_of c \<le> 102 \<or> 65 \<le> byte_of c \<and> byte_of c \<le> 70"

definition hex_val :: "char \<Rightarrow> int" where
  "hex_val c = (if is_digit c then of_char c - 48
     else if 97 \<le> byte_of c then of_char c - 87 else of_char c - 55)"

definition hex_group :: "string \<Rightarrow> int" where
  "hex_group s = foldl (\<lambda>v c. v * 16 + hex_val c) 0 s"

text \<open>
  The group loop of \<open>parseIPv6\<close>. \<open>bs\<close> are the bytes read so far and \<open>el\<close> the byte position of
  the ellipsis; the first argument counts the groups there is still room for, so the loop's
  bound \<open>i < 16\<close> is the structural recursion. The result is the bytes, the ellipsis and the
  rest of the text.
\<close>

fun v6_groups :: "nat \<Rightarrow> int list \<Rightarrow> nat option \<Rightarrow> string \<Rightarrow>
    (int list \<times> nat option \<times> string) option" where
  "v6_groups 0 bs el s = Some (bs, el, s)"
| "v6_groups (Suc n) bs el s =
     (let g = takeWhile is_hex s; r = dropWhile is_hex s in
      if g = [] \<or> 4 < length g then None
      else if r \<noteq> [] \<and> hd r = CHR ''.'' then
        (if el = None \<and> length bs \<noteq> 12 then None
         else if 16 < length bs + 4 then None
         else case ipv4_fields s of None \<Rightarrow> None | Some fs \<Rightarrow> Some (bs @ fs, el, []))
      else let bs' = bs @ [hex_group g div 256, hex_group g mod 256] in
        if r = [] then Some (bs', el, [])
        else if hd r \<noteq> CHR '':'' \<or> length r = 1 then None
        else if r ! 1 = CHR '':'' then
          (if el \<noteq> None then None
           else if length r = 2 then Some (bs', Some (length bs'), [])
           else v6_groups n bs' (Some (length bs')) (drop 2 r))
        else v6_groups n bs' el (drop 1 r))"

definition parse_ipv6 :: "string \<Rightarrow> addr option" where
  "parse_ipv6 inp =
     (let (s, zone, zoned) = Cut CHR ''%'' inp in
      if zoned \<and> zone = [] then None
      else let lead = prefix ''::'' s; s1 = (if lead then drop 2 s else s) in
        if lead \<and> s1 = [] then Some (V6 0 zone)
        else case v6_groups 8 [] (if lead then Some 0 else None) s1 of
          None \<Rightarrow> None
        | Some (bs, el, rest) \<Rightarrow>
            if rest \<noteq> [] then None
            else if length bs < 16 then
              (case el of
                 None \<Rightarrow> None
               | Some k \<Rightarrow> Some (V6 (of_int (bytes_val
                   (take k bs @ replicate (16 - length bs) 0 @ drop k bs))) zone))
            else if el \<noteq> None then None
            else Some (V6 (of_int (bytes_val bs)) zone))"

fun first_of :: "string \<Rightarrow> string \<Rightarrow> char option" where
  "first_of cs [] = None"
| "first_of cs (x # xs) = (if x \<in> set cs then Some x else first_of cs xs)"

definition ParseAddr :: "string \<Rightarrow> addr option" where
  "ParseAddr s =
     (case first_of ''.:%'' s of
        None \<Rightarrow> None
      | Some c \<Rightarrow>
          if c = CHR ''.'' then
            map_option (\<lambda>fs. V4 (of_int (bytes_val fs))) (ipv4_fields s)
          else if c = CHR '':'' then parse_ipv6 s
          else None)"

section \<open>Prefixes\<close>

datatype prefix_t = PrefixFrom addr nat

fun prefix_addr :: "prefix_t \<Rightarrow> addr" where
  "prefix_addr (PrefixFrom a n) = a"

fun prefix_bits :: "prefix_t \<Rightarrow> nat" where
  "prefix_bits (PrefixFrom a n) = n"

text \<open>\<open>strings.LastIndexByte\<close> as a split: the part before the last separator and the part after.\<close>

definition cut_last :: "char \<Rightarrow> string \<Rightarrow> (string \<times> string) option" where
  "cut_last c s =
     (if c \<in> set s
      then Some (take (length s - length (takeWhile (\<lambda>x. x \<noteq> c) (rev s)) - 1) s,
                 rev (takeWhile (\<lambda>x. x \<noteq> c) (rev s)))
      else None)"

definition prefix_length :: "string \<Rightarrow> nat option" where
  "prefix_length t =
     (if t = [] \<or> \<not> list_all is_digit t \<or> (1 < length t \<and> hd t = CHR ''0'') then None
      else Some (nat (dec_val t)))"

definition ParsePrefix :: "string \<Rightarrow> prefix_t option" where
  "ParsePrefix s =
     (case cut_last CHR ''/'' s of
        None \<Rightarrow> None
      | Some (a, t) \<Rightarrow>
          (case (ParseAddr a, prefix_length t) of
             (Some (V4 w), Some n) \<Rightarrow> if n \<le> 32 then Some (PrefixFrom (V4 w) n) else None
           | (Some (V6 w z), Some n) \<Rightarrow>
               if z = [] \<and> n \<le> 128 then Some (PrefixFrom (V6 w []) n) else None
           | _ \<Rightarrow> None))"

text \<open>A prefix never contains an address of the other family, nor one with a zone.\<close>

fun PrefixContains :: "prefix_t \<Rightarrow> addr \<Rightarrow> bool" where
  "PrefixContains (PrefixFrom (V4 p) n) (V4 w) = (drop_bit (32 - n) (w XOR p) = 0)"
| "PrefixContains (PrefixFrom (V6 p _) n) (V6 w z) =
     (z = [] \<and> drop_bit (128 - n) (w XOR p) = 0)"
| "PrefixContains _ _ = False"


section \<open>\<open>net.SplitHostPort\<close>\<close>

definition SplitHostPort :: "string \<Rightarrow> (string \<times> string) option" where
  "SplitHostPort hp =
     (case cut_last CHR '':'' hp of
        None \<Rightarrow> None
      | Some (a, port) \<Rightarrow>
          if hd hp = CHR ''['' then
            (let host = takeWhile (\<lambda>c. c \<noteq> CHR '']'') (tl hp) in
             if CHR '']'' \<notin> set hp \<or> a \<noteq> ''['' @ host @ '']'' then None
             else if CHR ''['' \<in> set (tl hp) \<or> CHR '']'' \<in> set port then None
             else Some (host, port))
          else if CHR '':'' \<in> set a \<or> CHR ''['' \<in> set hp \<or> CHR '']'' \<in> set hp then None
          else Some (a, port))"

end
