(* ===== verification/Go_URL.thy ===== *)
theory Go_URL
  imports Netip
begin

text \<open>
  The part of Go's \<open>net/url\<close> that \<open>access.Base\<close>, \<open>access.Target\<close>, \<open>access.Route\<close> and
  \<open>Server.validSnapshot\<close> rely on: percent escaping by mode, \<open>url.Parse\<close> and \<open>URL.String\<close>.
  \<open>None\<close> stands for an error return; the error text is never used by the sources.
\<close>

datatype mode = encodePath | encodeHost | encodeZone | encodeUserPassword | encodeFragment

record URL =
  Scheme :: string
  Opaque :: string
  User :: "(string \<times> string option) option"
  Host :: string
  URLPath :: string
  RawPath :: string
  ForceQuery :: bool
  RawQuery :: string
  Fragment :: string

definition unreserved :: "char \<Rightarrow> bool" where
  "unreserved c \<longleftrightarrow> is_lower c \<or> is_upper c \<or> is_digit c"

text \<open>\<open>shouldEscape\<close>, in the order of its tests.\<close>

definition host_literal :: string where
  "host_literal = ''!$&'' @ [CHR 0x27] @ ''()*+,;=:[]<>'' @ [CHR 0x22]"

definition shouldEscape :: "mode \<Rightarrow> char \<Rightarrow> bool" where
  "shouldEscape m c =
     (if unreserved c then False
      else if m \<in> {encodeHost, encodeZone} \<and> c \<in> set host_literal then False
      else if c \<in> set ''-_.~'' then False
      else if c \<in> set ''$&+,/:;=?@'' then
        (case m of
           encodePath \<Rightarrow> c = CHR ''?''
         | encodeUserPassword \<Rightarrow> c \<in> set ''@/?:''
         | encodeFragment \<Rightarrow> False
         | _ \<Rightarrow> True)
      else if m = encodeFragment \<and> c \<in> set ''!()*'' then False
      else True)"

definition hex_digit :: "nat \<Rightarrow> char" where
  "hex_digit n = (if n < 10 then char_of (48 + n) else char_of (55 + n))"

definition percent :: "char \<Rightarrow> string" where
  "percent c = [CHR ''%'', hex_digit (byte_of c div 16), hex_digit (byte_of c mod 16)]"

definition escape :: "mode \<Rightarrow> string \<Rightarrow> string" where
  "escape m s = concat (map (\<lambda>c. if shouldEscape m c then percent c else [c]) s)"

definition unhex2 :: "char \<Rightarrow> char \<Rightarrow> char" where
  "unhex2 a b = char_of (nat (hex_val a * 16 + hex_val b))"

fun unescape :: "mode \<Rightarrow> string \<Rightarrow> string option" where
  "unescape m [] = Some []"
| "unescape m (c # s) =
     (if c = CHR ''%'' then
        (case s of
           a # b # s' \<Rightarrow>
             if \<not> is_hex a \<or> \<not> is_hex b then None
             else if m = encodeHost \<and> hex_val a < 8 \<and> \<not> (a = CHR ''2'' \<and> b = CHR ''5'') then None
             else if m = encodeZone \<and> \<not> (a = CHR ''2'' \<and> b = CHR ''5'') \<and>
                 unhex2 a b \<noteq> CHR '' '' \<and> shouldEscape encodeHost (unhex2 a b) then None
             else map_option (\<lambda>r. unhex2 a b # r) (unescape m s')
         | _ \<Rightarrow> None)
      else if (m = encodeHost \<or> m = encodeZone) \<and> byte_of c < 128 \<and> shouldEscape m c then None
      else map_option (\<lambda>r. c # r) (unescape m s))"

section \<open>\<open>url.Parse\<close>\<close>

definition has_ctl :: "string \<Rightarrow> bool" where
  "has_ctl s = list_ex (\<lambda>c. byte_of c < 32 \<or> byte_of c = 127) s"

definition validOptionalPort :: "string \<Rightarrow> bool" where
  "validOptionalPort p = (p = [] \<or> hd p = CHR '':'' \<and> list_all is_digit (tl p))"

text \<open>
  \<open>getScheme\<close> walks to the first byte that is no scheme byte; the accumulator holds the bytes
  before it. \<open>None\<close> is the error ``missing protocol scheme''.
\<close>

fun getScheme :: "string \<Rightarrow> string \<Rightarrow> string \<Rightarrow> (string \<times> string) option" where
  "getScheme raw acc [] = Some ([], raw)"
| "getScheme raw acc (c # s) =
     (if is_lower c \<or> is_upper c then getScheme raw (acc @ [c]) s
      else if is_digit c \<or> c \<in> set ''+-.'' then
        (if acc = [] then Some ([], raw) else getScheme raw (acc @ [c]) s)
      else if c = CHR '':'' then (if acc = [] then None else Some (acc, s))
      else Some ([], raw))"

text \<open>
  \<open>parseHost\<close>: an IP literal in brackets, which must be an IPv6 address, or a name with an
  optional numeric port after its only colon.
\<close>

definition find_zone :: "string \<Rightarrow> nat option" where
  "find_zone s = find (\<lambda>i. prefix ''%25'' (drop i s)) [0..<length s]"

definition parse_ip_literal :: "string \<Rightarrow> string option" where
  "parse_ip_literal h =
     (case find_zone h of
        None \<Rightarrow> unescape encodeHost h
      | Some z \<Rightarrow>
          (case (unescape encodeHost (take z h), unescape encodeZone (drop z h)) of
             (Some a, Some b) \<Rightarrow> Some (a @ b)
           | _ \<Rightarrow> None))"

definition parseHost :: "string \<Rightarrow> string option" where
  "parseHost h =
     (if CHR ''['' \<in> set h then
        (if hd h \<noteq> CHR ''['' \<or> CHR ''['' \<in> set (tl h) then None
         else case cut_last CHR '']'' h of
           None \<Rightarrow> None
         | Some (lit, port) \<Rightarrow>
             if \<not> validOptionalPort port then None
             else (case parse_ip_literal (tl lit) of
                 None \<Rightarrow> None
               | Some ip \<Rightarrow>
                   (case ParseAddr ip of
                      Some (V6 _ _) \<Rightarrow> Some (''['' @ ip @ '']'' @ port)
                    | _ \<Rightarrow> None)))
      else if CHR '':'' \<in> set h \<and> \<not> validOptionalPort (dropWhile (\<lambda>c. c \<noteq> CHR '':'') h) then None
      else unescape encodeHost h)"

definition userinfo_byte :: "char \<Rightarrow> bool" where
  "userinfo_byte c \<longleftrightarrow> unreserved c \<or> c \<in> set (''-._:~!$&'' @ [CHR 0x27] @ ''()*+,;=%@'')"

definition parseUser :: "string \<Rightarrow> (string \<times> string option) option" where
  "parseUser u =
     (if \<not> list_all userinfo_byte u then None
      else if CHR '':'' \<notin> set u then map_option (\<lambda>n. (n, None)) (unescape encodeUserPassword u)
      else (case Cut CHR '':'' u of (n, p, _) \<Rightarrow>
        (case (unescape encodeUserPassword n, unescape encodeUserPassword p) of
           (Some n', Some p') \<Rightarrow> Some (n', Some p')
         | _ \<Rightarrow> None)))"

definition parseAuthority :: "string \<Rightarrow> ((string \<times> string option) option \<times> string) option" where
  "parseAuthority a =
     (case cut_last CHR ''@'' a of
        None \<Rightarrow> map_option (\<lambda>h. (None, h)) (parseHost a)
      | Some (u, hp) \<Rightarrow>
          (case parseHost hp of
             None \<Rightarrow> None
           | Some h \<Rightarrow> map_option (\<lambda>n. (Some n, h)) (parseUser u)))"

definition setPath :: "URL \<Rightarrow> string \<Rightarrow> URL option" where
  "setPath u p =
     (case unescape encodePath p of
        None \<Rightarrow> None
      | Some path \<Rightarrow>
          Some (u\<lparr>URLPath := path, RawPath := (if escape encodePath path = p then [] else p)\<rparr>))"

definition empty_URL :: URL where
  "empty_URL = \<lparr>Scheme = [], Opaque = [], User = None, Host = [], URLPath = [], RawPath = [],
     ForceQuery = False, RawQuery = [], Fragment = []\<rparr>"

text \<open>\<open>parse\<close> with \<open>viaRequest = false\<close>, on the text before the fragment.\<close>

definition parse_query :: "URL \<Rightarrow> string \<Rightarrow> URL \<times> string" where
  "parse_query u rest =
     (if suffix ''?'' rest \<and> count_list rest CHR ''?'' = 1
      then (u\<lparr>ForceQuery := True\<rparr>, butlast rest)
      else (case Cut CHR ''?'' rest of (a, q, _) \<Rightarrow> (u\<lparr>RawQuery := q\<rparr>, a)))"

definition parse_hier :: "URL \<Rightarrow> string \<Rightarrow> URL option" where
  "parse_hier u rest =
     (if \<not> prefix ''/'' rest \<and> Scheme u \<noteq> [] then Some (u\<lparr>Opaque := rest\<rparr>)
      else if \<not> prefix ''/'' rest \<and> CHR '':'' \<in> set (takeWhile (\<lambda>c. c \<noteq> CHR ''/'') rest) then None
      else if (Scheme u \<noteq> [] \<or> \<not> prefix ''///'' rest) \<and> prefix ''//'' rest then
        (let a = drop 2 rest in
         case parseAuthority (takeWhile (\<lambda>c. c \<noteq> CHR ''/'') a) of
           None \<Rightarrow> None
         | Some (usr, h) \<Rightarrow>
             setPath (u\<lparr>User := usr, Host := h\<rparr>) (dropWhile (\<lambda>c. c \<noteq> CHR ''/'') a))
      else setPath u rest)"

definition url_parse :: "string \<Rightarrow> URL option" where
  "url_parse raw =
     (if has_ctl raw then None
      else if raw = ''*'' then Some (empty_URL\<lparr>URLPath := ''*''\<rparr>)
      else (case getScheme raw [] raw of
        None \<Rightarrow> None
      | Some (sch, rest) \<Rightarrow>
          (case parse_query (empty_URL\<lparr>Scheme := ToLower sch\<rparr>) rest of
             (u, rest') \<Rightarrow> parse_hier u rest')))"

definition Parse :: "string \<Rightarrow> URL option" where
  "Parse raw =
     (case Cut CHR ''#'' raw of
        (u, frag, _) \<Rightarrow>
          (case url_parse u of
             None \<Rightarrow> None
           | Some url \<Rightarrow>
               if frag = [] then Some url
               else map_option (\<lambda>f. url\<lparr>Fragment := f\<rparr>) (unescape encodeFragment frag)))"

section \<open>\<open>URL.Hostname\<close> and \<open>URL.String\<close>\<close>

definition Hostname :: "URL \<Rightarrow> string" where
  "Hostname u =
     (let h = Host u;
          h1 = (case cut_last CHR '':'' h of
                  None \<Rightarrow> h
                | Some (a, p) \<Rightarrow> if validOptionalPort (CHR '':'' # p) then a else h)
      in if prefix ''['' h1 \<and> suffix '']'' h1 then take (length h1 - 2) (drop 1 h1) else h1)"

definition EscapedPath :: "URL \<Rightarrow> string" where
  "EscapedPath u =
     (if RawPath u \<noteq> [] \<and> unescape encodePath (RawPath u) = Some (URLPath u) then RawPath u
      else if URLPath u = ''*'' then ''*''
      else escape encodePath (URLPath u))"

text \<open>
  \<open>URL.String\<close> for a URL with a scheme, no opaque part, no user and no fragment, the only kind
  that \<open>Target\<close> prints: \<open>Base\<close> refuses the others. A raw path that \<open>Base\<close> accepts is empty.
\<close>

definition URL_String :: "URL \<Rightarrow> string" where
  "URL_String u =
     Scheme u @ '':'' @
     (if Host u \<noteq> [] \<or> URLPath u \<noteq> [] then ''//'' @ escape encodeHost (Host u) else []) @
     (let p = EscapedPath u in
      (if p \<noteq> [] \<and> hd p \<noteq> CHR ''/'' \<and> Host u \<noteq> [] then ''/'' else []) @ p) @
     (if ForceQuery u \<or> RawQuery u \<noteq> [] then ''?'' @ RawQuery u else [])"

section \<open>Escaping and unescaping\<close>

lemma hex_digit_hex [simp]: "n < 16 \<Longrightarrow> is_hex (hex_digit n)"
  by (auto simp: is_hex_def hex_digit_def is_digit_def)

lemma of_char_int: "(of_char c :: int) = int (byte_of c)"
  by (simp add: of_nat_of_char)

lemma hex_val_hex_digit [simp]: "n < 16 \<Longrightarrow> hex_val (hex_digit n) = int n"
  by (simp add: hex_val_def hex_digit_def is_digit_def of_char_int)

lemma byte_of_div: "byte_of c div 16 < 16"
proof -
  have "byte_of c < 256" by simp
  then show ?thesis by arith
qed

lemma unhex2_percent:
  "unhex2 (hex_digit (byte_of c div 16)) (hex_digit (byte_of c mod 16)) = c"
proof -
  have "nat (int (byte_of c div 16) * 16 + int (byte_of c mod 16)) = byte_of c"
    by (metis div_mult_mod_eq nat_int of_nat_add of_nat_mult of_nat_numeral)
  then show ?thesis
    by (simp add: unhex2_def byte_of_div)
qed

lemma percent_shape: "percent c = CHR ''%'' # hex_digit (byte_of c div 16) # [hex_digit (byte_of c mod 16)]"
  by (simp add: percent_def)

lemma escape_Nil [simp]: "escape m [] = []"
  by (simp add: escape_def)

lemma escape_Cons: "escape m (c # s) = (if shouldEscape m c then percent c else [c]) @ escape m s"
  by (simp add: escape_def)

lemma shouldEscape_percent [simp]: "shouldEscape m CHR ''%''"
  by (simp add: shouldEscape_def unreserved_def byte_class_defs host_literal_def)

lemma unescape_escape_path [simp]: "unescape encodePath (escape encodePath s) = Some s"
proof (induction s)
  case (Cons c s)
  then show ?case
    by (cases "shouldEscape encodePath c")
      (auto simp: escape_Cons percent_def byte_of_div unhex2_percent)
qed simp

definition host_byte :: "char \<Rightarrow> bool" where
  "host_byte c \<longleftrightarrow> 128 \<le> byte_of c \<or> c = CHR ''%'' \<or> \<not> shouldEscape encodeHost c"

lemma percent_hex_val:
  "hex_val (hex_digit (byte_of c div 16)) < 8 \<longleftrightarrow> byte_of c < 128"
  by (simp add: byte_of_div) arith

lemma hex_digit_2_5: "hex_digit 2 = CHR ''2''" "hex_digit 5 = CHR ''5''"
  by code_simp+

lemma unescape_percent_host:
  assumes "128 \<le> byte_of c \<or> c = CHR ''%''"
  shows "unescape encodeHost (percent c @ s) = map_option (\<lambda>r. c # r) (unescape encodeHost s)"
proof (cases "c = CHR ''%''")
  case True
  then show ?thesis
    using unhex2_percent [of "CHR ''%''"] by (simp add: percent_def hex_digit_2_5 is_hex_def is_digit_def)
next
  case False
  with assms show ?thesis
    by (simp add: percent_def byte_of_div unhex2_percent percent_hex_val del: hex_val_hex_digit)
qed

lemma unescape_escape_host:
  "list_all host_byte s \<Longrightarrow> unescape encodeHost (escape encodeHost s) = Some s"
proof (induction s)
  case (Cons c s)
  show ?case
  proof (cases "shouldEscape encodeHost c")
    case True
    with Cons show ?thesis
      by (simp add: escape_Cons host_byte_def unescape_percent_host)
  next
    case False
    then have "c \<noteq> CHR ''%''" by auto
    with False Cons show ?thesis by (simp add: escape_Cons)
  qed
qed simp


lemma unescape_Cons_cases:
  assumes "unescape m (c # s) = Some h"
  obtains (percent) a b s' r where "c = CHR ''%''" "s = a # b # s'" "is_hex a" "is_hex b"
      "unescape m s' = Some r" "h = unhex2 a b # r"
      "m = encodeHost \<Longrightarrow> 8 \<le> hex_val a \<or> (a = CHR ''2'' \<and> b = CHR ''5'')"
  | (plain) r where "c \<noteq> CHR ''%''" "unescape m s = Some r" "h = c # r"
      "m = encodeHost \<Longrightarrow> 128 \<le> byte_of c \<or> \<not> shouldEscape m c"
proof (cases "c = CHR ''%''")
  case True
  then obtain a b s' where s: "s = a # b # s'"
    using assms by (cases s; cases "tl s") auto
  have pct: "unescape m (CHR ''%'' # a # b # s') =
     (if \<not> is_hex a \<or> \<not> is_hex b then None
      else if m = encodeHost \<and> hex_val a < 8 \<and> \<not> (a = CHR ''2'' \<and> b = CHR ''5'') then None
      else if m = encodeZone \<and> \<not> (a = CHR ''2'' \<and> b = CHR ''5'') \<and>
          unhex2 a b \<noteq> CHR '' '' \<and> shouldEscape encodeHost (unhex2 a b) then None
      else map_option (\<lambda>r. unhex2 a b # r) (unescape m s'))"
    by simp
  obtain r where "is_hex a" "is_hex b" "unescape m s' = Some r" "h = unhex2 a b # r"
    "m = encodeHost \<Longrightarrow> 8 \<le> hex_val a \<or> (a = CHR ''2'' \<and> b = CHR ''5'')"
    using assms unfolding True s pct
    by (cases "is_hex a \<and> is_hex b"; cases "unescape m s'")
      (auto simp del: unescape.simps split: if_split_asm)
  with True s show ?thesis by (intro percent)
next
  case False
  have eq: "unescape m (c # s) =
     (if (m = encodeHost \<or> m = encodeZone) \<and> byte_of c < 128 \<and> shouldEscape m c then None
      else map_option (\<lambda>r. c # r) (unescape m s))"
    using False by simp
  obtain r where "unescape m s = Some r" "h = c # r"
    "m = encodeHost \<Longrightarrow> 128 \<le> byte_of c \<or> \<not> shouldEscape m c"
    using assms unfolding eq by (auto simp del: unescape.simps split: if_split_asm)
  with False show ?thesis by (intro plain)
qed

lemma hex_val_bounds: "is_hex a \<Longrightarrow> 0 \<le> hex_val a \<and> hex_val a < 16"
  by (auto simp: is_hex_def is_digit_def hex_val_def of_char_int)

lemma unhex2_high: "is_hex a \<Longrightarrow> is_hex b \<Longrightarrow> 8 \<le> hex_val a \<Longrightarrow> 128 \<le> byte_of (unhex2 a b)"
proof -
  assume "is_hex a" "is_hex b" "8 \<le> hex_val a"
  then have "128 \<le> hex_val a * 16 + hex_val b" "hex_val a * 16 + hex_val b < 256"
    using hex_val_bounds [of a] hex_val_bounds [of b] by auto
  then have "nat (hex_val a * 16 + hex_val b) mod 256 = nat (hex_val a * 16 + hex_val b)"
    by (intro mod_less) (simp add: nat_less_iff)
  with \<open>128 \<le> hex_val a * 16 + hex_val b\<close> show ?thesis by (simp add: unhex2_def)
qed

lemma unhex2_25: "unhex2 CHR ''2'' CHR ''5'' = CHR ''%''"
  by code_simp

lemma unescape_host_bytes: "unescape encodeHost s = Some h \<Longrightarrow> list_all host_byte h"
proof (induction s arbitrary: h rule: length_induct)
  case (1 s)
  show ?case
  proof (cases s)
    case Nil
    with "1.prems" show ?thesis by simp
  next
    case (Cons c t)
    from "1.prems" [unfolded Cons] show ?thesis
    proof (cases rule: unescape_Cons_cases)
      case (percent a b s' r)
      then have "length s' < length s" "unescape encodeHost s' = Some r"
        using Cons by auto
      then have "list_all host_byte r"
        using "1.IH" by blast
      moreover have "host_byte (unhex2 a b)"
        using percent unhex2_high [of a b] by (auto simp: host_byte_def unhex2_25)
      ultimately show ?thesis using percent by simp
    next
      case (plain r)
      then show ?thesis
        using "1.IH" Cons by (auto simp: host_byte_def [of c])
    qed
  qed
qed


section \<open>Escaped hosts parse back\<close>

lemma hex_digit_no_colon: "n < 16 \<Longrightarrow> hex_digit n \<noteq> CHR '':''"
proof
  assume "n < 16" "hex_digit n = CHR '':''"
  then have "is_hex CHR '':''" by (metis hex_digit_hex)
  then show False by (simp add: is_hex_def is_digit_def)
qed

lemma not_hex_delims [simp]:
  "\<not> is_hex CHR ''/''" "\<not> is_hex CHR ''?''" "\<not> is_hex CHR ''#''" "\<not> is_hex CHR ''@''"
  "\<not> is_hex CHR ''[''" "\<not> is_hex CHR '':''"
  by (simp_all add: is_hex_def is_digit_def)

lemma is_hex_excludes: "is_hex c \<Longrightarrow> c \<notin> set '':/?#@[]''"
  by (auto simp: is_hex_def is_digit_def)

lemma host_unescaped_colon: "\<not> shouldEscape m CHR '':'' \<or> m \<noteq> encodeHost"
  by (simp add: shouldEscape_def host_literal_def)

lemma digit_unescaped: "is_digit c \<Longrightarrow> \<not> shouldEscape m c"
  by (simp add: shouldEscape_def unreserved_def)

lemma unescape_digits: "list_all is_digit s \<Longrightarrow> unescape m s = Some s"
proof (induction s)
  case (Cons c s)
  then have "c \<noteq> CHR ''%''" by (auto simp: is_digit_def)
  with Cons show ?case by (simp add: digit_unescaped)
qed simp

lemma escape_digits: "list_all is_digit s \<Longrightarrow> escape m s = s"
  by (induction s) (auto simp: escape_Cons digit_unescaped)

lemma unhex2_no_colon:
  "is_hex a \<Longrightarrow> is_hex b \<Longrightarrow> 8 \<le> hex_val a \<or> (a = CHR ''2'' \<and> b = CHR ''5'') \<Longrightarrow>
    unhex2 a b \<noteq> CHR '':''"
  using unhex2_high [of a b] by (auto simp: unhex2_25)

lemma unescape_port:
  "unescape encodeHost s = Some h \<Longrightarrow> validOptionalPort (dropWhile (\<lambda>c. c \<noteq> CHR '':'') s) \<Longrightarrow>
   validOptionalPort (dropWhile (\<lambda>c. c \<noteq> CHR '':'') h)"
proof (induction s arbitrary: h rule: length_induct)
  case (1 s)
  show ?case
  proof (cases s)
    case Nil
    with "1.prems" show ?thesis by simp
  next
    case (Cons c t)
    from "1.prems"(1) [unfolded Cons] show ?thesis
    proof (cases rule: unescape_Cons_cases)
      case (percent a b s' r)
      then have "a \<noteq> CHR '':''" "b \<noteq> CHR '':''" "unhex2 a b \<noteq> CHR '':''"
        using is_hex_excludes [of a] is_hex_excludes [of b] unhex2_no_colon [of a b] by auto
      moreover have "length s' < length s" using percent Cons by simp
      then have "validOptionalPort (dropWhile (\<lambda>c. c \<noteq> CHR '':'') s') \<Longrightarrow>
          validOptionalPort (dropWhile (\<lambda>c. c \<noteq> CHR '':'') r)"
        using percent "1.IH" by blast
      ultimately show ?thesis
        using percent "1.prems"(2) Cons by simp
    next
      case (plain r)
      then show ?thesis
        using "1.IH" "1.prems"(2) Cons
        by (cases "c = CHR '':''") (auto simp: validOptionalPort_def unescape_digits)
    qed
  qed
qed

lemma escape_port:
  "validOptionalPort (dropWhile (\<lambda>c. c \<noteq> CHR '':'') h) \<Longrightarrow>
   validOptionalPort (dropWhile (\<lambda>c. c \<noteq> CHR '':'') (escape encodeHost h))"
proof (induction h)
  case (Cons c h)
  have "hex_digit (byte_of c div 16) \<noteq> CHR '':''" "hex_digit (byte_of c mod 16) \<noteq> CHR '':''"
    using byte_of_div [of c] by (simp_all add: hex_digit_no_colon)
  with Cons host_unescaped_colon [of encodeHost] show ?case
    by (cases "c = CHR '':''"; cases "shouldEscape encodeHost c")
      (auto simp: escape_Cons percent_def validOptionalPort_def escape_digits)
qed simp

lemma set_escape:
  "c \<in> set (escape m s) \<Longrightarrow> (c \<in> set s \<and> \<not> shouldEscape m c) \<or> c = CHR ''%'' \<or> is_hex c"
  by (induction s) (auto simp: escape_Cons percent_def byte_of_div split: if_splits)

lemma shouldEscape_delims [simp]:
  "shouldEscape encodeHost CHR ''/''" "shouldEscape encodeHost CHR ''?''"
  "shouldEscape encodeHost CHR ''#''" "shouldEscape encodeHost CHR ''@''"
  "shouldEscape encodePath CHR ''?''" "shouldEscape encodePath CHR ''#''"
  by (simp_all add: shouldEscape_def unreserved_def byte_class_defs host_literal_def)

lemma escape_excludes:
  "CHR ''?'' \<notin> set (escape encodePath s)" "CHR ''#'' \<notin> set (escape encodePath s)"
  "CHR ''/'' \<notin> set (escape encodeHost s)" "CHR ''?'' \<notin> set (escape encodeHost s)"
  "CHR ''#'' \<notin> set (escape encodeHost s)" "CHR ''@'' \<notin> set (escape encodeHost s)"
proof -
  have path: "c \<in> set (escape encodePath s) \<Longrightarrow>
      \<not> shouldEscape encodePath c \<or> c = CHR ''%'' \<or> is_hex c" for c
    using set_escape [of c] by blast
  have host: "c \<in> set (escape encodeHost s) \<Longrightarrow>
      \<not> shouldEscape encodeHost c \<or> c = CHR ''%'' \<or> is_hex c" for c
    using set_escape [of c] by blast
  show "CHR ''?'' \<notin> set (escape encodePath s)" "CHR ''#'' \<notin> set (escape encodePath s)"
    using path [of "CHR ''?''"] path [of "CHR ''#''"] by auto
  show "CHR ''/'' \<notin> set (escape encodeHost s)" "CHR ''?'' \<notin> set (escape encodeHost s)"
    "CHR ''#'' \<notin> set (escape encodeHost s)" "CHR ''@'' \<notin> set (escape encodeHost s)"
    using host [of "CHR ''/''"] host [of "CHR ''?''"] host [of "CHR ''#''"] host [of "CHR ''@''"]
    by auto
qed

lemma literal_bytes_printable:
  "c \<in> set host_literal \<Longrightarrow> 33 \<le> byte_of c \<and> byte_of c \<le> 126"
  "c \<in> set ''-_.~'' \<Longrightarrow> 33 \<le> byte_of c \<and> byte_of c \<le> 126"
  "c \<in> set ''$&+,/:;=?@'' \<Longrightarrow> 33 \<le> byte_of c \<and> byte_of c \<le> 126"
  "c \<in> set ''!()*'' \<Longrightarrow> 33 \<le> byte_of c \<and> byte_of c \<le> 126"
  by (auto simp: host_literal_def)

lemma not_ctl_if_unescaped:
  assumes "\<not> shouldEscape m c"
  shows "33 \<le> byte_of c \<and> byte_of c \<le> 126"
proof -
  have "unreserved c \<or> c \<in> set host_literal \<or> c \<in> set ''-_.~'' \<or> c \<in> set ''$&+,/:;=?@'' \<or>
      c \<in> set ''!()*''"
    using assms unfolding shouldEscape_def by argo
  moreover have "unreserved c \<Longrightarrow> 33 \<le> byte_of c \<and> byte_of c \<le> 126"
    unfolding unreserved_def byte_class_defs by linarith
  ultimately show ?thesis
    using literal_bytes_printable [of c] by argo
qed

lemma has_ctl_escape [simp]: "\<not> has_ctl (escape m s)"
proof -
  have "33 \<le> byte_of c \<and> byte_of c \<le> 126" if "c \<in> set (escape m s)" for c
    using set_escape [OF that] not_ctl_if_unescaped [of m c]
    by (auto simp: is_hex_def is_digit_def)
  then show ?thesis by (fastforce simp: has_ctl_def list_ex_iff)
qed

lemma parseHost_escape:
  assumes "parseHost hp = Some h" and "CHR ''['' \<notin> set h"
  shows "parseHost (escape encodeHost h) = Some h"
proof -
  have hp: "CHR ''['' \<notin> set hp" "unescape encodeHost hp = Some h"
    "CHR '':'' \<in> set hp \<Longrightarrow> validOptionalPort (dropWhile (\<lambda>c. c \<noteq> CHR '':'') hp)"
    using assms by (auto simp: parseHost_def split: if_splits option.splits prod.splits addr.splits)
  have port: "validOptionalPort (dropWhile (\<lambda>c. c \<noteq> CHR '':'') hp)"
    using hp(3) by (cases "CHR '':'' \<in> set hp") (auto simp: validOptionalPort_def)
  have "CHR ''['' \<notin> set (escape encodeHost h)"
    using set_escape [of "CHR ''[''" encodeHost h] assms(2) by (auto simp: is_hex_def is_digit_def)
  moreover have "unescape encodeHost (escape encodeHost h) = Some h"
    using hp(2) by (intro unescape_escape_host unescape_host_bytes)
  ultimately show ?thesis
    using escape_port [OF unescape_port [OF hp(2) port]] by (simp add: parseHost_def)
qed

section \<open>A printed URL parses back\<close>

lemma takeWhile_stop: "c \<notin> set x \<Longrightarrow> takeWhile (\<lambda>d. d \<noteq> c) (x @ c # s) = x"
  by (induction x) auto

lemma dropWhile_stop: "c \<notin> set x \<Longrightarrow> dropWhile (\<lambda>d. d \<noteq> c) (x @ c # s) = c # s"
  by (induction x) auto

lemma takeWhile_all: "c \<notin> set x \<Longrightarrow> takeWhile (\<lambda>d. d \<noteq> c) x = x"
  by (auto simp: takeWhile_eq_all_conv)

lemma dropWhile_all: "c \<notin> set x \<Longrightarrow> dropWhile (\<lambda>d. d \<noteq> c) x = []"
  by auto

lemma Cut_found: "c \<notin> set x \<Longrightarrow> Cut c (x @ c # s) = (x, s, True)"
  by (simp add: Cut_def takeWhile_stop dropWhile_stop)

lemma Cut_missing: "c \<notin> set x \<Longrightarrow> Cut c x = (x, [], False)"
  by (simp add: Cut_def takeWhile_all dropWhile_all)

lemma getScheme_https:
  "getScheme raw [] (''https:'' @ s) = Some (''https'', s)"
  by (simp add: byte_class_defs)

lemma parse_query_append:
  assumes "CHR ''?'' \<notin> set x"
  shows "parse_query u (x @ (if q \<noteq> [] then ''?'' @ q else [])) = (u\<lparr>RawQuery := q\<rparr>, x)"
proof (cases "q = []")
  case True
  have "\<not> suffix ''?'' x" using assms by (auto simp: suffix_def)
  with True assms show ?thesis by (simp add: parse_query_def Cut_missing)
next
  case False
  have "\<not> (suffix ''?'' (x @ ''?'' @ q) \<and> count_list (x @ ''?'' @ q) CHR ''?'' = 1)"
  proof
    assume a: "suffix ''?'' (x @ ''?'' @ q) \<and> count_list (x @ ''?'' @ q) CHR ''?'' = 1"
    then have "count_list q CHR ''?'' = 0" by simp
    then have "CHR ''?'' \<notin> set q" by (simp add: count_list_0_iff)
    moreover have "last (x @ ''?'' @ q) = CHR ''?''"
      using a by (metis last_snoc suffix_def)
    ultimately show False using False last_in_set [of q] by simp
  qed
  then have "parse_query u (x @ ''?'' @ q) =
      (case Cut CHR ''?'' (x @ ''?'' @ q) of (a, q, _) \<Rightarrow> (u\<lparr>RawQuery := q\<rparr>, a))"
    unfolding parse_query_def by (rule if_not_P)
  with assms False show ?thesis by (simp add: Cut_found)
qed

lemma setPath_escape:
  "setPath u (escape encodePath p) = Some (u\<lparr>URLPath := p, RawPath := []\<rparr>)"
  by (simp add: setPath_def)

lemma cut_last_missing: "c \<notin> set s \<Longrightarrow> cut_last c s = None"
  by (simp add: cut_last_def)

definition printed :: "string \<Rightarrow> string \<Rightarrow> string \<Rightarrow> string" where
  "printed h p q = ''https:'' @ ''//'' @ escape encodeHost h @ escape encodePath p @
     (if q \<noteq> [] then ''?'' @ q else [])"

lemma escape_leading_slash:
  "escape encodePath (CHR ''/'' # p) = CHR ''/'' # escape encodePath p"
  by (simp add: escape_Cons shouldEscape_def unreserved_def byte_class_defs)

lemma parse_hier_printed:
  assumes "parseHost (escape encodeHost h) = Some h" and "Scheme u \<noteq> []"
  shows "parse_hier u (''//'' @ escape encodeHost h @ escape encodePath (CHR ''/'' # p)) =
    Some (u\<lparr>User := None, Host := h, URLPath := CHR ''/'' # p, RawPath := []\<rparr>)"
proof -
  let ?eh = "escape encodeHost h" and ?ep = "escape encodePath (CHR ''/'' # p)"
  have "takeWhile (\<lambda>c. c \<noteq> CHR ''/'') (?eh @ ?ep) = ?eh"
    "dropWhile (\<lambda>c. c \<noteq> CHR ''/'') (?eh @ ?ep) = ?ep"
    unfolding escape_leading_slash
    by (simp_all add: takeWhile_stop dropWhile_stop escape_excludes)
  moreover have "parseAuthority ?eh = Some (None, h)"
    using assms(1) by (simp add: parseAuthority_def cut_last_missing escape_excludes)
  ultimately show ?thesis
    using assms(2) by (simp add: parse_hier_def setPath_escape)
qed

lemma has_ctl_append: "has_ctl (x @ y) \<longleftrightarrow> has_ctl x \<or> has_ctl y"
  by (simp add: has_ctl_def)

lemma has_ctl_printed: "has_ctl (printed h p q) \<longleftrightarrow> has_ctl q"
proof -
  have "\<not> has_ctl ''https:''" "\<not> has_ctl ''//''" "\<not> has_ctl ''?''"
    by (simp_all add: has_ctl_def)
  moreover have "\<not> has_ctl []" by (simp add: has_ctl_def)
  ultimately show ?thesis
    unfolding printed_def has_ctl_append by (cases "q = []") (simp_all only: has_ctl_escape
      if_True if_False simp_thms has_ctl_append)
qed

lemma Parse_printed:
  assumes "parseHost (escape encodeHost h) = Some h"
    and "p = CHR ''/'' # p'"
    and "\<not> has_ctl q" and "CHR ''#'' \<notin> set q"
  shows "Parse (printed h p q) =
    Some (empty_URL\<lparr>Scheme := ''https'', Host := h, URLPath := p, RawQuery := q\<rparr>)"
proof -
  let ?x = "''//'' @ escape encodeHost h @ escape encodePath p"
  let ?q = "if q \<noteq> [] then ''?'' @ q else []"
  have t: "printed h p q = ''https:'' @ (?x @ ?q)"
    by (simp add: printed_def)
  have "CHR ''#'' \<notin> set (printed h p q)"
    using assms(4) by (simp add: printed_def escape_excludes)
  then have "Parse (printed h p q) = url_parse (printed h p q)"
    by (simp add: Parse_def Cut_missing split: option.splits)
  moreover have "\<not> has_ctl (printed h p q)"
    using assms(3) by (simp add: has_ctl_printed)
  moreover have "printed h p q \<noteq> ''*''" by (simp add: printed_def)
  moreover have "getScheme (printed h p q) [] (printed h p q) = Some (''https'', ?x @ ?q)"
    by (subst (2) t) (rule getScheme_https)
  moreover have "ToLower ''https'' = ''https''"
    by (simp add: ToLower_def to_lower_def byte_class_defs)
  moreover have "parse_query u (?x @ ?q) = (u\<lparr>RawQuery := q\<rparr>, ?x)" for u
    by (rule parse_query_append) (simp add: escape_excludes)
  moreover have "parse_hier (empty_URL\<lparr>Scheme := ''https'', RawQuery := q\<rparr>) ?x =
      Some (empty_URL\<lparr>Scheme := ''https'', Host := h, URLPath := p, RawQuery := q\<rparr>)"
    unfolding assms(2) by (subst parse_hier_printed [OF assms(1)]) (simp_all add: empty_URL_def)
  ultimately show ?thesis
    by (simp only: url_parse_def if_False option.case prod.case)
qed

end
