(* ===== verification/Access.thy ===== *)
theory Access
  imports Go_URL "HOL-Library.Multiset"
begin

text \<open>
  The pure part of \<open>internal/access/access.go\<close>: service ids, conservative paths, methods, the
  fixed upstream base and the target built on it, the route of an incoming request, the
  private network allowance, and the rules: when a permission matches a request and when two
  permissions overlap. The database side (\<open>GetService\<close>, \<open>Authorize\<close>) is in theory Authorize.
\<close>

datatype error = Err string | DriverErr

text \<open>
  \<open>Err\<close> carries the text of an \<open>errors.New\<close> of the sources; \<open>DriverErr\<close> stands for an error the
  database driver or the Go library returns, whose text the sources do not choose.
\<close>

section \<open>Names, paths and methods\<close>

text \<open>\<open>Slug\<close>: the regular expression \<open>^[a-z][a-z0-9-]{0,47}$\<close>.\<close>

definition Slug :: "string \<Rightarrow> bool" where
  "Slug s =
     (case s of
        [] \<Rightarrow> False
      | c # cs \<Rightarrow> is_lower c \<and> length cs \<le> 47 \<and>
          list_all (\<lambda>d. is_lower d \<or> is_digit d \<or> d = CHR ''-'') cs)"

definition path_punct :: string where
  "path_punct = ''/-._~!$&'' @ [CHR 0x27] @ ''()*+,;=:@''"

definition path_byte :: "char \<Rightarrow> bool" where
  "path_byte c \<longleftrightarrow> is_lower c \<or> is_upper c \<or> is_digit c \<or> c \<in> set path_punct"

definition Path :: "string \<Rightarrow> bool" where
  "Path p =
     (if p = [] \<or> hd p \<noteq> CHR ''/'' \<or> ContainsAny p (''%'' @ [CHR 0x5C] @ ''?#'') \<or>
         Contains p ''//'' then False
      else if \<not> list_all path_byte p then False
      else if list_ex (\<lambda>s. s = ''.'' \<or> s = ''..'') (Split CHR ''/'' p) then False
      else True)"

definition Method :: "string \<Rightarrow> bool" where
  "Method m =
     (if m = [] \<or> m = ''*'' \<or> 64 < length m \<or> EqualFold m ''CONNECT'' \<or> EqualFold m ''TRACE''
      then False
      else list_all token_byte m)"

section \<open>The fixed upstream base and the target\<close>

definition Base :: "string \<Rightarrow> error + URL" where
  "Base raw =
     (case Parse raw of
        None \<Rightarrow> Inl (Err ''service requires an HTTPS origin and conservative base path'')
      | Some u \<Rightarrow>
          if Scheme u \<noteq> ''https'' \<or> Hostname u = [] \<or> User u \<noteq> None \<or> RawQuery u \<noteq> [] \<or>
             ForceQuery u \<or> Fragment u \<noteq> [] \<or> RawPath u \<noteq> [] \<or> Opaque u \<noteq> [] \<or>
             (URLPath u \<noteq> [] \<and> \<not> Path (URLPath u))
          then Inl (Err ''service requires an HTTPS origin and conservative base path'')
          else Inr u)"

definition query_byte :: "char \<Rightarrow> bool" where
  "query_byte c \<longleftrightarrow> \<not> (byte_of c < 33 \<or> 126 < byte_of c \<or> c = CHR ''#'')"

definition Target :: "string \<Rightarrow> string \<Rightarrow> string \<Rightarrow> error + string" where
  "Target base path query =
     (case Base base of
        Inl _ \<Rightarrow> Inl (Err ''unsupported path'')
      | Inr u \<Rightarrow>
          if \<not> Path path then Inl (Err ''unsupported path'')
          else if \<not> list_all query_byte query then Inl (Err ''invalid raw query'')
          else Inr (URL_String (u\<lparr>URLPath := TrimSuffix (URLPath u) ''/'' @ path,
                                  RawQuery := query\<rparr>)))"

section \<open>The route of an incoming request\<close>

record request =
  ReqMethod :: string
  ReqURL :: URL
  ReqHeader :: header

text \<open>The zero result of the early returns is \<open>None\<close>; otherwise service, path and \<open>ok\<close>.\<close>

definition Route :: "request \<Rightarrow> (string \<times> string) option" where
  "Route r =
     (if Scheme (ReqURL r) \<noteq> [] \<or> RawPath (ReqURL r) \<noteq> [] \<or>
         \<not> HasPrefix (URLPath (ReqURL r)) ''/s/'' \<or> \<not> Method (ReqMethod r) \<or>
         Get (ReqHeader r) ''Upgrade'' \<noteq> []
      then None
      else let rest = TrimPrefix (URLPath (ReqURL r)) ''/s/'' in
        if CHR ''/'' \<notin> set rest then None
        else let service = takeWhile (\<lambda>c. c \<noteq> CHR ''/'') rest;
                 path = dropWhile (\<lambda>c. c \<noteq> CHR ''/'') rest in
          if Slug service \<and> Path path then Some (service, path) else None)"

definition CIDR :: "string \<Rightarrow> error + unit" where
  "CIDR raw =
     (if raw = [] then Inr ()
      else (case ParsePrefix raw of
         None \<Rightarrow> Inl (Err ''private destination must be an explicit private CIDR'')
       | Some p \<Rightarrow>
           if \<not> IsPrivate (prefix_addr p) \<or> prefix_bits p < 8
           then Inl (Err ''private destination must be an explicit private CIDR'')
           else Inr ()))"

section \<open>Permissions as rules\<close>

datatype path_kind = exact | subtree

datatype perm_mode = standing | approval_required

text \<open>
  \<open>access.Service\<close> and \<open>access.Permission\<close>. The path kind and the mode are columns whose only
  values are the ones \<open>addPermission\<close> admits, so they are datatypes; a null expiry is \<open>None\<close>.
\<close>

record service =
  svc_ID :: string
  Label :: string
  BaseURL :: string
  Auth :: string
  AuthHeader :: string
  PrivateCIDR :: string
  svc_Revision :: int
  Credential :: string
  RequestHeaders :: "string list"
  ResponseHeaders :: "string list"

record permission =
  perm_ID :: string
  DeviceID :: string
  ServiceID :: string
  PMethod :: string
  PPath :: string
  Kind :: path_kind
  Mode :: perm_mode
  Owner :: string
  perm_Revision :: int
  Expires :: "int option"

definition HasMethod :: "string \<Rightarrow> string \<Rightarrow> bool" where
  "HasMethod methods m = list_ex (\<lambda>x. x = m) (Split CHR '','' methods)"

definition Match :: "('a) permission_scheme \<Rightarrow> string \<Rightarrow> string \<Rightarrow> bool" where
  "Match p m path \<longleftrightarrow>
     HasMethod (PMethod p) m \<and>
     (path = PPath p \<or>
      (Kind p = subtree \<and> HasPrefix path (TrimSuffix (PPath p) ''/'' @ ''/'')))"

text \<open>The loop of \<open>Methods\<close> over the fields, with the list \<open>out\<close> built so far as accumulator.\<close>

fun methods_loop :: "string list \<Rightarrow> string list \<Rightarrow> error + string list" where
  "methods_loop out [] = Inr out"
| "methods_loop out (m # ms) =
     (if \<not> Method m \<or> m \<in> set out then Inl (Err ''invalid or duplicate method'')
      else methods_loop (out @ [m]) ms)"

definition Methods :: "string \<Rightarrow> error + string" where
  "Methods raw =
     (case methods_loop [] (FieldsFunc (\<lambda>c. c = CHR '','' \<or> c = CHR '' '') raw) of
        Inl e \<Rightarrow> Inl e
      | Inr out \<Rightarrow>
          if out = [] then Inl (Err ''methods required'')
          else Inr (Join '','' (sort out)))"

definition Overlap :: "'a permission_scheme \<Rightarrow> 'b permission_scheme \<Rightarrow> bool" where
  "Overlap a b =
     list_ex (\<lambda>m. HasMethod (PMethod b) m \<and> (Match a m (PPath b) \<or> Match b m (PPath a)))
       (Split CHR '','' (PMethod a))"

section \<open>Rules that do not overlap\<close>

locale rules =
  fixes matches :: "'r \<Rightarrow> 'q \<Rightarrow> bool"
    and overlaps :: "'r \<Rightarrow> 'r \<Rightarrow> bool"
  assumes overlaps_iff: "overlaps a b \<longleftrightarrow> (\<exists>q. matches a q \<and> matches b q)"
begin

lemma overlaps_sym: "overlaps a b \<longleftrightarrow> overlaps b a"
  by (auto simp: overlaps_iff)

definition disjoint :: "'r list \<Rightarrow> bool" where
  "disjoint rs \<longleftrightarrow> sorted_wrt (\<lambda>a b. \<not> overlaps a b) rs"

lemma disjoint_snoc:
  "disjoint (rs @ [r]) \<longleftrightarrow> disjoint rs \<and> (\<forall>x \<in> set rs. \<not> overlaps x r)"
  by (auto simp: disjoint_def sorted_wrt_append)

lemma disjoint_Cons:
  "disjoint (r # rs) \<longleftrightarrow> disjoint rs \<and> (\<forall>x \<in> set rs. \<not> overlaps r x)"
  by (auto simp: disjoint_def)

lemma overlapsI: "matches a q \<Longrightarrow> matches b q \<Longrightarrow> overlaps a b"
  by (auto simp: overlaps_iff)

lemma disjoint_filter: "disjoint rs \<Longrightarrow> disjoint (filter P rs)"
  by (simp add: disjoint_def sorted_wrt_filter)

lemma disjoint_at_most_one: "disjoint rs \<Longrightarrow> length (filter (\<lambda>r. matches r q) rs) \<le> 1"
proof (induction rs)
  case (Cons r rs)
  then have "matches r q \<Longrightarrow> filter (\<lambda>r. matches r q) rs = []"
    by (auto simp: disjoint_Cons filter_empty_conv dest: overlapsI)
  with Cons show ?case by (auto simp: disjoint_Cons)
qed simp

lemma first_match_order:
  assumes "disjoint rs" and "mset rs' = mset rs"
  shows "find (\<lambda>r. matches r q) rs' = find (\<lambda>r. matches r q) rs"
proof -
  let ?f = "filter (\<lambda>r. matches r q)"
  have find: "find (\<lambda>r. matches r q) xs = (case ?f xs of [] \<Rightarrow> None | x # _ \<Rightarrow> Some x)" for xs
    by (induction xs) auto
  have "mset (?f rs') = mset (?f rs)"
    using assms(2) by (simp add: mset_filter)
  moreover have "length (?f rs) \<le> 1"
    using assms(1) by (rule disjoint_at_most_one)
  ultimately have "?f rs' = ?f rs"
    by (cases "?f rs") (simp_all flip: mset_filter)
  then show ?thesis by (simp add: find)
qed

end

definition covers :: "'a permission_scheme \<Rightarrow> string \<Rightarrow> bool" where
  "covers p path \<longleftrightarrow> path = PPath p \<or>
     (Kind p = subtree \<and> HasPrefix path (TrimSuffix (PPath p) ''/'' @ ''/''))"

lemma Match_covers: "Match p m path \<longleftrightarrow> HasMethod (PMethod p) m \<and> covers p path"
  by (simp add: Match_def covers_def)

lemma covers_own [simp]: "covers p (PPath p)"
  by (simp add: covers_def)

lemma covers_comparable_aux:
  assumes "Kind a = subtree" and "Kind b = subtree"
    and "prefix (TrimSuffix (PPath a) ''/'' @ ''/'') (TrimSuffix (PPath b) ''/'' @ ''/'')"
  shows "covers a (PPath b) \<or> covers b (PPath a)"
proof -
  let ?ta = "TrimSuffix (PPath a) ''/''" and ?tb = "TrimSuffix (PPath b) ''/''"
  have b: "PPath b = ?tb \<or> PPath b = ?tb @ ''/''"
    by (rule TrimSuffix_cases [of "PPath b" "''/''"]) simp_all
  have a: "PPath a = ?ta \<or> PPath a = ?ta @ ''/''"
    by (rule TrimSuffix_cases [of "PPath a" "''/''"]) simp_all
  from assms(3) consider "?ta = ?tb" | "prefix (?ta @ ''/'') ?tb"
    by (auto simp: prefix_snoc)
  then show ?thesis
  proof cases
    case 1
    with a b assms(1,2) show ?thesis
      by (metis HasPrefix_def covers_def prefix_order.refl)
  next
    case 2
    with b have "prefix (?ta @ ''/'') (PPath b)"
      by (metis prefix_prefix)
    with assms(1) show ?thesis by (simp add: covers_def HasPrefix_def)
  qed
qed

lemma covers_comparable:
  assumes "covers a p" and "covers b p"
  shows "covers a (PPath b) \<or> covers b (PPath a)"
proof (cases "p = PPath a \<or> p = PPath b")
  case True
  with assms show ?thesis by auto
next
  case False
  with assms have sub: "Kind a = subtree" "Kind b = subtree"
    and "prefix (TrimSuffix (PPath a) ''/'' @ ''/'') p"
    and "prefix (TrimSuffix (PPath b) ''/'' @ ''/'') p"
    by (auto simp: covers_def HasPrefix_def)
  from prefix_same_cases [OF this(3,4)] consider
      "prefix (TrimSuffix (PPath a) ''/'' @ ''/'') (TrimSuffix (PPath b) ''/'' @ ''/'')"
    | "prefix (TrimSuffix (PPath b) ''/'' @ ''/'') (TrimSuffix (PPath a) ''/'' @ ''/'')"
    by blast
  then show ?thesis
    using covers_comparable_aux [of a b] covers_comparable_aux [of b a] sub by cases auto
qed

lemma HasMethod_iff: "HasMethod ms m \<longleftrightarrow> m \<in> set (Split CHR '','' ms)"
  by (auto simp: HasMethod_def list_ex_iff)

lemma Overlap_iff: "Overlap a b \<longleftrightarrow> (\<exists>m path. Match a m path \<and> Match b m path)"
proof
  assume "Overlap a b"
  then show "\<exists>m path. Match a m path \<and> Match b m path"
    using covers_own [of a] covers_own [of b]
    by (auto simp: Overlap_def list_ex_iff HasMethod_iff Match_covers simp del: covers_own)
next
  assume "\<exists>m path. Match a m path \<and> Match b m path"
  then show "Overlap a b"
    using covers_comparable
    by (auto simp: Overlap_def list_ex_iff HasMethod_iff Match_covers)
qed

interpretation perms: rules "\<lambda>p (m, path). Match p m path" Overlap
  by unfold_locales (simp add: Overlap_iff)

section \<open>Paths as lists of segments\<close>

lemma Split_append: "Split c (x @ c # s) = Split c x @ Split c s"
  by (induction c x rule: Split.induct) (auto split: list.splits)

lemma Join_append:
  "xs \<noteq> [] \<Longrightarrow> ys \<noteq> [] \<Longrightarrow> Join sep (xs @ ys) = Join sep xs @ sep @ Join sep ys"
  by (induction sep xs rule: Join.induct) (auto simp: Join_Cons)

lemma HasPrefix_sep_iff:
  "HasPrefix q (t @ [c]) \<longleftrightarrow> (\<exists>rest. rest \<noteq> [] \<and> Split c q = Split c t @ rest)"
proof
  assume "HasPrefix q (t @ [c])"
  then obtain r where "q = t @ c # r" by (auto simp: HasPrefix_iff)
  then show "\<exists>rest. rest \<noteq> [] \<and> Split c q = Split c t @ rest"
    by (auto simp: Split_append)
next
  assume "\<exists>rest. rest \<noteq> [] \<and> Split c q = Split c t @ rest"
  then obtain rest where "rest \<noteq> []" "Split c q = Split c t @ rest" by blast
  then have "Join [c] (Split c q) = t @ [c] @ Join [c] rest"
    by (simp add: Join_append)
  then show "HasPrefix q (t @ [c])" by (simp add: HasPrefix_iff)
qed

text \<open>A path written from its segments.\<close>

definition slashed :: "string list \<Rightarrow> string" where
  "slashed segs = concat (map (\<lambda>s. CHR ''/'' # s) segs)"

lemma slashed_Join: "segs \<noteq> [] \<Longrightarrow> slashed segs = CHR ''/'' # Join ''/'' segs"
  by (induction "''/''" segs rule: Join.induct) (auto simp: slashed_def)

lemma sublist_sep_skip: "c \<notin> set s \<Longrightarrow> sublist [c, c] (s @ r) \<longleftrightarrow> sublist [c, c] r"
  by (induction s) (auto simp: sublist_Cons_right)

lemma Contains_slashed:
  assumes "\<And>s. s \<in> set segs \<Longrightarrow> c \<notin> set s"
  shows "sublist [c, c] (concat (map (Cons c) segs)) \<longleftrightarrow> [] \<in> set (butlast segs)"
  using assms
proof (induction segs)
  case Nil
  then show ?case by simp
next
  case (Cons s segs)
  let ?r = "concat (map (Cons c) segs)"
  have r: "segs \<noteq> [] \<Longrightarrow> prefix [c] ?r"
    by (cases segs) auto
  show ?case
  proof (cases "s = []")
    case True
    then have "segs \<noteq> [] \<Longrightarrow> sublist [c, c] (c # ?r)"
      using r by (auto simp: sublist_Cons_right)
    with True Cons show ?thesis
      by (cases "segs = []") (auto simp: sublist_Cons_right)
  next
    case False
    have c: "c \<notin> set s" using Cons.prems by simp
    have "\<not> prefix [c, c] (c # s @ ?r)"
      using False c by (cases s) auto
    then have "sublist [c, c] (c # s @ ?r) \<longleftrightarrow> sublist [c, c] ?r"
      using sublist_sep_skip [OF c, of ?r] by (simp add: sublist_Cons_right)
    with False Cons show ?thesis by (cases segs) auto
  qed
qed

definition good_segments :: "string list \<Rightarrow> bool" where
  "good_segments segs \<longleftrightarrow> segs \<noteq> [] \<and> [] \<notin> set (butlast segs) \<and>
     (\<forall>s \<in> set segs. s \<noteq> ''.'' \<and> s \<noteq> ''..'' \<and> (\<forall>c \<in> set s. path_byte c \<and> c \<noteq> CHR ''/''))"

lemma path_byte_slash [simp]: "path_byte CHR ''/''"
  by (simp add: path_byte_def path_punct_def)

lemma path_byte_excludes:
  "path_byte c \<Longrightarrow> c \<noteq> CHR ''%'' \<and> c \<noteq> CHR 0x5C \<and> c \<noteq> CHR ''?'' \<and> c \<noteq> CHR ''#''"
  by (auto simp: path_byte_def path_punct_def byte_class_defs)

lemma Path_iff:
  "Path p \<longleftrightarrow> p \<noteq> [] \<and> hd p = CHR ''/'' \<and> list_all path_byte p \<and> \<not> Contains p ''//'' \<and>
     (\<forall>s \<in> set (Split CHR ''/'' p). s \<noteq> ''.'' \<and> s \<noteq> ''..'')"
  by (auto simp: Path_def ContainsAny_def list_ex_iff list_all_iff dest: path_byte_excludes)

lemma Path_slashed:
  assumes "good_segments segs"
  shows "Path (slashed segs)"
proof -
  have nosep: "s \<in> set segs \<Longrightarrow> CHR ''/'' \<notin> set s" for s
    using assms by (auto simp: good_segments_def)
  have "\<not> Contains (slashed segs) ''//''"
    using Contains_slashed [of segs "CHR ''/''"] nosep assms
    by (auto simp: Contains_def slashed_def good_segments_def)
  moreover have "Split CHR ''/'' (slashed segs) = [] # segs"
    using assms nosep by (auto simp: slashed_Join good_segments_def Split_Join)
  moreover have "list_all path_byte (slashed segs)"
    using assms by (auto simp: slashed_def good_segments_def list_all_iff)
  moreover have "slashed segs \<noteq> []" "hd (slashed segs) = CHR ''/''"
    using assms by (auto simp: slashed_Join good_segments_def)
  ultimately show ?thesis
    using assms by (auto simp: Path_iff good_segments_def)
qed

lemma Path_segments:
  assumes "Path p"
  obtains segs where "good_segments segs" and "p = slashed segs"
    and "Split CHR ''/'' p = [] # segs"
proof -
  from assms obtain q where p: "p = CHR ''/'' # q"
    by (cases p) (auto simp: Path_iff)
  let ?segs = "Split CHR ''/'' q"
  have split: "Split CHR ''/'' p = [] # ?segs" by (simp add: p)
  have eq: "p = slashed ?segs" by (simp add: slashed_Join p)
  have nosep: "s \<in> set ?segs \<Longrightarrow> CHR ''/'' \<notin> set s" for s by (rule Split_no_sep)
  have bytes: "s \<in> set ?segs \<Longrightarrow> c \<in> set s \<Longrightarrow> path_byte c" for s c
    using assms Split_set_subset [of s "CHR ''/''" q]
    by (auto simp: Path_iff list_all_iff p)
  have "[] \<notin> set (butlast ?segs)"
    using assms Contains_slashed [of ?segs "CHR ''/''"] nosep eq
    by (auto simp: Path_iff Contains_def slashed_def)
  with assms nosep bytes have "good_segments ?segs"
    by (fastforce simp: good_segments_def Path_iff split)
  then show ?thesis using eq split by (rule that)
qed

lemma Path_iff_segments: "Path p \<longleftrightarrow> (\<exists>segs. good_segments segs \<and> p = slashed segs)"
  by (metis Path_segments Path_slashed)

section \<open>Methods\<close>

lemma methods_loop_iff:
  "methods_loop out ms = Inr r \<longleftrightarrow>
     r = out @ ms \<and> (\<forall>m \<in> set ms. Method m) \<and> distinct ms \<and> set ms \<inter> set out = {}"
  by (induction out ms rule: methods_loop.induct) (auto split: if_splits)

lemma methods_loop_Inl:
  "methods_loop out ms = Inl e \<Longrightarrow>
     \<not> ((\<forall>m \<in> set ms. Method m) \<and> distinct ms \<and> set ms \<inter> set out = {})"
  by (metis methods_loop_iff sum.distinct(1))

lemma token_byte_no_comma: "\<not> token_byte CHR '',''"
  by (simp add: token_byte_def token_punct_def byte_class_defs)

lemma Method_no_comma: "Method m \<Longrightarrow> CHR '','' \<notin> set m"
  using token_byte_no_comma by (auto simp: Method_def list_all_iff split: if_splits)

lemma Methods_iff:
  "Methods raw = Inr ms \<longleftrightarrow>
     (let fs = FieldsFunc (\<lambda>c. c = CHR '','' \<or> c = CHR '' '') raw in
      fs \<noteq> [] \<and> distinct fs \<and> (\<forall>m \<in> set fs. Method m) \<and> ms = Join '','' (sort fs))"
  by (auto simp: Methods_def Let_def methods_loop_iff split: sum.splits if_splits
      dest: methods_loop_Inl)

lemma Methods_Split:
  assumes "Methods raw = Inr ms"
  shows "Split CHR '','' ms = sort (FieldsFunc (\<lambda>c. c = CHR '','' \<or> c = CHR '' '') raw)"
proof -
  let ?fs = "FieldsFunc (\<lambda>c. c = CHR '','' \<or> c = CHR '' '') raw"
  have "?fs \<noteq> []" "\<forall>m \<in> set ?fs. Method m" and ms: "ms = Join '','' (sort ?fs)"
    using assms by (auto simp: Methods_iff Let_def)
  then have "sort ?fs \<noteq> []" "\<forall>m \<in> set (sort ?fs). CHR '','' \<notin> set m"
    using Method_no_comma by (auto simp: set_empty [symmetric] simp del: set_empty)
  then show ?thesis unfolding ms by (intro Split_Join) auto
qed

section \<open>Targets keep the configured origin\<close>

lemma setPath_fields:
  "setPath u p = Some v \<Longrightarrow> Host v = Host u \<and> Scheme v = Scheme u \<and> User v = User u"
  by (auto simp: setPath_def split: option.splits)

lemma parse_hier_Host:
  "parse_hier u rest = Some v \<Longrightarrow> Host v = Host u \<or> (\<exists>hp. parseHost hp = Some (Host v))"
  by (auto simp: parse_hier_def parseAuthority_def Let_def dest!: setPath_fields
      split: if_splits option.splits prod.splits)

lemma Parse_Host:
  assumes "Parse raw = Some u" and "Host u \<noteq> []"
  shows "\<exists>hp. parseHost hp = Some (Host u)"
proof -
  obtain v where "url_parse (fst (Cut CHR ''#'' raw)) = Some v" "Host v = Host u"
    using assms by (auto simp: Parse_def split: prod.splits option.splits if_splits)
  moreover from this have "Host v = [] \<or> (\<exists>hp. parseHost hp = Some (Host v))"
    by (auto simp: url_parse_def parse_query_def empty_URL_def dest!: parse_hier_Host
        split: if_splits option.splits prod.splits)
  ultimately show ?thesis using assms by auto
qed

lemma Base_iff:
  "Base raw = Inr u \<longleftrightarrow> Parse raw = Some u \<and> Scheme u = ''https'' \<and> Hostname u \<noteq> [] \<and>
     User u = None \<and> RawQuery u = [] \<and> \<not> ForceQuery u \<and> Fragment u = [] \<and> RawPath u = [] \<and>
     Opaque u = [] \<and> (URLPath u = [] \<or> Path (URLPath u))"
  by (cases "Parse raw"; cases "User u") (auto simp: Base_def)

lemma Hostname_Host: "Hostname u \<noteq> [] \<Longrightarrow> Host u \<noteq> []"
  by (auto simp: Hostname_def cut_last_def)

lemma Base_URL:
  "Base raw = Inr u \<Longrightarrow>
     u = empty_URL\<lparr>Scheme := ''https'', Host := Host u, URLPath := URLPath u\<rparr>"
  by (cases u) (auto simp: Base_iff empty_URL_def)

lemma Path_leading: "Path p \<Longrightarrow> \<exists>p'. p = CHR ''/'' # p'"
  by (cases p) (auto simp: Path_iff)

definition full_path :: "URL \<Rightarrow> string \<Rightarrow> string" where
  "full_path u path = TrimSuffix (URLPath u) ''/'' @ path"

lemma full_path_leading:
  assumes "Base raw = Inr u" and "Path path"
  shows "\<exists>p'. full_path u path = CHR ''/'' # p'"
proof -
  have "URLPath u = [] \<or> (\<exists>p'. URLPath u = CHR ''/'' # p')"
    using assms(1) Path_leading by (auto simp: Base_iff)
  then have "TrimSuffix (URLPath u) ''/'' = [] \<or> (\<exists>t. TrimSuffix (URLPath u) ''/'' = CHR ''/'' # t)"
    by (cases rule: TrimSuffix_cases [of "URLPath u" "''/''"]; cases "TrimSuffix (URLPath u) ''/''") auto
  then show ?thesis
    using Path_leading [OF assms(2)] by (auto simp: full_path_def)
qed

lemma Target_iff:
  "Target base path query = Inr t \<longleftrightarrow>
     (\<exists>u. Base base = Inr u \<and> Path path \<and> list_all query_byte query \<and>
          t = printed (Host u) (full_path u path) query)"
proof -
  have "URL_String (u\<lparr>URLPath := full_path u path, RawQuery := query\<rparr>) =
      printed (Host u) (full_path u path) query"
    if "Base base = Inr u" and "Path path" for u
  proof -
    have "Host u \<noteq> []" "Scheme u = ''https''" "RawPath u = []" "\<not> ForceQuery u"
      using that(1) Hostname_Host by (auto simp: Base_iff)
    then show ?thesis
      using full_path_leading [OF that]
      by (auto simp: URL_String_def EscapedPath_def printed_def Let_def escape_leading_slash)
  qed
  then show ?thesis
    by (auto simp: Target_def full_path_def split: sum.splits)
qed

lemma query_bytes_clean:
  "list_all query_byte q \<Longrightarrow> \<not> has_ctl q \<and> CHR ''#'' \<notin> set q"
  by (fastforce simp: has_ctl_def list_ex_iff list_all_iff query_byte_def)

lemma Target_parses:
  assumes "Target base path query = Inr t" and "Base base = Inr u"
    and "CHR ''['' \<notin> set (Host u)"
  shows "Parse t = Some (u\<lparr>URLPath := full_path u path, RawQuery := query\<rparr>)"
proof -
  have t: "t = printed (Host u) (full_path u path) query"
    and "Path path" "list_all query_byte query"
    using assms(1,2) by (auto simp: Target_iff)
  moreover have "Host u \<noteq> []" "Parse base = Some u"
    using assms(2) Hostname_Host by (auto simp: Base_iff)
  then have "parseHost (escape encodeHost (Host u)) = Some (Host u)"
    using Parse_Host parseHost_escape assms(3) by blast
  ultimately have "Parse t =
      Some (empty_URL\<lparr>Scheme := ''https'', Host := Host u, URLPath := full_path u path,
        RawQuery := query\<rparr>)"
    using full_path_leading [OF assms(2)] query_bytes_clean Parse_printed by blast
  also have "empty_URL\<lparr>Scheme := ''https'', Host := Host u, URLPath := full_path u path,
        RawQuery := query\<rparr> = u\<lparr>URLPath := full_path u path, RawQuery := query\<rparr>"
    by (subst (2) Base_URL [OF assms(2)]) simp
  finally show ?thesis .
qed

section \<open>Routes\<close>

lemma Slug_no_slash: "Slug s \<Longrightarrow> CHR ''/'' \<notin> set s"
  by (auto simp: Slug_def list_all_iff byte_class_defs split: list.splits)

lemma Route_iff:
  "Route r = Some (service, path) \<longleftrightarrow>
     Scheme (ReqURL r) = [] \<and> RawPath (ReqURL r) = [] \<and> Method (ReqMethod r) \<and>
     Get (ReqHeader r) ''Upgrade'' = [] \<and> Slug service \<and> Path path \<and>
     URLPath (ReqURL r) = ''/s/'' @ service @ path"
  (is "?l \<longleftrightarrow> ?r")
proof
  assume ?l
  then obtain rest where rest: "URLPath (ReqURL r) = ''/s/'' @ rest"
    by (auto simp: Route_def HasPrefix_iff split: if_splits)
  then have "TrimPrefix (URLPath (ReqURL r)) ''/s/'' = rest"
    by (simp only: TrimPrefix_append)
  with \<open>?l\<close> rest show ?r
    by (auto simp: Route_def Let_def split: if_splits)
next
  assume r: ?r
  then obtain p' where p': "path = CHR ''/'' # p'" using Path_leading by blast
  have "HasPrefix (''/s/'' @ service @ path) ''/s/''"
    "TrimPrefix (''/s/'' @ service @ path) ''/s/'' = service @ path"
    by (rule HasPrefix_append, rule TrimPrefix_append)
  with r p' show ?l
    by (simp add: Route_def Let_def Slug_no_slash takeWhile_stop dropWhile_stop del: append_Cons)
qed

end
