(* ===== verification/Base64.thy ===== *)
theory Base64
  imports Budge_Prelude
begin

text \<open>
  Go's \<open>encoding/base64\<close> as the sources use it: the standard alphabet with padding
  (\<open>StdEncoding\<close>) and without (\<open>RawStdEncoding\<close>), and the URL alphabet without padding
  (\<open>RawURLEncoding\<close>). Three bytes are written as four letters of six bits each.
\<close>

datatype alphabet = Std | URLSafe

definition letter :: "alphabet \<Rightarrow> nat \<Rightarrow> char" where
  "letter a n =
     (if n < 26 then char_of (65 + n)
      else if n < 52 then char_of (71 + n)
      else if n < 62 then char_of (n - 4)
      else if n = 62 then (if a = Std then CHR ''+'' else CHR ''-'')
      else (if a = Std then CHR ''/'' else CHR ''_''))"

fun encode_raw :: "alphabet \<Rightarrow> string \<Rightarrow> string" where
  "encode_raw a [] = []"
| "encode_raw a [x] =
     (let v = byte_of x * 16 in [letter a (v div 64), letter a (v mod 64)])"
| "encode_raw a [x, y] =
     (let v = (byte_of x * 256 + byte_of y) * 4 in
      [letter a (v div 4096), letter a (v div 64 mod 64), letter a (v mod 64)])"
| "encode_raw a (x # y # z # s) =
     (let v = (byte_of x * 256 + byte_of y) * 256 + byte_of z in
      letter a (v div 262144) # letter a (v div 4096 mod 64) # letter a (v div 64 mod 64) #
      letter a (v mod 64) # encode_raw a s)"

definition RawStdEncoding :: "string \<Rightarrow> string" where
  "RawStdEncoding s = encode_raw Std s"

definition RawURLEncoding :: "string \<Rightarrow> string" where
  "RawURLEncoding s = encode_raw URLSafe s"

definition StdEncoding :: "string \<Rightarrow> string" where
  "StdEncoding s =
     encode_raw Std s @ (case length s mod 3 of 0 \<Rightarrow> [] | Suc 0 \<Rightarrow> ''=='' | _ \<Rightarrow> ''='')"

section \<open>The encodings are injective\<close>

lemma byte_of_letter:
  assumes "n < 64"
  shows "byte_of (letter a n) = (if n < 26 then 65 + n else if n < 52 then 71 + n else if n < 62 then n - 4
    else if n = 62 then (if a = Std then 43 else 45) else (if a = Std then 47 else 95))"
  using assms by (auto simp: letter_def)

lemma letter_inject: "m < 64 \<Longrightarrow> n < 64 \<Longrightarrow> letter a m = letter a n \<longleftrightarrow> m = n"
  unfolding byte_of_inject [symmetric] byte_of_letter
  by (cases "m < 26"; cases "m < 52"; cases "m < 62"; cases "n < 26"; cases "n < 52"; cases "n < 62"; auto)

lemma sextets3: "v = 4096 * (v div 4096) + 64 * (v div 64 mod 64) + v mod 64" for v :: nat
proof -
  have "v = 64 * (v div 64) + v mod 64" "v div 64 = 64 * (v div 4096) + v div 64 mod 64"
    using mult_div_mod_eq [of 64 v] mult_div_mod_eq [of 64 "v div 64"] by (simp_all add: div_mult2_eq [symmetric])
  then show ?thesis by linarith
qed

lemma sextets4: "v = 262144 * (v div 262144) + 4096 * (v div 4096 mod 64) + 64 * (v div 64 mod 64) + v mod 64"
  for v :: nat
proof -
  have "v div 4096 = 64 * (v div 262144) + v div 4096 mod 64"
    using mult_div_mod_eq [of 64 "v div 4096"] by (simp add: div_mult2_eq [symmetric])
  with sextets3 [of v] show ?thesis by linarith
qed

lemma byte_bound: "byte_of c < 256"
  by simp

lemma sextets_inject:
  "v div 4096 = w div 4096 \<Longrightarrow> v div 64 mod 64 = w div 64 mod 64 \<Longrightarrow> v mod 64 = w mod 64 \<Longrightarrow> v = w"
  "v div 262144 = w div 262144 \<Longrightarrow> v div 4096 mod 64 = w div 4096 mod 64 \<Longrightarrow>
     v div 64 mod 64 = w div 64 mod 64 \<Longrightarrow> v mod 64 = w mod 64 \<Longrightarrow> v = w" for v w :: nat
  by (metis sextets3) (metis sextets4)

lemma bytes_inject:
  fixes x y :: nat
  assumes "x * 256 + y = x' * 256 + y'" "y < 256" "y' < 256"
  shows "x = x' \<and> y = y'"
proof -
  from assms(1) have "(x * 256 + y) div 256 = (x' * 256 + y') div 256" "(x * 256 + y) mod 256 = (x' * 256 + y') mod 256"
    by simp_all
  with assms(2,3) show ?thesis by simp
qed

lemma top_bound2:
  fixes x y :: nat
  assumes "x < 256" "y < 256"
  shows "(x * 256 + y) * 4 div 4096 < 64"
  by (rule less_mult_imp_div_less) (use assms in simp)

lemma top_bound3:
  fixes x y z :: nat
  assumes "x < 256" "y < 256" "z < 256"
  shows "((x * 256 + y) * 256 + z) div 262144 < 64"
  by (rule less_mult_imp_div_less) (use assms in simp)

lemma encode_raw_inject: "encode_raw a s = encode_raw a t \<Longrightarrow> s = t"
proof (induction a s arbitrary: t rule: encode_raw.induct)
  case (1 a)
  then show ?case by (cases "(a, t)" rule: encode_raw.cases) (simp_all add: Let_def)
next
  case (2 a x)
  then show ?case
  proof (cases "(a, t)" rule: encode_raw.cases)
    case (2 b y)
    have "byte_of x * 16 div 64 < 64" "byte_of y * 16 div 64 < 64" by (rule less_mult_imp_div_less, use byte_bound [of x] byte_bound [of y] in linarith)+
    with 2 "2.prems" have "byte_of x * 16 div 64 = byte_of y * 16 div 64" "byte_of x * 16 mod 64 = byte_of y * 16 mod 64"
      by (simp_all add: Let_def letter_inject)
    then have "byte_of x * 16 = byte_of y * 16" by (metis mult_div_mod_eq)
    with 2 show ?thesis by (simp add: byte_of_inject)
  qed (simp_all add: Let_def)
next
  case (3 a x y)
  then show ?case
  proof (cases "(a, t)" rule: encode_raw.cases)
    case (3 b x' y')
    let ?v = "(byte_of x * 256 + byte_of y) * 4" and ?w = "(byte_of x' * 256 + byte_of y') * 4"
    have "?v div 4096 < 64" "?w div 4096 < 64"
      by (simp_all only: top_bound2 byte_bound)
    with 3 "3.prems" have e: "?v div 4096 = ?w div 4096" "?v div 64 mod 64 = ?w div 64 mod 64" "?v mod 64 = ?w mod 64"
      by (simp_all add: Let_def letter_inject)
    then have "?v = ?w" by (rule sextets_inject(1))
    then have "byte_of x = byte_of x' \<and> byte_of y = byte_of y'"
      using byte_bound [of y] byte_bound [of y'] by (intro bytes_inject) simp_all
    with 3 show ?thesis by (simp add: byte_of_inject)
  qed (simp_all add: Let_def)
next
  case (4 a x y z s)
  then show ?case
  proof (cases "(a, t)" rule: encode_raw.cases)
    case (4 b x' y' z' s')
    let ?v = "(byte_of x * 256 + byte_of y) * 256 + byte_of z"
    let ?w = "(byte_of x' * 256 + byte_of y') * 256 + byte_of z'"
    have "?v div 262144 < 64" "?w div 262144 < 64"
      by (simp_all only: top_bound3 byte_bound)
    with 4 "4.prems" have e: "?v div 262144 = ?w div 262144" "?v div 4096 mod 64 = ?w div 4096 mod 64"
      "?v div 64 mod 64 = ?w div 64 mod 64" "?v mod 64 = ?w mod 64" "encode_raw a s = encode_raw a s'"
      by (simp_all add: Let_def letter_inject)
    have "?v = ?w" by (rule sextets_inject(2) [OF e(1-4)])
    from bytes_inject [OF this byte_bound byte_bound]
    have "byte_of x = byte_of x' \<and> byte_of y = byte_of y' \<and> byte_of z = byte_of z'"
      using bytes_inject [OF _ byte_bound byte_bound] by blast
    with 4 "4.IH" e(5) show ?thesis by (simp add: byte_of_inject)
  qed (simp_all add: Let_def)
qed

theorem RawURLEncoding_inject: "RawURLEncoding s = RawURLEncoding t \<longleftrightarrow> s = t"
  by (auto simp: RawURLEncoding_def dest: encode_raw_inject)

section \<open>Decoding\<close>

text \<open>
  \<open>DecodeString\<close> without padding: line breaks are skipped, any other byte outside the alphabet is an
  error, as is a single letter left over; the unused low bits of a last partial group are not
  checked (the encodings are not \<open>Strict\<close>).
\<close>

definition value_of :: "alphabet \<Rightarrow> char \<Rightarrow> nat option" where
  "value_of a c =
     (if is_upper c then Some (byte_of c - 65)
      else if is_lower c then Some (byte_of c - 71)
      else if is_digit c then Some (byte_of c + 4)
      else if c = (if a = Std then CHR ''+'' else CHR ''-'') then Some 62
      else if c = (if a = Std then CHR ''/'' else CHR ''_'') then Some 63
      else None)"

fun join_sextets :: "nat list \<Rightarrow> string option" where
  "join_sextets [] = Some []"
| "join_sextets [x] = None"
| "join_sextets [x, y] = Some [char_of ((x * 64 + y) div 16)]"
| "join_sextets [x, y, z] =
     (let v = (x * 64 + y) * 64 + z in Some [char_of (v div 1024), char_of (v div 4 mod 256)])"
| "join_sextets (x # y # z # w # s) =
     (let v = ((x * 64 + y) * 64 + z) * 64 + w in
      map_option (\<lambda>r. char_of (v div 65536) # char_of (v div 256 mod 256) # char_of (v mod 256) # r)
        (join_sextets s))"

definition decode_raw :: "alphabet \<Rightarrow> string \<Rightarrow> string option" where
  "decode_raw a s =
     (case those (map (value_of a) (filter (\<lambda>c. c \<noteq> CHR 0x0A \<and> c \<noteq> CHR 0x0D) s)) of
        None \<Rightarrow> None
      | Some vs \<Rightarrow> join_sextets vs)"

text \<open>The sextets of an encoding, so that encoding is their image under \<open>letter\<close>.\<close>

fun split_sextets :: "string \<Rightarrow> nat list" where
  "split_sextets [] = []"
| "split_sextets [x] = (let v = byte_of x * 16 in [v div 64, v mod 64])"
| "split_sextets [x, y] =
     (let v = (byte_of x * 256 + byte_of y) * 4 in [v div 4096, v div 64 mod 64, v mod 64])"
| "split_sextets (x # y # z # s) =
     (let v = (byte_of x * 256 + byte_of y) * 256 + byte_of z in
      v div 262144 # v div 4096 mod 64 # v div 64 mod 64 # v mod 64 # split_sextets s)"

lemma encode_raw_sextets: "encode_raw a s = map (letter a) (split_sextets s)"
  by (induction a s rule: encode_raw.induct) (simp_all add: Let_def)

lemma split_sextets_bound: "list_all (\<lambda>n. n < 64) (split_sextets s)"
proof (induction s rule: split_sextets.induct)
  case (2 x)
  have "byte_of x * 16 div 64 < 64"
    by (rule less_mult_imp_div_less) (use byte_bound [of x] in linarith)
  then show ?case by (simp add: Let_def)
next
  case (3 x y)
  then show ?case by (simp only: split_sextets.simps Let_def list.pred_inject top_bound2 byte_bound) simp
next
  case (4 x y z s)
  then show ?case
    by (simp only: split_sextets.simps Let_def list.pred_inject top_bound3 byte_bound) simp
qed simp

lemma byte_of_of_nat: "n < 256 \<Longrightarrow> byte_of (char_of n) = n"
  by simp

lemma value_of_letter: "n < 64 \<Longrightarrow> value_of a (letter a n) = Some n"
  unfolding value_of_def is_upper_def is_lower_def is_digit_def byte_of_letter
  by (cases a; cases "n < 26"; cases "n < 52"; cases "n < 62"; cases "n = 62") (auto simp: letter_def)

lemma join3: "((v div 4096) * 64 + v div 64 mod 64) * 64 + v mod 64 = v" for v :: nat
  using sextets3 [of v] by (simp add: algebra_simps)

lemma join4: "(((v div 262144) * 64 + v div 4096 mod 64) * 64 + v div 64 mod 64) * 64 + v mod 64 = v" for v :: nat
  using sextets4 [of v] by (simp add: algebra_simps)

lemma div_mod_char:
  fixes x :: nat
  assumes "y < m"
  shows "(x * m + y) div m = x" "(x * m + y) mod m = y"
  using assms by auto

lemma join_split_sextets: "join_sextets (split_sextets s) = Some s"
proof (induction s rule: split_sextets.induct)
  case (2 x)
  have "byte_of x * 16 div 64 * 64 + byte_of x * 16 mod 64 = byte_of x * 16" by (rule div_mult_mod_eq)
  then show ?case by (simp only: split_sextets.simps join_sextets.simps Let_def) simp
next
  case (3 x y)
  let ?v = "(byte_of x * 256 + byte_of y) * 4"
  have "?v div 1024 = byte_of x"
    using div_mod_char(1) [of "byte_of y" 256 "byte_of x"] div_mult2_eq [of ?v 4 256] byte_bound [of y] by simp
  moreover have "?v div 4 mod 256 = byte_of y"
    using div_mod_char(2) [of "byte_of y" 256 "byte_of x"] byte_bound [of y] by simp
  ultimately show ?case by (simp only: split_sextets.simps join_sextets.simps Let_def join3) simp
next
  case (4 x y z s)
  let ?h = "byte_of x * 256 + byte_of y"
  let ?v = "?h * 256 + byte_of z"
  have h: "?v div 256 = ?h" "?v mod 256 = byte_of z"
    using div_mod_char [of "byte_of z" 256 ?h] byte_bound [of z] by auto
  have "?v div 65536 = byte_of x"
    using div_mult2_eq [of ?v 256 256] h(1) div_mod_char(1) [of "byte_of y" 256 "byte_of x"] byte_bound [of y] by simp
  moreover have "?v div 256 mod 256 = byte_of y"
    using h(1) div_mod_char(2) [of "byte_of y" 256 "byte_of x"] byte_bound [of y] by simp
  ultimately show ?case
    using h(2) "4.IH" by (simp only: split_sextets.simps join_sextets.simps Let_def join4) simp
qed simp

lemma value_of_break: "value_of a CHR 0x0A = None" "value_of a CHR 0x0D = None"
  by (cases a; simp add: value_of_def byte_class_defs)+

lemma letter_no_break: "n < 64 \<Longrightarrow> letter a n \<noteq> CHR 0x0A \<and> letter a n \<noteq> CHR 0x0D"
  using value_of_letter [of n a] value_of_break [of a] by auto

lemma decode_encode_raw: "decode_raw a (encode_raw a s) = Some s"
proof -
  have b: "\<forall>n \<in> set (split_sextets s). n < 64"
    using split_sextets_bound [of s] by (simp add: list_all_iff)
  then have "filter (\<lambda>c. c \<noteq> CHR 0x0A \<and> c \<noteq> CHR 0x0D) (encode_raw a s) = encode_raw a s"
    using letter_no_break by (auto simp: encode_raw_sextets intro!: filter_True)
  moreover have "map (value_of a) (encode_raw a s) = map Some (split_sextets s)"
    using b by (simp add: encode_raw_sextets value_of_letter)
  moreover have "those (map Some xs) = Some xs" for xs :: "nat list"
    by (induction xs) simp_all
  ultimately show ?thesis
    by (simp add: decode_raw_def join_split_sextets)
qed

end
