(* ===== verification/Upstream.thy ===== *)
theory Upstream
  imports Access Base64
begin

text \<open>
  \<open>internal/upstream/http.go\<close>: which header fields cross the boundary (\<open>Reserved\<close>,
  \<open>HeaderName\<close>, \<open>HeaderValue\<close>, \<open>Headers\<close>), which addresses a service may be dialled at
  (\<open>AllowedAddress\<close> and the \<open>DialContext\<close> of \<open>Transport\<close>), the request that leaves the server
  (\<open>Send\<close>) and the copy of the response (\<open>Stream\<close>). The network is outside: resolution,
  connecting, the exchange itself and the body reads are arguments of the definitions.
\<close>

section \<open>Header fields\<close>

definition reserved_names :: "string list" where
  "reserved_names =
     [''authorization'', ''proxy-authorization'', ''cookie'', ''set-cookie'',
      ''www-authenticate'', ''proxy-authenticate'', ''host'', ''connection'', ''keep-alive'',
      ''proxy-connection'', ''te'', ''trailer'', ''transfer-encoding'', ''upgrade'',
      ''content-length'', ''forwarded'', ''via'', ''x-real-ip'', ''x-http-method-override'',
      ''x-http-method'', ''x-method-override'']"

definition reserved_prefixes :: "string list" where
  "reserved_prefixes =
     [''x-forwarded-'', ''x-budge-'', ''budge-'', ''sec-'', ''x-auth-'', ''x-remote-'',
      ''x-ssl-'', ''x-client-cert'']"

definition Reserved :: "string \<Rightarrow> bool" where
  "Reserved name =
     (let n = ToLower name in
      if n \<in> set reserved_names then True
      else list_ex (HasPrefix n) reserved_prefixes)"

definition HeaderName :: "string \<Rightarrow> bool" where
  "HeaderName n = (n \<noteq> [] \<and> list_all token_byte n)"

definition HeaderValue :: "string \<Rightarrow> bool" where
  "HeaderValue s = list_all (\<lambda>c. \<not> (byte_of c = 127 \<or> byte_of c < 32 \<and> c \<noteq> CHR 0x09)) s"

text \<open>The keys nominated by the \<open>Connection\<close> lines of the source header.\<close>

definition connection :: "header \<Rightarrow> string list" where
  "connection src =
     concat (map (\<lambda>line. map (\<lambda>n. CanonicalHeaderKey (TrimSpace n)) (Split CHR '','' line))
       (Values src ''Connection''))"

definition add_values :: "header \<Rightarrow> string \<Rightarrow> string list \<Rightarrow> header" where
  "add_values out n vs = foldl (\<lambda>h v. if HeaderValue v then Add h n v else h) out vs"

fun headers_loop :: "header \<Rightarrow> string \<Rightarrow> string list \<Rightarrow> header \<Rightarrow> string list \<Rightarrow> header" where
  "headers_loop src cred conn out [] = out"
| "headers_loop src cred conn out (name # names) =
     (let n = CanonicalHeaderKey name in
      if \<not> HeaderName n \<or> Reserved n \<or> EqualFold n cred \<or> n \<in> set conn
      then headers_loop src cred conn out names
      else headers_loop src cred conn (add_values out n (Values src n)) names)"

definition Headers :: "header \<Rightarrow> string list \<Rightarrow> string \<Rightarrow> header" where
  "Headers src allowed credentialHeader =
     headers_loop src credentialHeader (connection src) [] allowed"

section \<open>Destinations\<close>

definition blocked_prefixes :: "string list" where
  "blocked_prefixes =
     [''100.64.0.0/10'', ''192.0.0.0/24'', ''198.18.0.0/15'', ''240.0.0.0/4'',
      ''64:ff9b::/96'', ''64:ff9b:1::/48'']"

definition AllowedAddress :: "addr \<Rightarrow> string \<Rightarrow> bool" where
  "AllowedAddress a0 cidr =
     (let a = Unmap a0 in
      if \<not> IsValid a \<or> IsLoopback a \<or> IsLinkLocalUnicast a \<or> IsLinkLocalMulticast a \<or>
         IsMulticast a \<or> IsUnspecified a then False
      else if list_ex (\<lambda>raw. PrefixContains (the (ParsePrefix raw)) a) blocked_prefixes then False
      else if IsPrivate a then
        (case ParsePrefix cidr of None \<Rightarrow> False | Some p \<Rightarrow> PrefixContains p a)
      else IsGlobalUnicast a)"

text \<open>
  The dialler of \<open>Transport\<close>. \<open>lookup\<close> is the resolver's answer for the host, \<open>connect\<close> says at
  which addresses the dial succeeds. The result is the connected address or the error, and
  the list of the addresses a connection was attempted to, in order.
\<close>

fun dial_loop :: "(addr \<Rightarrow> bool) \<Rightarrow> addr list \<Rightarrow> (error + addr) \<times> addr list" where
  "dial_loop connect [] = (Inl (Err ''destination connection failed''), [])"
| "dial_loop connect (ip # ips) =
     (if connect ip then (Inr ip, [ip])
      else let (r, tried) = dial_loop connect ips in (r, ip # tried))"

definition DialContext ::
    "service \<Rightarrow> string \<Rightarrow> (string \<Rightarrow> addr list option) \<Rightarrow> (addr \<Rightarrow> bool) \<Rightarrow> (error + addr) \<times> addr list" where
  "DialContext s address lookup connect =
     (case SplitHostPort address of
        None \<Rightarrow> (Inl DriverErr, [])
      | Some (host, port) \<Rightarrow>
          (case lookup host of
             None \<Rightarrow> (Inl (Err ''destination resolution failed''), [])
           | Some ips \<Rightarrow>
               if list_ex (\<lambda>ip. \<not> AllowedAddress ip (PrivateCIDR s)) ips
               then (Inl (Err ''destination blocked''), [])
               else dial_loop connect ips))"

section \<open>Sending\<close>

record outgoing =
  out_Method :: string
  out_URL :: string
  out_Header :: header
  out_Body :: string

record response =
  StatusCode :: int
  ResHeader :: header
  ResBody :: "string \<times> bool"

text \<open>
  The body of a response is the bytes it delivers and whether it ends properly (\<open>True\<close>) or
  with a read error. What \<open>Client.Do\<close> answers is an argument: an error, with whether the
  \<open>GotConn\<close> hook had fired before it, or a response.
\<close>

datatype exchange = DoErr bool | DoOk response

datatype sent = NotSent | SendErr | Sent response

definition auth_header :: "service \<Rightarrow> string \<Rightarrow> header \<Rightarrow> header option" where
  "auth_header s credential h =
     (if Auth s = ''bearer'' then Some (Set h ''Authorization'' (''Bearer '' @ credential))
      else if Auth s = ''header'' then Some (Set h (AuthHeader s) credential)
      else if Auth s = ''basic'' then
        (case Cut CHR '':'' credential of (user, pass, ok) \<Rightarrow>
          if \<not> ok then None
          else Some (Set h ''Authorization'' (''Basic '' @ StdEncoding (user @ '':'' @ pass))))
      else if Auth s = ''none'' then Some h
      else None)"

text \<open>\<open>http.NewRequest\<close> refuses a method that is no token and a URL that does not parse.\<close>

definition new_request :: "string \<Rightarrow> string \<Rightarrow> header \<Rightarrow> string \<Rightarrow> outgoing option" where
  "new_request m target h body =
     (if (m \<noteq> [] \<and> \<not> list_all token_byte m) \<or> Parse target = None then None
      else Some \<lparr>out_Method = (if m = [] then ''GET'' else m), out_URL = target, out_Header = h,
        out_Body = body\<rparr>)"

definition build_request ::
    "service \<Rightarrow> string \<Rightarrow> string \<Rightarrow> header \<Rightarrow> string \<Rightarrow> string \<Rightarrow> outgoing option" where
  "build_request s m target h body credential =
     (case new_request m target [] body of
        None \<Rightarrow> None
      | Some r \<Rightarrow>
          (case auth_header s credential (Headers h (RequestHeaders s) (AuthHeader s)) of
             None \<Rightarrow> None
           | Some h' \<Rightarrow> Some (r\<lparr>out_Header := h'\<rparr>)))"

text \<open>
  \<open>Send\<close>: before \<open>Do\<close> the hook cannot have fired, so every error up to there is marked
  \<open>ErrNotSent\<close>. Redirects are not followed, so there is one exchange at most.
\<close>

definition Send ::
    "service \<Rightarrow> string \<Rightarrow> string \<Rightarrow> header \<Rightarrow> string \<Rightarrow> string \<Rightarrow> (outgoing \<Rightarrow> exchange) \<Rightarrow> sent" where
  "Send s m target h body credential do_exchange =
     (case build_request s m target h body credential of
        None \<Rightarrow> NotSent
      | Some r \<Rightarrow>
          (case do_exchange r of
             DoErr gotConn \<Rightarrow> if gotConn then SendErr else NotSent
           | DoOk res \<Rightarrow> Sent res))"

section \<open>Streaming the response\<close>

datatype read_end = More | EOF | ReadErr

text \<open>
  The copy loop of \<open>Stream\<close>. \<open>reads\<close> are the results of the successive \<open>Read\<close> calls, \<open>writes\<close>
  those of the \<open>Write\<close> calls: how many bytes were taken and whether the call failed. The
  result is the total, the bytes the client got and whether an error is returned; \<open>None\<close> means
  that the reads given do not yet end the loop.
\<close>

fun stream_loop :: "(string \<times> read_end) list \<Rightarrow> (nat \<times> bool) list \<Rightarrow> nat \<Rightarrow> string \<Rightarrow>
    (nat \<times> string \<times> bool) option" where
  "stream_loop [] writes n out = None"
| "stream_loop ((buf, e) # reads) writes n out =
     (if buf \<noteq> [] then
        (case writes of
           [] \<Rightarrow> None
         | (written, failed) # writes' \<Rightarrow>
             let m = n + written; out' = out @ take written buf in
             if failed then Some (m, out', True)
             else if e = EOF then Some (m, out', False)
             else if e = ReadErr then Some (m, out', True)
             else stream_loop reads writes' m out')
      else if e = EOF then Some (n, out, False)
      else if e = ReadErr then Some (n, out, True)
      else stream_loop reads writes n out)"

definition Stream :: "response \<Rightarrow> string list \<Rightarrow> (string \<times> read_end) list \<Rightarrow> (nat \<times> bool) list \<Rightarrow>
    int \<times> header \<times> (nat \<times> string \<times> bool) option" where
  "Stream res allowed reads writes =
     (StatusCode res, Headers (ResHeader res) allowed [], stream_loop reads writes 0 [])"

section \<open>What \<open>Headers\<close> lets through\<close>

lemma Values_cong: "CanonicalHeaderKey j = CanonicalHeaderKey k \<Longrightarrow> Values h j = Values h k"
  by (simp add: Values_def)

lemma Values_add_values:
  "Values (add_values out n vs) k =
     Values out k @ (if CanonicalHeaderKey k = CanonicalHeaderKey n then filter HeaderValue vs else [])"
proof (induction vs arbitrary: out)
  case Nil
  then show ?case by (simp add: add_values_def)
next
  case (Cons v vs)
  have "add_values out n (v # vs) = add_values (if HeaderValue v then Add out n v else out) n vs"
    by (simp add: add_values_def)
  then show ?case
    using Values_cong [of k n out] by (auto simp: Cons.IH)
qed

definition forwardable :: "header \<Rightarrow> string \<Rightarrow> string \<Rightarrow> bool" where
  "forwardable src cred k \<longleftrightarrow> HeaderName k \<and> \<not> Reserved k \<and> \<not> EqualFold k cred \<and>
     CanonicalHeaderKey k \<notin> set (connection src)"

lemma HeaderName_canonical [simp]: "HeaderName (CanonicalHeaderKey k) = HeaderName k"
  by (simp add: HeaderName_def)

lemma Reserved_canonical [simp]: "Reserved (CanonicalHeaderKey k) = Reserved k"
  by (simp add: Reserved_def)

lemma forwardable_cong:
  "CanonicalHeaderKey j = CanonicalHeaderKey k \<Longrightarrow> forwardable src cred j = forwardable src cred k"
  by (metis (no_types, lifting) EqualFold_CanonicalHeaderKey(1) HeaderName_canonical Reserved_canonical
      forwardable_def)

lemma Values_headers_loop:
  "Values (headers_loop src cred (connection src) out names) k =
     Values out k @ (if forwardable src cred k
       then concat (map (\<lambda>n. if CanonicalHeaderKey n = CanonicalHeaderKey k
              then filter HeaderValue (Values src k) else []) names)
       else [])"
proof (induction names arbitrary: out)
  case Nil
  then show ?case by simp
next
  case (Cons n names)
  have fw: "forwardable src cred n \<longleftrightarrow>
      \<not> (\<not> HeaderName n \<or> Reserved n \<or> EqualFold n cred \<or>
         CanonicalHeaderKey n \<in> set (connection src))"
    by (auto simp: forwardable_def)
  have vals: "CanonicalHeaderKey n = CanonicalHeaderKey k \<Longrightarrow> Values src n = Values src k"
    by (simp add: Values_def)
  show ?case
  proof (cases "forwardable src cred n")
    case True
    then have "headers_loop src cred (connection src) out (n # names) =
        headers_loop src cred (connection src)
          (add_values out (CanonicalHeaderKey n) (Values src n)) names"
      by (simp add: fw Let_def)
    then show ?thesis
      using True vals forwardable_cong [of n k src cred] by (auto simp: Cons.IH Values_add_values)
  next
    case False
    then have "headers_loop src cred (connection src) out (n # names) =
        headers_loop src cred (connection src) out names"
      by (simp add: fw Let_def)
    then show ?thesis
      using False forwardable_cong [of n k src cred] by (auto simp: Cons.IH)
  qed
qed

lemma Values_Headers:
  "Values (Headers src allowed cred) k =
     (if forwardable src cred k
      then concat (map (\<lambda>n. if CanonicalHeaderKey n = CanonicalHeaderKey k
             then filter HeaderValue (Values src k) else []) allowed)
      else [])"
  by (simp add: Headers_def Values_headers_loop)

lemma Values_Headers_in:
  "v \<in> set (Values (Headers src allowed cred) k) \<longleftrightarrow>
     forwardable src cred k \<and> (\<exists>n \<in> set allowed. CanonicalHeaderKey n = CanonicalHeaderKey k) \<and>
     v \<in> set (Values src k) \<and> HeaderValue v"
  by (auto simp: Values_Headers split: if_splits)

lemma Reserved_Authorization [simp]: "Reserved ''Authorization''"
  by code_simp

lemma Headers_reserved [simp]: "Reserved k \<Longrightarrow> Values (Headers src allowed cred) k = []"
  by (simp add: Values_Headers forwardable_def)

lemma Headers_credential: "EqualFold k cred \<Longrightarrow> Values (Headers src allowed cred) k = []"
  by (simp add: Values_Headers forwardable_def)

section \<open>The request that leaves the server\<close>

lemma build_request_iff:
  "build_request s m target h body cred = Some r \<longleftrightarrow>
     (m = [] \<or> list_all token_byte m) \<and> Parse target \<noteq> None \<and>
     (\<exists>h'. auth_header s cred (Headers h (RequestHeaders s) (AuthHeader s)) = Some h' \<and>
       r = \<lparr>out_Method = (if m = [] then ''GET'' else m), out_URL = target, out_Header = h',
            out_Body = body\<rparr>)"
  by (auto simp: build_request_def new_request_def split: option.splits if_splits)

definition injected :: "service \<Rightarrow> string \<Rightarrow> string \<Rightarrow> string list" where
  "injected s cred k =
     (if Auth s = ''bearer'' \<and> CanonicalHeaderKey k = ''Authorization'' then [''Bearer '' @ cred]
      else if Auth s = ''basic'' \<and> CanonicalHeaderKey k = ''Authorization''
        then [''Basic '' @ StdEncoding cred]
      else if Auth s = ''header'' \<and> CanonicalHeaderKey k = CanonicalHeaderKey (AuthHeader s)
        then [cred]
      else [])"

lemma canonical_Authorization [simp]: "CanonicalHeaderKey ''Authorization'' = ''Authorization''"
  by code_simp

lemma Cut_Some_concat:
  assumes "Cut c s = (a, b, True)"
  shows "s = a @ [c] @ b"
proof -
  have "c \<in> set s" using assms by (simp add: Cut_def)
  then obtain x y where "s = x @ c # y" "c \<notin> set x"
    using split_list_first by metis
  with assms show ?thesis by (simp add: Cut_found)
qed

lemma auth_header_cases:
  assumes "auth_header s cred h = Some h'"
  obtains (bearer) "Auth s = ''bearer''" "h' = Set h ''Authorization'' (''Bearer '' @ cred)"
  | (header) "Auth s = ''header''" "h' = Set h (AuthHeader s) cred"
  | (basic) "Auth s = ''basic''" "h' = Set h ''Authorization'' (''Basic '' @ StdEncoding cred)"
  | (none) "Auth s = ''none''" "h' = h"
proof -
  have "Auth s = ''bearer'' \<or> Auth s = ''header'' \<or> Auth s = ''basic'' \<or> Auth s = ''none''"
    using assms by (auto simp: auth_header_def split: if_splits)
  then show ?thesis
  proof (elim disjE)
    assume b: "Auth s = ''basic''"
    obtain u p ok where cut: "Cut CHR '':'' cred = (u, p, ok)" by (metis prod_cases3)
    with assms b have "ok" "h' = Set h ''Authorization'' (''Basic '' @ StdEncoding (u @ '':'' @ p))"
      by (auto simp: auth_header_def split: if_splits)
    with cut Cut_Some_concat [of "CHR '':''" cred u p] b show ?thesis by (intro basic) auto
  qed (use assms in \<open>auto simp: auth_header_def intro: bearer header none\<close>)
qed

lemma Values_auth_header:
  assumes "auth_header s cred h = Some h'"
  shows "Values h' k = (if injected s cred k \<noteq> [] then injected s cred k else Values h k)"
  using assms by (cases rule: auth_header_cases) (auto simp: injected_def)

section \<open>Address ranges\<close>

definition between4 :: "32 word \<Rightarrow> nat \<Rightarrow> nat \<Rightarrow> bool" where
  "between4 w lo hi \<longleftrightarrow> lo \<le> unat w \<and> unat w \<le> hi"

lemma drop_bit_word_eq:
  fixes w :: "32 word"
  shows "drop_bit n w = k \<longleftrightarrow> unat w div 2 ^ n = unat k"
proof -
  have "unat (drop_bit n w) = unat w div 2 ^ n"
    by (subst unat_drop_bit_eq) (rule drop_bit_eq_div)
  then show ?thesis by (metis word_unat_eq_iff)
qed

lemma drop_bit_xor_zero:
  fixes w p :: "32 word"
  shows "drop_bit n (w XOR p) = 0 \<longleftrightarrow> drop_bit n w = drop_bit n p"
proof -
  have "a XOR b = 0 \<longleftrightarrow> a = b" for a b :: "32 word"
    by (auto simp: bit_eq_iff bit_xor_iff)
  then show ?thesis by (simp add: drop_bit_xor)
qed

lemma parsed_blocked:
  "the (ParsePrefix ''100.64.0.0/10'') = PrefixFrom (V4 0x64400000) 10"
  "the (ParsePrefix ''192.0.0.0/24'') = PrefixFrom (V4 0xC0000000) 24"
  "the (ParsePrefix ''198.18.0.0/15'') = PrefixFrom (V4 0xC6120000) 15"
  "the (ParsePrefix ''240.0.0.0/4'') = PrefixFrom (V4 0xF0000000) 4"
  "the (ParsePrefix ''64:ff9b::/96'') = PrefixFrom (V6 0x64ff9b000000000000000000000000 []) 96"
  "the (ParsePrefix ''64:ff9b:1::/48'') = PrefixFrom (V6 0x64ff9b000100000000000000000000 []) 48"
  by code_simp+

text \<open>
  The IPv4 ranges that are never dialled, as intervals of 32-bit numbers: 0.0.0.0,
  100.64.0.0/10, 127.0.0.0/8, 169.254.0.0/16, 192.0.0.0/24, 198.18.0.0/15 and everything from
  224.0.0.0 on; and the private ranges 10.0.0.0/8, 172.16.0.0/12 and 192.168.0.0/16.
\<close>

definition never4 :: "32 word \<Rightarrow> bool" where
  "never4 w \<longleftrightarrow> unat w = 0 \<or> between4 w 0x64400000 0x647FFFFF \<or> between4 w 0x7F000000 0x7FFFFFFF \<or>
     between4 w 0xA9FE0000 0xA9FEFFFF \<or> between4 w 0xC0000000 0xC00000FF \<or>
     between4 w 0xC6120000 0xC613FFFF \<or> between4 w 0xE0000000 0xFFFFFFFF"

definition private4 :: "32 word \<Rightarrow> bool" where
  "private4 w \<longleftrightarrow> between4 w 0x0A000000 0x0AFFFFFF \<or> between4 w 0xAC100000 0xAC1FFFFF \<or>
     between4 w 0xC0A80000 0xC0A8FFFF"

lemma unat_less_32: "unat (w :: 32 word) < 4294967296"
  using unsigned_less [of w] by simp

lemma range_4:
  fixes w :: "32 word"
  shows "drop_bit 24 w = 127 \<longleftrightarrow> between4 w 0x7F000000 0x7FFFFFFF"
    "drop_bit 24 w = 10 \<longleftrightarrow> between4 w 0x0A000000 0x0AFFFFFF"
    "drop_bit 20 w = 0xac1 \<longleftrightarrow> between4 w 0xAC100000 0xAC1FFFFF"
    "drop_bit 16 w = 0xc0a8 \<longleftrightarrow> between4 w 0xC0A80000 0xC0A8FFFF"
    "drop_bit 16 w = 0xa9fe \<longleftrightarrow> between4 w 0xA9FE0000 0xA9FEFFFF"
    "drop_bit 8 w = 0xe00000 \<longleftrightarrow> between4 w 0xE0000000 0xE00000FF"
    "drop_bit 28 w = 0xe \<longleftrightarrow> between4 w 0xE0000000 0xEFFFFFFF"
    "drop_bit 22 (w XOR 0x64400000) = 0 \<longleftrightarrow> between4 w 0x64400000 0x647FFFFF"
    "drop_bit 8 (w XOR 0xC0000000) = 0 \<longleftrightarrow> between4 w 0xC0000000 0xC00000FF"
    "drop_bit 17 (w XOR 0xC6120000) = 0 \<longleftrightarrow> between4 w 0xC6120000 0xC613FFFF"
    "drop_bit 28 (w XOR 0xF0000000) = 0 \<longleftrightarrow> between4 w 0xF0000000 0xFFFFFFFF"
  unfolding drop_bit_xor_zero between4_def
  by (simp_all add: drop_bit_word_eq) (use unat_less_32 [of w] in arith)+

lemma all_ones_4: "w = 0xffffffff \<longleftrightarrow> between4 w 0xffffffff 0xffffffff" for w :: "32 word"
  using unat_less_32 [of w] by (auto simp: between4_def word_unat_eq_iff)

lemma zero_4: "w = 0 \<longleftrightarrow> unat w = 0" for w :: "32 word"
  by (simp add: unat_eq_0)

lemma blocked_V4:
  "list_ex (\<lambda>raw. PrefixContains (the (ParsePrefix raw)) (V4 w)) blocked_prefixes \<longleftrightarrow>
     between4 w 0x64400000 0x647FFFFF \<or> between4 w 0xC0000000 0xC00000FF \<or>
     between4 w 0xC6120000 0xC613FFFF \<or> between4 w 0xF0000000 0xFFFFFFFF"
proof -
  have bits: "(32::nat) - 10 = 22" "(32::nat) - 24 = 8" "(32::nat) - 15 = 17" "(32::nat) - 4 = 28"
    by simp_all
  show ?thesis
    by (simp only: blocked_prefixes_def list_ex_iff list.set bex_simps ex_simps parsed_blocked PrefixContains.simps bits
        range_4 simp_thms)
qed

lemmas address_class_defs = IsLoopback_def IsLinkLocalUnicast_def IsLinkLocalMulticast_def
  IsMulticast_def IsUnspecified_def IsPrivate_def IsGlobalUnicast_def IsValid_def

lemma AllowedAddress_V4:
  "AllowedAddress (V4 w) cidr \<longleftrightarrow>
     \<not> never4 w \<and> (private4 w \<longrightarrow> (\<exists>p. ParsePrefix cidr = Some p \<and> PrefixContains p (V4 w)))"
proof -
  have multi: "between4 w 0xE0000000 0xFFFFFFFF \<longleftrightarrow>
      between4 w 0xE0000000 0xEFFFFFFF \<or> between4 w 0xF0000000 0xFFFFFFFF"
    and ones: "between4 w 0xffffffff 0xffffffff \<Longrightarrow> between4 w 0xF0000000 0xFFFFFFFF"
    and llm: "between4 w 0xE0000000 0xE00000FF \<Longrightarrow> between4 w 0xE0000000 0xEFFFFFFF"
    by (auto simp: between4_def)
  have cidr: "(case ParsePrefix cidr of None \<Rightarrow> False | Some p \<Rightarrow> PrefixContains p (V4 w)) \<longleftrightarrow>
      (\<exists>p. ParsePrefix cidr = Some p \<and> PrefixContains p (V4 w))"
    by (auto split: option.splits)
  show ?thesis
    using ones llm
    by (simp add: AllowedAddress_def Let_def address_class_defs blocked_V4 range_4 all_ones_4 zero_4
        never4_def private4_def multi cidr) blast
qed

lemma AllowedAddress_Unmap: "AllowedAddress (Unmap a) cidr = AllowedAddress a cidr"
  by (cases a) (simp_all add: AllowedAddress_def)

section \<open>Dialling\<close>

lemma dial_loop_eq:
  "dial_loop connect ips =
     (case find connect ips of
        None \<Rightarrow> (Inl (Err ''destination connection failed''), ips)
      | Some ip \<Rightarrow> (Inr ip, takeWhile (\<lambda>a. \<not> connect a) ips @ [ip]))"
  by (induction ips) (auto split: option.splits)

lemma dial_loop_tried: "set (snd (dial_loop connect ips)) \<subseteq> set ips"
  by (induction ips) (auto split: prod.splits)

lemma DialContext_tried:
  assumes "ip \<in> set (snd (DialContext s address lookup connect))"
  obtains host port ips where "SplitHostPort address = Some (host, port)" "lookup host = Some ips"
    "ip \<in> set ips" "\<forall>a \<in> set ips. AllowedAddress a (PrivateCIDR s)"
  using assms dial_loop_tried
  by (fastforce simp: DialContext_def list_ex_iff split: option.splits if_splits prod.splits)

lemma DialContext_connected:
  assumes "fst (DialContext s address lookup connect) = Inr ip"
  shows "ip \<in> set (snd (DialContext s address lookup connect)) \<and> connect ip"
  using assms
  by (auto simp: DialContext_def dial_loop_eq dest: find_Some_in
      split: option.splits if_splits prod.splits)

section \<open>Streaming\<close>

text \<open>A reader that ends properly and a writer that takes every chunk whole.\<close>

lemma stream_loop_complete:
  assumes "\<forall>(buf, e) \<in> set reads. e = More" and "length writes = length (filter (\<lambda>(b, e). b \<noteq> []) reads)"
    and "writes = map (\<lambda>(b, e). (length b, False)) (filter (\<lambda>(b, e). b \<noteq> []) reads)"
  shows "stream_loop (reads @ [([], EOF)]) writes n out =
    Some (n + length (concat (map fst reads)), out @ concat (map fst reads), False)"
  using assms
proof (induction reads arbitrary: writes n out)
  case (Cons r reads)
  then show ?case
    by (cases r) (auto simp: Let_def)
qed simp

end
