(* ===== verification/Boundary.thy ===== *)
theory Boundary
  imports Upstream
begin

text \<open>
  What \<open>internal/access\<close> and \<open>internal/upstream\<close> guarantee at the boundary of the server: which
  paths, methods and permissions are accepted and how they relate, where an authorized request
  goes, what it carries, and which addresses it may reach.
\<close>

section \<open>Permissions\<close>

text \<open>C38. Two permissions overlap exactly when some request is covered by both: the overlap test
  of the owner's form is neither too weak nor too strong.\<close>

theorem overlap_exact: "Overlap a b \<longleftrightarrow> (\<exists>m path. Match a m path \<and> Match b m path)"
  by (rule Overlap_iff)

text \<open>The path grammar: a path is accepted exactly when it is a slash-separated list of segments
  of allowed bytes, none of them \<open>.\<close> or \<open>..\<close>, and none but the last empty.\<close>

lemma path_grammar:
  "Path p \<longleftrightarrow>
     (\<exists>segs. segs \<noteq> [] \<and> [] \<notin> set (butlast segs) \<and> p = CHR ''/'' # Join ''/'' segs \<and>
        list_all (\<lambda>s. s \<noteq> ''.'' \<and> s \<noteq> ''..'' \<and> CHR ''/'' \<notin> set s \<and> list_all path_byte s) segs)"
proof -
  have "good_segments segs \<and> p = slashed segs \<longleftrightarrow>
      segs \<noteq> [] \<and> [] \<notin> set (butlast segs) \<and> p = CHR ''/'' # Join ''/'' segs \<and>
        list_all (\<lambda>s. s \<noteq> ''.'' \<and> s \<noteq> ''..'' \<and> CHR ''/'' \<notin> set s \<and> list_all path_byte s) segs" for segs
    by (cases "segs = []") (auto simp: good_segments_def slashed_Join list_all_iff)
  then show ?thesis unfolding Path_iff_segments by simp
qed

text \<open>A permission covers its methods at its own path and, when it is a subtree, at the paths
  that extend the segments of its path: \<open>/a\<close> covers \<open>/a/b\<close> and never \<open>/ab\<close>.\<close>

lemma match_segments:
  "Match p m path \<longleftrightarrow>
     m \<in> set (Split CHR '','' (PMethod p)) \<and>
     (path = PPath p \<or> Kind p = subtree \<and>
       (\<exists>rest. rest \<noteq> [] \<and>
          Split CHR ''/'' path = Split CHR ''/'' (TrimSuffix (PPath p) ''/'') @ rest))"
  by (simp add: Match_def HasMethod_iff HasPrefix_sep_iff)

lemma FieldsFunc_skip: "list_all (\<lambda>c. \<not> f c) x \<Longrightarrow> x \<noteq> [] \<Longrightarrow> f s \<Longrightarrow>
    FieldsFunc f (x @ s # r) = x # FieldsFunc f r"
  by (cases x) (auto simp: list_all_iff takeWhile_stop dropWhile_stop takeWhile_append dropWhile_append)

lemma FieldsFunc_single: "list_all (\<lambda>c. \<not> f c) x \<Longrightarrow> x \<noteq> [] \<Longrightarrow> FieldsFunc f x = [x]"
  by (cases x) (auto simp: list_all_iff takeWhile_eq_all_conv [THEN iffD2] dropWhile_eq_Nil_conv [THEN iffD2])

lemma FieldsFunc_Join:
  assumes "f s" and "\<forall>x \<in> set xs. x \<noteq> [] \<and> list_all (\<lambda>c. \<not> f c) x"
  shows "FieldsFunc f (Join [s] xs) = xs"
  using assms(2)
  by (induction "[s]" xs rule: Join.induct) (auto simp: FieldsFunc_skip FieldsFunc_single assms(1))

text \<open>\<open>Methods\<close> computes a normal form: its result is accepted again unchanged, it names
  exactly the methods of the input, in sorted order and without duplicates.\<close>

lemma methods_normal_form:
  assumes "Methods raw = Inr ms"
  shows "Methods ms = Inr ms \<and> sorted (Split CHR '','' ms) \<and> distinct (Split CHR '','' ms) \<and>
    (HasMethod ms m \<longleftrightarrow> m \<in> set (FieldsFunc (\<lambda>c. c = CHR '','' \<or> c = CHR '' '') raw)) \<and>
    list_all Method (Split CHR '','' ms)"
proof (intro conjI)
  let ?f = "\<lambda>c. c = CHR '','' \<or> c = CHR '' ''"
  let ?fs = "FieldsFunc ?f raw"
  note split = Methods_Split [OF assms]
  from assms have fs: "?fs \<noteq> []" "distinct ?fs" "\<forall>m \<in> set ?fs. Method m" "ms = Join '','' (sort ?fs)"
    by (auto simp: Methods_iff Let_def)
  have "FieldsFunc ?f ms = sort ?fs"
    unfolding fs(4)
    by (rule FieldsFunc_Join) (auto simp: list_all_iff dest: FieldsFunc_bytes FieldsFunc_not_Nil)
  then show "Methods ms = Inr ms"
    unfolding Methods_iff Let_def
    using fs(1-4) by (simp add: set_empty [symmetric] sorted_sort_id del: set_empty)
  show "sorted (Split CHR '','' ms)" "distinct (Split CHR '','' ms)"
    by (simp_all add: split fs(2))
  show "HasMethod ms m \<longleftrightarrow> m \<in> set ?fs" by (simp add: HasMethod_iff split)
  show "list_all Method (Split CHR '','' ms)" using fs(3) by (simp add: split list_all_iff)
qed

theorem methods_normal_form_witness:
  "Methods ''GET,DELETE'' = Inr ''DELETE,GET'' \<and> sorted (Split CHR '','' ''DELETE,GET'') \<and>
     Methods ''DELETE,GET'' = Inr ''DELETE,GET''"
proof -
  have m: "Methods ''GET,DELETE'' = Inr ''DELETE,GET''" by code_simp
  show ?thesis using m methods_normal_form [OF m] by blast
qed

section \<open>Targets and routes\<close>

text \<open>The target of a request is decided by the service: whatever path and query a device
  sends, the URL is the fixed \<open>https\<close> origin of the service, its base path and the escaped path,
  and the query, which can hold neither spaces, control bytes nor a fragment.\<close>

lemma target_fixed:
  "Target base path query = Inr t \<longleftrightarrow>
     (\<exists>u. Base base = Inr u \<and> Path path \<and> list_all query_byte query \<and>
        t = ''https:'' @ ''//'' @ escape encodeHost (Host u) @
          escape encodePath (TrimSuffix (URLPath u) ''/'' @ path) @
          (if query \<noteq> [] then ''?'' @ query else []))"
  by (simp add: Target_iff printed_def full_path_def)

text \<open>Reading a target back as a URL gives the host of the service, the joined path and the
  query: nothing of the path or query is taken for another part.\<close>

lemma target_reparsed:
  assumes "Target base path query = Inr t" and "Base base = Inr u" and "CHR ''['' \<notin> set (Host u)"
  shows "Parse t = Some (u\<lparr>URLPath := TrimSuffix (URLPath u) ''/'' @ path, RawQuery := query\<rparr>)"
  using Target_parses [OF assms] by (simp add: full_path_def)

theorem target_reparsed_witness:
  "Parse ''https://api.example.com/v1/a?q=1'' =
     Some (the (Parse ''https://api.example.com/v1'')
       \<lparr>URLPath := ''/v1/a'', RawQuery := ''q=1''\<rparr>)"
proof -
  let ?u = "the (Parse ''https://api.example.com/v1'')"
  have t: "Target ''https://api.example.com/v1'' ''/a'' ''q=1'' = Inr ''https://api.example.com/v1/a?q=1''"
    by code_simp
  have b: "Base ''https://api.example.com/v1'' = Inr ?u" by code_simp
  have h: "CHR ''['' \<notin> set (Host ?u)" by code_simp
  have p: "TrimSuffix (URLPath ?u) ''/'' @ ''/a'' = ''/v1/a''" by code_simp
  show ?thesis using target_reparsed [OF t b h] unfolding p by simp
qed

text \<open>
  The bytes \<open>!'()*\<close> of a path are escaped on the way out: the URL spells them in a way that
  \<open>Path\<close> itself does not accept.
\<close>

lemma target_escapes:
  "Path ''/a!b'' \<and> Target ''https://crm.example.com'' ''/a!b'' [] = Inr ''https://crm.example.com/a%21b'' \<and>
   \<not> Path ''/a%21b''"
  by code_simp

text \<open>A direct request is routed exactly when its URL is not absolute, its path is
  \<open>/s/{service}\<close> followed by an accepted path with no escapes, its method is a usable token and no
  protocol upgrade is asked for; the service and the path are then determined.\<close>

lemma route_exact:
  "Route r = Some (service, path) \<longleftrightarrow>
     Scheme (ReqURL r) = [] \<and> RawPath (ReqURL r) = [] \<and> Method (ReqMethod r) \<and>
     Get (ReqHeader r) ''Upgrade'' = [] \<and> Slug service \<and> Path path \<and>
     URLPath (ReqURL r) = ''/s/'' @ service @ path"
  by (rule Route_iff)

section \<open>Headers\<close>

text \<open>A header crosses the boundary only by the allow list: the values of a field are those of
  the source that are clean, once per mention in the list, and none if the name is reserved, is
  the credential header or is nominated by \<open>Connection\<close>.\<close>

lemma headers_exact:
  "Values (Headers src allowed cred) k =
     (if HeaderName k \<and> \<not> Reserved k \<and> \<not> EqualFold k cred \<and>
         CanonicalHeaderKey k \<notin> set (connection src)
      then concat (map (\<lambda>n. if CanonicalHeaderKey n = CanonicalHeaderKey k
             then filter HeaderValue (Values src k) else []) allowed)
      else [])"
  by (simp add: Values_Headers forwardable_def)

lemma request_values:
  assumes "build_request s m target h body cred = Some r"
  shows "Values (out_Header r) k =
    (if injected s cred k \<noteq> [] then injected s cred k
     else Values (Headers h (RequestHeaders s) (AuthHeader s)) k)"
proof -
  from assms have "auth_header s cred (Headers h (RequestHeaders s) (AuthHeader s)) = Some (out_Header r)"
    by (auto simp: build_request_iff)
  then show ?thesis by (rule Values_auth_header)
qed

text \<open>C39. What leaves the server carries the credential of the service and nothing of the
  device's own: the injected field has exactly the injected value, every other reserved field is
  absent, and the rest is what the allow list forwards.\<close>

theorem outgoing_headers:
  assumes "build_request s m target h body cred = Some r"
  shows "Values (out_Header r) k =
      (if injected s cred k \<noteq> [] then injected s cred k
       else if Reserved k then []
       else Values (Headers h (RequestHeaders s) (AuthHeader s)) k) \<and>
    out_URL r = target \<and> out_Body r = body"
  using assms request_values [OF assms, of k] by (auto simp: build_request_iff)

definition sample_service :: service where
  "sample_service = \<lparr>svc_ID = ''crm'', Label = ''CRM'', BaseURL = ''https://crm.example.com'',
     Auth = ''bearer'', AuthHeader = [], PrivateCIDR = [], svc_Revision = 1, Credential = [],
     RequestHeaders = [''Accept'', ''Content-Type''], ResponseHeaders = [''Content-Type'']\<rparr>"

theorem outgoing_headers_witness:
  "\<exists>r. build_request sample_service ''GET'' ''https://crm.example.com/a''
       [(''Authorization'', [''Bearer device'']), (''Cookie'', [''c=1'']), (''Accept'', [''text/plain''])]
       [] ''t0ken'' = Some r \<and>
     Values (out_Header r) ''Authorization'' = [''Bearer t0ken''] \<and> Values (out_Header r) ''Cookie'' = []"
proof -
  let ?h = "[(''Authorization'', [''Bearer device'']), (''Cookie'', [''c=1'']), (''Accept'', [''text/plain''])]"
  have "Parse ''https://crm.example.com/a'' \<noteq> None" "list_all token_byte ''GET''" by code_simp+
  moreover have "auth_header sample_service ''t0ken'' h \<noteq> None" for h
    by (simp add: auth_header_def sample_service_def)
  ultimately obtain r where
    r: "build_request sample_service ''GET'' ''https://crm.example.com/a'' ?h [] ''t0ken'' = Some r"
    unfolding build_request_iff by blast
  have inj: "injected sample_service ''t0ken'' ''Authorization'' = [''Bearer t0ken'']"
    "injected sample_service ''t0ken'' ''Cookie'' = []" "Reserved ''Cookie''" "Reserved ''Authorization''"
    by code_simp+
  show ?thesis
    using r inj outgoing_headers [OF r, of "''Authorization''"] outgoing_headers [OF r, of "''Cookie''"]
    by auto
qed

section \<open>Addresses\<close>

text \<open>The IPv4 addresses (also when written as IPv4-mapped IPv6) that may be dialled.\<close>

lemma allowed_ipv4:
  "Unmap a = V4 w \<Longrightarrow>
     AllowedAddress a cidr \<longleftrightarrow>
       \<not> never4 w \<and> (\<not> private4 w \<or> (\<exists>p. ParsePrefix cidr = Some p \<and> PrefixContains p (V4 w)))"
  using AllowedAddress_V4 [of w cidr] AllowedAddress_Unmap [of a cidr] by auto

text \<open>C40. Every address a connection is attempted to is an address of the resolved host, and is
  allowed; if any resolved address is not, none is tried. An IPv4 address (also when written as
  IPv4-mapped IPv6) that is tried lies in none of the unspecified, shared, loopback, link-local,
  protocol, benchmarking, multicast and reserved ranges, and a private one is tried only inside the
  private range configured for the service.\<close>

theorem dial_only_allowed:
  assumes "ip \<in> set (snd (DialContext s address lookup connect))"
  shows "AllowedAddress ip (PrivateCIDR s) \<and>
    (\<exists>host port ips. SplitHostPort address = Some (host, port) \<and> lookup host = Some ips \<and>
      ip \<in> set ips \<and> list_all (\<lambda>a. AllowedAddress a (PrivateCIDR s)) ips) \<and>
    (\<forall>w. Unmap ip = V4 w \<longrightarrow>
      \<not> never4 w \<and> (private4 w \<longrightarrow> (\<exists>p. ParsePrefix (PrivateCIDR s) = Some p \<and> PrefixContains p (V4 w))))"
proof -
  from assms obtain host port ips where "SplitHostPort address = Some (host, port)"
    "lookup host = Some ips" "ip \<in> set ips" "\<forall>a \<in> set ips. AllowedAddress a (PrivateCIDR s)"
    by (rule DialContext_tried)
  then show ?thesis using allowed_ipv4 [of ip _ "PrivateCIDR s"] by (auto simp: list_all_iff)
qed

theorem dial_only_allowed_witness:
  "AllowedAddress (V4 0x5DB8D822) (PrivateCIDR sample_service) \<and> \<not> never4 0x5DB8D822"
proof -
  have "V4 0x5DB8D822 \<in> set (snd (DialContext sample_service ''crm.example.com:443''
      (\<lambda>_. Some [V4 0x5DB8D822]) (\<lambda>_. True)))" by code_simp
  from dial_only_allowed [OF this] show ?thesis by simp
qed

section \<open>Responses\<close>

text \<open>A response whose reads end properly and whose writes all succeed is delivered whole and
  counted whole.\<close>

lemma stream_complete:
  assumes "list_all (\<lambda>(buf, e). e = More) reads"
    and "writes = map (\<lambda>(b, e). (length b, False)) (filter (\<lambda>(b, e). b \<noteq> []) reads)"
  shows "Stream res allowed (reads @ [([], EOF)]) writes =
    (StatusCode res, Headers (ResHeader res) allowed [],
     Some (length (concat (map fst reads)), concat (map fst reads), False))"
  using stream_loop_complete [of reads writes 0 "[]"] assms
  by (simp add: Stream_def list_all_iff)

end
