(* ===== verification/Limiter.thy ===== *)
theory Limiter
  imports Budge_Prelude
begin

text \<open>
  The in-memory limits of \<open>internal/server/server.go\<close>: \<open>throttle\<close>, a sliding window of one
  minute per key, and \<open>acquire\<close> and \<open>release\<close>, the slots for concurrent upstream requests, 32 in
  all and 4 per device. Both run under the server's mutex, so each call is one step. Times of
  the throttle are nanoseconds.
\<close>

section \<open>Slots\<close>

text \<open>
  Reading a missing key of the Go map gives 0, and \<open>release\<close> deletes an entry that reaches 0,
  so the map is the function that gives the count.
\<close>

record slots =
  global :: int
  active :: "string \<Rightarrow> int"

definition no_slots :: slots where
  "no_slots = \<lparr>global = 0, active = (\<lambda>_. 0)\<rparr>"

definition acquire :: "string \<Rightarrow> slots \<Rightarrow> bool \<times> slots" where
  "acquire device s =
     (if 32 \<le> global s \<or> 4 \<le> active s device then (False, s)
      else (True, s\<lparr>global := global s + 1, active := (active s)(device := active s device + 1)\<rparr>))"

definition release :: "string \<Rightarrow> slots \<Rightarrow> slots" where
  "release device s =
     s\<lparr>global := global s - 1, active := (active s)(device := active s device - 1)\<rparr>"

section \<open>Throttling\<close>

definition window :: int where
  "window = 60 * 1000000000"

type_synonym throttles = "string \<Rightarrow> int list"

definition throttle :: "string \<Rightarrow> nat \<Rightarrow> int \<Rightarrow> throttles \<Rightarrow> bool \<times> throttles" where
  "throttle key limit now th =
     (let lv = filter (\<lambda>t. now - t < window) (th key) in
      if limit \<le> length lv then (False, th)
      else (True, th(key := lv @ [now])))"

end
