(* ===== verification/Limits.thy ===== *)
theory Limits
  imports Limiter "HOL-Library.Multiset"
begin

text \<open>
  What the limits of \<open>Limiter\<close> guarantee: the counters of the slot pool are a refinement of the
  multiset of the holders, and the sliding window admits at most its limit in any minute.
\<close>

section \<open>A pool of slots\<close>

text \<open>
  The interface of a pool: its users (the handlers of direct requests and the worker) acquire a
  slot for a key and release only what they hold. \<open>holds\<close> relates a state of the pool to the
  multiset of the holders, \<open>fits\<close> says when one more holder is admitted.
\<close>

datatype slot_op = Acquire string | Release string

locale pool =
  fixes empty :: 's
    and take_slot :: "string \<Rightarrow> 's \<Rightarrow> bool \<times> 's"
    and give_back :: "string \<Rightarrow> 's \<Rightarrow> 's"
    and holds :: "'s \<Rightarrow> string multiset \<Rightarrow> bool"
    and fits :: "string multiset \<Rightarrow> string \<Rightarrow> bool"
    and bounded :: "string multiset \<Rightarrow> bool"
  assumes holds_empty: "holds empty {#}"
    and holds_take: "holds s h \<Longrightarrow> take_slot k s = (ok, s') \<Longrightarrow>
      ok = fits h k \<and> holds s' (if ok then add_mset k h else h)"
    and holds_give: "holds s h \<Longrightarrow> k \<in># h \<Longrightarrow> holds (give_back k s) (h - {#k#})"
    and bounded_empty: "bounded {#}"
    and bounded_add: "bounded h \<Longrightarrow> fits h k \<Longrightarrow> bounded (add_mset k h)"
    and bounded_diff: "bounded h \<Longrightarrow> bounded (h - {#k#})"
begin

fun use :: "slot_op \<Rightarrow> 's \<times> string multiset \<Rightarrow> 's \<times> string multiset" where
  "use (Acquire k) (s, h) = (case take_slot k s of (ok, s') \<Rightarrow> (s', if ok then add_mset k h else h))"
| "use (Release k) (s, h) = (if k \<in># h then (give_back k s, h - {#k#}) else (s, h))"

lemma use_holds: "holds s h \<Longrightarrow> bounded h \<Longrightarrow> use x (s, h) = (s', h') \<Longrightarrow> holds s' h' \<and> bounded h'"
  by (cases x) (auto split: prod.splits if_splits dest: holds_take intro: holds_give bounded_add bounded_diff)

lemma run_holds: "holds s h \<Longrightarrow> bounded h \<Longrightarrow> fold use xs (s, h) = (s', h') \<Longrightarrow> holds s' h' \<and> bounded h'"
proof (induction xs arbitrary: s h)
  case (Cons x xs)
  obtain s1 h1 where "use x (s, h) = (s1, h1)" by (metis prod.exhaust)
  with use_holds [OF Cons.prems(1,2) this] Cons.IH [of s1 h1] Cons.prems(3) show ?case by simp
qed simp

lemma from_empty: "fold use xs (empty, {#}) = (s', h') \<Longrightarrow> holds s' h' \<and> bounded h'"
  by (rule run_holds [OF holds_empty bounded_empty])

end

definition slots_hold :: "slots \<Rightarrow> string multiset \<Rightarrow> bool" where
  "slots_hold s h \<longleftrightarrow> global s = int (size h) \<and> (\<forall>d. active s d = int (count h d))"

interpretation slots: pool no_slots acquire release slots_hold
    "\<lambda>h d. size h < 32 \<and> count h d < 4" "\<lambda>h. size h \<le> 32 \<and> (\<forall>d. count h d \<le> 4)"
proof
  show "slots_hold no_slots {#}" by (simp add: slots_hold_def no_slots_def)
  show "slots_hold s h \<Longrightarrow> acquire k s = (ok, s') \<Longrightarrow>
      ok = (size h < 32 \<and> count h k < 4) \<and> slots_hold s' (if ok then add_mset k h else h)" for s h k ok s'
    by (auto simp: slots_hold_def acquire_def split: if_splits)
  show "slots_hold s h \<Longrightarrow> k \<in># h \<Longrightarrow> slots_hold (release k s) (h - {#k#})" for s h k
  proof -
    assume h: "slots_hold s h" "k \<in># h"
    then have "1 \<le> size h" "1 \<le> count h k" by (auto simp: Suc_le_eq nonempty_has_size [symmetric])
    with h show ?thesis by (auto simp: slots_hold_def release_def size_Diff_singleton of_nat_diff)
  qed
  show "size h \<le> 32 \<and> (\<forall>d. count h d \<le> 4) \<Longrightarrow> size (h - {#k#}) \<le> 32 \<and> (\<forall>d. count (h - {#k#}) d \<le> 4)"
    for h :: "string multiset" and k
  proof -
    assume h: "size h \<le> 32 \<and> (\<forall>d. count h d \<le> 4)"
    have "size (h - {#k#}) \<le> size h" by (rule size_mset_mono) (rule diff_subset_eq_self)
    moreover have "count (h - {#k#}) d \<le> count h d" for d by simp
    ultimately show ?thesis using h by (meson order.trans)
  qed
qed auto

text \<open>However requests are interleaved, at most 32 are under way and at most 4 of one device, and
  the counters are exact: \<open>acquire\<close> succeeds precisely when both limits leave room, and no slot
  leaks or is given back twice.\<close>

lemma slots_bounded:
  assumes "fold slots.use ops (no_slots, {#}) = (s, h)"
  shows "size h \<le> 32 \<and> count h d \<le> 4 \<and> global s = int (size h) \<and> active s d = int (count h d) \<and>
    (fst (acquire d s) \<longleftrightarrow> size h < 32 \<and> count h d < 4)"
proof -
  from slots.from_empty [OF assms] have h: "slots_hold s h" "size h \<le> 32" "count h d \<le> 4" by auto
  moreover have "fst (acquire d s) \<longleftrightarrow> size h < 32 \<and> count h d < 4"
    using slots.holds_take [OF h(1), of d "fst (acquire d s)" "snd (acquire d s)"] by simp
  ultimately show ?thesis by (simp add: slots_hold_def)
qed

theorem slots_bounded_witness:
  "\<exists>s h. fold slots.use [Acquire ''a'', Acquire ''a'', Acquire ''a'', Acquire ''a'', Acquire ''b''] (no_slots, {#}) =
      (s, h) \<and> size h = 5 \<and> \<not> fst (acquire ''a'' s) \<and> fst (acquire ''c'' s)"
proof -
  let ?ops = "[Acquire ''a'', Acquire ''a'', Acquire ''a'', Acquire ''a'', Acquire ''b'']"
  obtain s h where f: "fold slots.use ?ops (no_slots, {#}) = (s, h)" by (metis prod.exhaust)
  then have h: "h = {#''b'', ''a'', ''a'', ''a'', ''a''#}"
    by (simp add: acquire_def no_slots_def)
  show ?thesis
    using slots_bounded [OF f, of "''a''"] slots_bounded [OF f, of "''c''"] f by (auto simp: h)
qed

section \<open>The sliding window\<close>

text \<open>A call of \<open>throttle\<close>, keeping the times it admitted for the key under observation.\<close>

fun throttled :: "(string \<Rightarrow> nat) \<Rightarrow> string \<Rightarrow> string \<times> int \<Rightarrow> throttles \<times> int list \<Rightarrow> throttles \<times> int list" where
  "throttled limit key (k, now) (th, admitted) =
     (case throttle k (limit k) now th of (ok, th') \<Rightarrow>
        (th', if ok \<and> k = key then admitted @ [now] else admitted))"

text \<open>The list kept for the key holds what was admitted within the last window.\<close>

definition window_inv :: "nat \<Rightarrow> string \<Rightarrow> int \<Rightarrow> throttles \<times> int list \<Rightarrow> bool" where
  "window_inv n key now x \<longleftrightarrow>
     (\<forall>t \<ge> now. filter (\<lambda>y. t - y < window) (fst x key) = filter (\<lambda>y. t - y < window) (snd x)) \<and>
     (\<forall>y \<in> set (snd x). y \<le> now) \<and>
     (\<forall>t. length (filter (\<lambda>y. t - window < y \<and> y \<le> t) (snd x)) \<le> n)"

lemma window_step:
  assumes "window_inv (limit key) key before x" "before \<le> now"
  shows "window_inv (limit key) key now (throttled limit key (k, now) x)"
proof -
  obtain th adm where x: "x = (th, adm)" by (cases x)
  let ?live = "\<lambda>ys. filter (\<lambda>y. now - y < window) ys"
  from assms have i: "\<And>t. now \<le> t \<Longrightarrow> filter (\<lambda>y. t - y < window) (th key) = filter (\<lambda>y. t - y < window) adm"
    "\<And>y. y \<in> set adm \<Longrightarrow> y \<le> now" "\<And>t. length (filter (\<lambda>y. t - window < y \<and> y \<le> t) adm) \<le> limit key"
    unfolding window_inv_def x by auto
  show ?thesis
  proof (cases "k = key \<and> length (?live (th key)) < limit key")
    case True
    have live: "filter (\<lambda>y. t - y < window) (?live ys) = filter (\<lambda>y. t - y < window) ys" if "now \<le> t" for t ys
      using that by (auto intro: filter_cong)
    have new: "length (filter (\<lambda>y. t - window < y \<and> y \<le> t) (adm @ [now])) \<le> limit key" for t
    proof (cases "now \<le> t")
      case False
      then show ?thesis using i(3) [of t] by simp
    next
      case le: True
      have "length (filter (\<lambda>y. t - window < y \<and> y \<le> t) adm) \<le> length (?live adm)"
        using le by (induction adm) (auto simp: le_SucI)
      also have "\<dots> < limit key" using True i(1) [of now] by simp
      finally show ?thesis by simp
    qed
    have "throttled limit key (k, now) x = (th(key := ?live (th key) @ [now]), adm @ [now])"
      using True by (simp add: x throttle_def Let_def)
    then show ?thesis
      using i(1,2) new live unfolding window_inv_def by auto
  next
    case False
    then have "fst (throttled limit key (k, now) x) key = th key \<and> snd (throttled limit key (k, now) x) = adm"
      by (auto simp: x throttle_def Let_def)
    then show ?thesis using i unfolding window_inv_def by auto
  qed
qed


text \<open>The throttle is a true limit: with a clock that does not run backwards, in every window of
  one minute at most the limit of a key is admitted, however the calls for other keys interleave.\<close>

lemma throttle_limits:
  assumes "sorted (map snd calls)"
    and "fold (throttled limit key) calls (\<lambda>_. [], []) = (th, admitted)"
  shows "length (filter (\<lambda>y. t - window < y \<and> y \<le> t) admitted) \<le> limit key"
proof -
  have run: "\<exists>now. window_inv (limit key) key now (fold (throttled limit key) calls x)"
    if "window_inv (limit key) key before x" "sorted (before # map snd calls)" for before x
    using that
  proof (induction calls arbitrary: x before)
    case (Cons c calls)
    obtain k t where c: "c = (k, t)" by (cases c)
    have "window_inv (limit key) key t (throttled limit key (k, t) x)"
      using Cons.prems by (intro window_step) (auto simp: c)
    from Cons.IH [OF this] Cons.prems(2) show ?case by (simp add: c)
  qed auto
  let ?before = "if calls = [] then 0 else snd (hd calls)"
  have "window_inv (limit key) key ?before (\<lambda>_. [], [])" by (simp add: window_inv_def)
  moreover have "sorted (?before # map snd calls)" using assms(1) by (cases calls) auto
  ultimately have "\<exists>now. window_inv (limit key) key now (fold (throttled limit key) calls (\<lambda>_. [], []))"
    by (rule run)
  with assms(2) show ?thesis by (auto simp: window_inv_def)
qed

theorem throttle_limits_witness:
  "\<exists>th admitted. fold (throttled (\<lambda>_. 2) ''login'') [(''login'', 0 :: int), (''login'', 5), (''enroll'', 6), (''login'', 7)]
       (\<lambda>_. [], []) = (th, admitted) \<and> admitted = [0, 5] \<and>
     length (filter (\<lambda>y. 7 - window < y \<and> y \<le> 7) admitted) \<le> 2"
proof -
  let ?calls = "[(''login'', 0 :: int), (''login'', 5), (''enroll'', 6), (''login'', 7)]"
  have s: "sorted (map snd ?calls)" by simp
  obtain th admitted where f: "fold (throttled (\<lambda>_. 2) ''login'') ?calls (\<lambda>_. [], []) = (th, admitted)"
    by (metis prod.exhaust)
  then have "admitted = [0, 5]" by (simp add: throttle_def window_def)
  with f throttle_limits [OF s f, of 7] show ?thesis by blast
qed

end
