(* ===== verification/Effects.thy ===== *)
theory Effects
  imports Access
begin

text \<open>
  Operations with a state and an error, as the sources write them with \<open>if e != nil { return e }\<close>: the
  state is a transaction (theory Store), the disk of the server (Vault), the files of a device
  (Device_Identity) or both views of the database (Commands). A relation between the states before
  and after that is kept by every call is kept by their sequence.
\<close>

section \<open>Sequences of fallible calls\<close>

definition ret :: "'a \<Rightarrow> 's \<Rightarrow> (error + 'a) \<times> 's" where
  "ret x s = (Inr x, s)"

definition fail :: "error \<Rightarrow> 's \<Rightarrow> (error + 'a) \<times> 's" where
  "fail e s = (Inl e, s)"

definition bind :: "('s \<Rightarrow> (error + 'a) \<times> 's) \<Rightarrow> ('a \<Rightarrow> 's \<Rightarrow> (error + 'b) \<times> 's) \<Rightarrow> 's \<Rightarrow> (error + 'b) \<times> 's" where
  "bind m f s = (case m s of (Inl e, s') \<Rightarrow> (Inl e, s') | (Inr x, s') \<Rightarrow> f x s')"

text \<open>Replace any error by the given one, as \<open>if e != nil { return errors.New(..) }\<close> does.\<close>

definition or_err :: "error \<Rightarrow> ('s \<Rightarrow> (error + 'a) \<times> 's) \<Rightarrow> 's \<Rightarrow> (error + 'a) \<times> 's" where
  "or_err e m s = (case m s of (Inl _, s') \<Rightarrow> (Inl e, s') | (Inr x, s') \<Rightarrow> (Inr x, s'))"

text \<open>An error that the code ignores (\<open>_, _ = tx.Exec(..)\<close>).\<close>

definition ignore :: "('s \<Rightarrow> (error + 'a) \<times> 's) \<Rightarrow> 's \<Rightarrow> (error + unit) \<times> 's" where
  "ignore m s = (case m s of (_, s') \<Rightarrow> (Inr (), s'))"

lemma bind_Inr: "bind m f s = (Inr y, s') \<longleftrightarrow> (\<exists>x t. m s = (Inr x, t) \<and> f x t = (Inr y, s'))"
  by (auto simp: bind_def split: prod.splits sum.splits)

section \<open>What a sequence keeps\<close>

definition follows :: "('s \<Rightarrow> 's \<Rightarrow> bool) \<Rightarrow> ('s \<Rightarrow> (error + 'a) \<times> 's) \<Rightarrow> bool" where
  "follows R m \<longleftrightarrow> (\<forall>s. R s (snd (m s)))"

lemma followsD: "follows R m \<Longrightarrow> m s = (r, s') \<Longrightarrow> R s s'"
  unfolding follows_def by (metis snd_conv)

locale passage =
  fixes R :: "'s \<Rightarrow> 's \<Rightarrow> bool"
  assumes stays: "R s s"
    and joins: "R s t \<Longrightarrow> R t u \<Longrightarrow> R s u"
begin

lemma returns: "follows R (ret x)" "follows R (fail e)"
  by (simp_all add: follows_def ret_def fail_def stays)

lemma binds:
  assumes "follows R m" "\<And>x. follows R (f x)"
  shows "follows R (bind m f)"
  using assms by (auto simp: follows_def bind_def split: prod.splits sum.splits intro: joins) (metis joins snd_conv)+

lemma or_errs: "follows R m \<Longrightarrow> follows R (or_err e m)"
  by (auto simp: follows_def or_err_def split: prod.splits sum.splits) (metis snd_conv)+

lemma ignores: "follows R m \<Longrightarrow> follows R (ignore m)"
  by (auto simp: follows_def ignore_def split: prod.splits) (metis snd_conv)+

end

end
