(* ===== verification/Store.thy ===== *)
theory Store
  imports Effects Base64
begin

text \<open>
  \<open>internal/store\<close>: the SQLite schema of \<open>migrations/*.sql\<close> as a record of tables, transactions
  on it, the audit log, and the encryption of stored records.

  A table is the list of its rows in insertion order. A transaction works on a copy that
  \<open>COMMIT\<close> makes durable; every return before the commit leaves the committed database as it
  was, which is what the deferred \<open>tx.Rollback()\<close> of every operation does. The pool holds one
  connection (\<open>SetMaxOpenConns(1)\<close>), so transactions run one after the other.

  Each statement can fail. The failures are an argument: one \<open>fault\<close> per statement, in order,
  none when the list is used up. A row iteration can also be cut short after some rows, which
  \<open>rows.Next()\<close> reports by ending and \<open>rows.Err()\<close> by an error.
\<close>

section \<open>Encryption and identifiers (\<open>crypto.go\<close>)\<close>

text \<open>
  The primitives of \<open>crypto/sha256\<close> and of the AES-GCM instance keyed by the vault key are
  parameters; random bytes are arguments of the operations that draw them.
\<close>

record crypto =
  sha256 :: "string \<Rightarrow> string"
  aead_seal :: "string \<Rightarrow> string \<Rightarrow> string \<Rightarrow> string"
  aead_open :: "string \<Rightarrow> string \<Rightarrow> string \<Rightarrow> string option"

text \<open>The documented law of \<open>cipher.AEAD\<close>: \<open>Open\<close> inverts \<open>Seal\<close> under the same nonce and data.\<close>

definition aead_ok :: "'a crypto_scheme \<Rightarrow> bool" where
  "aead_ok E \<longleftrightarrow> (\<forall>n b ad. aead_open E n (aead_seal E n b ad) ad = Some b)"

definition nonce_size :: nat where
  "nonce_size = 12"

definition ID :: "string \<Rightarrow> string \<Rightarrow> string" where
  "ID pre random = pre @ RawURLEncoding random"

definition Hash :: "'a crypto_scheme \<Rightarrow> string \<Rightarrow> string" where
  "Hash E s = RawURLEncoding (sha256 E s)"

definition Seal :: "'a crypto_scheme \<Rightarrow> string \<Rightarrow> string \<Rightarrow> string \<Rightarrow> string" where
  "Seal E nonce purpose b = nonce @ aead_seal E nonce b purpose"

definition Unseal :: "'a crypto_scheme \<Rightarrow> string \<Rightarrow> string \<Rightarrow> error + string" where
  "Unseal E purpose b =
     (if length b < nonce_size then Inl (Err ''invalid encrypted record'')
      else (case aead_open E (take nonce_size b) (drop nonce_size b) purpose of
         None \<Rightarrow> Inl DriverErr
       | Some x \<Rightarrow> Inr x))"

definition Encrypt :: "'a crypto_scheme \<Rightarrow> string \<Rightarrow> string \<Rightarrow> string \<Rightarrow> string" where
  "Encrypt E nonce purpose b = Seal E nonce purpose b"

definition Decrypt :: "'a crypto_scheme \<Rightarrow> string \<Rightarrow> string \<Rightarrow> error + string" where
  "Decrypt E purpose b = Unseal E purpose b"

section \<open>The schema (\<open>migrations/*.sql\<close>)\<close>

datatype status = pending_approval | queued | dispatching | completed | failed |
  outcome_unknown | denied | expired | cancelled

record owner_row =
  ow_id :: string
  password_hash :: string

record session_row =
  ses_hash :: string
  ses_owner :: string
  ses_csrf :: string
  ses_expires :: int

record device_row =
  dev_id :: string
  dev_label :: string
  dev_revoked :: bool
  certificate_serial :: string
  certificate_expires :: int

record invitation_row =
  inv_hash :: string
  inv_device :: string
  inv_expires :: int
  inv_used :: bool

record service_row =
  sv_id :: string
  sv_label :: string
  base_url :: string
  sv_revision :: int
  enabled :: bool
  sv_auth :: string
  sv_credential :: string
  auth_header_col :: string
  request_headers :: string
  response_headers :: string
  private_cidr :: string

record permission_row = permission +
  perm_revoked :: bool

record audit_row =
  aud_owner :: string
  aud_device :: string
  aud_kind :: string
  aud_entity :: string

record request_row =
  rq_id :: string
  rq_device :: string
  rq_service :: string
  rq_revision :: int
  rq_permission :: string
  key_hash :: string
  submission_digest :: string
  snapshot_digest :: string
  rq_snapshot :: "string option"
  rq_status :: status
  rq_expires :: int
  created :: int
  finished :: "int option"
  rq_result :: "string option"
  reason :: string

record approval_row =
  ap_request :: string
  decided_by :: string
  ap_digest :: string
  decision :: string

record db =
  owners :: "owner_row list"
  sessions :: "session_row list"
  devices :: "device_row list"
  invitations :: "invitation_row list"
  services :: "service_row list"
  permissions :: "permission_row list"
  audit :: "audit_row list"
  requests :: "request_row list"
  approvals :: "approval_row list"

section \<open>Transactions\<close>

datatype fault = NoFault | Fail | CutAfter nat

record txst =
  committed :: db
  working :: db
  faults :: "fault list"

type_synonym 'a tx = "txst \<Rightarrow> (error + 'a) \<times> txst"

definition next_fault :: "txst \<Rightarrow> fault" where
  "next_fault s = (case faults s of [] \<Rightarrow> NoFault | x # _ \<Rightarrow> x)"

definition tick :: "txst \<Rightarrow> txst" where
  "tick s = s\<lparr>faults := tl (faults s)\<rparr>"

definition begin_tx :: "unit tx" where
  "begin_tx s = (if next_fault s = Fail then (Inl DriverErr, tick s)
     else (Inr (), (tick s)\<lparr>working := committed s\<rparr>))"

definition commit :: "unit tx" where
  "commit s = (if next_fault s = Fail then (Inl DriverErr, tick s)
     else (Inr (), (tick s)\<lparr>committed := working s\<rparr>))"

definition query :: "(db \<Rightarrow> 'a) \<Rightarrow> 'a tx" where
  "query f s = (if next_fault s = Fail then (Inl DriverErr, tick s) else (Inr (f (working s)), tick s))"

text \<open>A row iteration: the rows seen, and the error \<open>rows.Err()\<close> would report.\<close>

definition query_rows :: "(db \<Rightarrow> 'a list) \<Rightarrow> ('a list \<times> bool) tx" where
  "query_rows f s =
     (case next_fault s of
        Fail \<Rightarrow> (Inl DriverErr, tick s)
      | CutAfter n \<Rightarrow> (Inr (take n (f (working s)), True), tick s)
      | NoFault \<Rightarrow> (Inr (f (working s), False), tick s))"

text \<open>A statement that writes; \<open>None\<close> is a constraint violation, which changes nothing.\<close>

definition exec :: "(db \<Rightarrow> db option) \<Rightarrow> unit tx" where
  "exec f s =
     (if next_fault s = Fail then (Inl DriverErr, tick s)
      else (case f (working s) of
          None \<Rightarrow> (Inl DriverErr, tick s)
        | Some d \<Rightarrow> (Inr (), (tick s)\<lparr>working := d\<rparr>)))"

text \<open>The durable result of an operation.\<close>

definition run_tx :: "fault list \<Rightarrow> 'a tx \<Rightarrow> db \<Rightarrow> (error + 'a) \<times> db" where
  "run_tx fs m d =
     (case m \<lparr>committed = d, working = d, faults = fs\<rparr> of (r, s) \<Rightarrow> (r, committed s))"

section \<open>Statements\<close>

definition Audit :: "string \<Rightarrow> string \<Rightarrow> string \<Rightarrow> string \<Rightarrow> unit tx" where
  "Audit owner device kind entity =
     exec (\<lambda>d. Some (d\<lparr>audit := audit d @
       [\<lparr>aud_owner = owner, aud_device = device, aud_kind = kind, aud_entity = entity\<rparr>]\<rparr>))"

text \<open>
  Inserts check the primary key, the unique pairs and the foreign keys of the schema
  (\<open>PRAGMA foreign_keys=ON\<close>).
\<close>

definition insert_request :: "request_row \<Rightarrow> db \<Rightarrow> db option" where
  "insert_request r d =
     (if rq_id r \<in> rq_id ` set (requests d) \<or>
         (\<exists>x \<in> set (requests d). rq_device x = rq_device r \<and> key_hash x = key_hash r) \<or>
         rq_device r \<notin> dev_id ` set (devices d) \<or> rq_service r \<notin> sv_id ` set (services d) \<or>
         rq_permission r \<notin> perm_ID ` set (permissions d)
      then None else Some (d\<lparr>requests := requests d @ [r]\<rparr>))"

definition insert_approval :: "approval_row \<Rightarrow> db \<Rightarrow> db option" where
  "insert_approval a d =
     (if ap_request a \<in> ap_request ` set (approvals d) \<or> ap_request a \<notin> rq_id ` set (requests d) \<or>
         decided_by a \<notin> ow_id ` set (owners d)
      then None else Some (d\<lparr>approvals := approvals d @ [a]\<rparr>))"

definition insert_permission :: "permission_row \<Rightarrow> db \<Rightarrow> db option" where
  "insert_permission p d =
     (if perm_ID p \<in> perm_ID ` set (permissions d) \<or> DeviceID p \<notin> dev_id ` set (devices d) \<or>
         ServiceID p \<notin> sv_id ` set (services d) \<or> Owner p \<notin> ow_id ` set (owners d)
      then None else Some (d\<lparr>permissions := permissions d @ [p]\<rparr>))"

definition insert_service :: "service_row \<Rightarrow> db \<Rightarrow> db option" where
  "insert_service r d =
     (if sv_id r \<in> sv_id ` set (services d) then None
      else Some (d\<lparr>services := services d @ [r]\<rparr>))"

definition insert_device :: "device_row \<Rightarrow> db \<Rightarrow> db option" where
  "insert_device r d =
     (if dev_id r \<in> dev_id ` set (devices d) then None
      else Some (d\<lparr>devices := devices d @ [r]\<rparr>))"

definition insert_invitation :: "invitation_row \<Rightarrow> db \<Rightarrow> db option" where
  "insert_invitation r d =
     (if inv_hash r \<in> inv_hash ` set (invitations d) \<or> inv_device r \<notin> dev_id ` set (devices d)
      then None else Some (d\<lparr>invitations := invitations d @ [r]\<rparr>))"

definition insert_session :: "session_row \<Rightarrow> db \<Rightarrow> db option" where
  "insert_session r d =
     (if ses_hash r \<in> ses_hash ` set (sessions d) \<or> ses_owner r \<notin> ow_id ` set (owners d)
      then None else Some (d\<lparr>sessions := sessions d @ [r]\<rparr>))"

definition insert_owner :: "owner_row \<Rightarrow> db \<Rightarrow> db option" where
  "insert_owner r d =
     (if ow_id r \<in> ow_id ` set (owners d) then None else Some (d\<lparr>owners := owners d @ [r]\<rparr>))"

text \<open>\<open>UPDATE requests SET .. WHERE P\<close>.\<close>

definition update_requests :: "(request_row \<Rightarrow> bool) \<Rightarrow> (request_row \<Rightarrow> request_row) \<Rightarrow> db \<Rightarrow> db" where
  "update_requests P f d = d\<lparr>requests := map (\<lambda>r. if P r then f r else r) (requests d)\<rparr>"

definition update_devices :: "(device_row \<Rightarrow> bool) \<Rightarrow> (device_row \<Rightarrow> device_row) \<Rightarrow> db \<Rightarrow> db" where
  "update_devices P f d = d\<lparr>devices := map (\<lambda>r. if P r then f r else r) (devices d)\<rparr>"

definition update_services :: "(service_row \<Rightarrow> bool) \<Rightarrow> (service_row \<Rightarrow> service_row) \<Rightarrow> db \<Rightarrow> db" where
  "update_services P f d = d\<lparr>services := map (\<lambda>r. if P r then f r else r) (services d)\<rparr>"

definition update_permissions ::
    "(permission_row \<Rightarrow> bool) \<Rightarrow> (permission_row \<Rightarrow> permission_row) \<Rightarrow> db \<Rightarrow> db" where
  "update_permissions P f d = d\<lparr>permissions := map (\<lambda>r. if P r then f r else r) (permissions d)\<rparr>"

end
