(* ===== verification/Requests.thy ===== *)
theory Requests
  imports Store Upstream
begin

text \<open>
  \<open>internal/requests/types.go\<close>: the submission a device sends, the snapshot the server keeps,
  the stored result, the status it reports, and the normalisation of a submission.
  JSON encoding and decoding (\<open>encoding/json\<close>) of these types and the parsing of RFC 3339
  timestamps (\<open>time.Parse\<close>, in whole seconds) are parameters.
\<close>

record Submission =
  sub_Service :: string
  sub_Method :: string
  sub_Path :: string
  sub_Query :: string
  sub_Headers :: "(string \<times> string) list"
  sub_Body :: string
  IdempotencyKey :: string

record StatusInput =
  si_RequestID :: string
  WaitSeconds :: int

record Snapshot =
  Version :: int
  snap_DeviceID :: string
  snap_ServiceID :: string
  ServiceLabel :: string
  snap_Revision :: int
  PermissionID :: string
  CredentialRef :: string
  snap_URL :: string
  snap_Method :: string
  snap_Path :: string
  snap_Headers :: header
  snap_Body :: string
  snap_Expires :: int
  snap_PrivateCIDR :: string

record Result =
  HTTPStatus :: int
  res_Headers :: header
  res_Body :: string
  Encoding :: string
  Truncated :: bool
  Incomplete :: bool

record Status =
  RequestID :: string
  st_Status :: status
  ExpiresAt :: int
  st_Digest :: string
  st_Reason :: string
  NextAction :: string
  PollAfterMS :: int
  st_Result :: "Result option"
  PayloadPurged :: bool

record codec = crypto +
  marshal_submission :: "Submission \<Rightarrow> string"
  marshal_snapshot :: "Snapshot \<Rightarrow> string"
  unmarshal_snapshot :: "string \<Rightarrow> Snapshot option"
  marshal_result :: "Result \<Rightarrow> string"
  unmarshal_result :: "string \<Rightarrow> Result option"
  marshal_strings :: "string list \<Rightarrow> string"
  unmarshal_strings :: "string \<Rightarrow> string list option"
  parse_rfc3339 :: "string \<Rightarrow> int option"

section \<open>\<open>utf8.Valid\<close>\<close>

definition cont :: "nat \<Rightarrow> nat \<Rightarrow> char \<Rightarrow> bool" where
  "cont lo hi c \<longleftrightarrow> lo \<le> byte_of c \<and> byte_of c \<le> hi"

fun valid_utf8 :: "string \<Rightarrow> bool" where
  "valid_utf8 [] = True"
| "valid_utf8 (c # s) =
     (let b = byte_of c in
      if b < 128 then valid_utf8 s
      else if 194 \<le> b \<and> b \<le> 223 then
        (case s of x # s' \<Rightarrow> cont 128 191 x \<and> valid_utf8 s' | _ \<Rightarrow> False)
      else if 224 \<le> b \<and> b \<le> 239 then
        (case s of x # y # s' \<Rightarrow>
           cont (if b = 224 then 160 else 128) (if b = 237 then 159 else 191) x \<and>
           cont 128 191 y \<and> valid_utf8 s'
         | _ \<Rightarrow> False)
      else if 240 \<le> b \<and> b \<le> 244 then
        (case s of x # y # z # s' \<Rightarrow>
           cont (if b = 240 then 144 else 128) (if b = 244 then 143 else 191) x \<and>
           cont 128 191 y \<and> cont 128 191 z \<and> valid_utf8 s'
         | _ \<Rightarrow> False)
      else False)"

section \<open>\<open>Normalize\<close>\<close>

text \<open>
  A Go map is ranged over in an arbitrary order: the order of \<open>sub_Headers\<close> is the order of this
  iteration. The map \<open>out\<close> is the accumulator, \<open>sz\<close> the running \<open>size\<close>.
\<close>

fun normalize_headers :: "(string \<times> string) list \<Rightarrow> nat \<Rightarrow> (string \<times> string) list \<Rightarrow>
    error + (string \<times> string) list \<times> nat" where
  "normalize_headers out sz [] = Inr (out, sz)"
| "normalize_headers out sz ((n, v) # hs) =
     (if \<not> HeaderName n \<or> \<not> HeaderValue v \<or> Reserved n then Inl (Err ''invalid_header'')
      else let n' = CanonicalHeaderKey n in
        if n' \<in> fst ` set out then Inl (Err ''duplicate_header'')
        else normalize_headers (out @ [(n', v)]) (sz + (length n' + length v)) hs)"

definition key_byte :: "char \<Rightarrow> bool" where
  "key_byte c \<longleftrightarrow> \<not> (byte_of c < 33 \<or> 126 < byte_of c)"

definition Normalize :: "Submission \<Rightarrow> error + Submission" where
  "Normalize inp =
     (if \<not> Slug (sub_Service inp) \<or> \<not> Method (sub_Method inp) \<or> \<not> Path (sub_Path inp) \<or>
         \<not> valid_utf8 (sub_Body inp) \<or> 64 * 1024 < length (sub_Body inp) \<or>
         length (IdempotencyKey inp) < 1 \<or> 128 < length (IdempotencyKey inp)
      then Inl (Err ''invalid_submission'')
      else if \<not> list_all key_byte (IdempotencyKey inp) then Inl (Err ''invalid_idempotency_key'')
      else (case Target ''https://example.invalid'' (sub_Path inp) (sub_Query inp) of
          Inl _ \<Rightarrow> Inl (Err ''invalid_query'')
        | Inr _ \<Rightarrow>
            (case normalize_headers [] 0 (sub_Headers inp) of
               Inl e \<Rightarrow> Inl e
             | Inr (out, sz) \<Rightarrow>
                 if 16 * 1024 < sz then Inl (Err ''headers_too_large'')
                 else Inr (inp\<lparr>sub_Headers := out\<rparr>))))"

section \<open>\<open>ApplicationHeaders\<close> and digests\<close>

fun application_headers :: "service \<Rightarrow> header \<Rightarrow> (string \<times> string) list \<Rightarrow> error + header" where
  "application_headers s h [] = Inr h"
| "application_headers s h ((n, v) # hs) =
     (if \<not> list_ex (EqualFold n) (RequestHeaders s) \<or> EqualFold n (AuthHeader s)
      then Inl (Err ''header_not_allowed'')
      else application_headers s (Set h n v) hs)"

definition ApplicationHeaders :: "Submission \<Rightarrow> service \<Rightarrow> error + header" where
  "ApplicationHeaders inp s = application_headers s [] (sub_Headers inp)"

definition Digest :: "'a crypto_scheme \<Rightarrow> string \<Rightarrow> string" where
  "Digest E b = ''sha256-v1:'' @ Hash E b"

text \<open>\<open>json.Marshal\<close> writes the keys of a map in sorted order.\<close>

definition SubmissionDigest :: "'a codec_scheme \<Rightarrow> Submission \<Rightarrow> string" where
  "SubmissionDigest E inp =
     Digest E (marshal_submission E
       (inp\<lparr>IdempotencyKey := [], sub_Headers := sort_key fst (sub_Headers inp)\<rparr>))"

end
