(* ===== verification/Tx_Rules.thy ===== *)
theory Tx_Rules
  imports Store
begin

text \<open>
  Reasoning about transactions. \<open>runs m c w x c' w'\<close> says that \<open>m\<close>, started with the committed
  database \<open>c\<close> and the working copy \<open>w\<close>, can return \<open>x\<close> and leave \<open>c'\<close> and \<open>w'\<close>, for some
  sequence of faults. The collection \<open>runs\<close> holds its elimination rules: one per primitive, so
  that the successful executions of an operation are read off its definition.

  \<open>reads\<close>, \<open>quiet\<close> and \<open>safe\<close> describe every execution, failing ones included: changing nothing,
  committing nothing, and committing nothing when an error is returned. The collection
  \<open>tx_rules\<close> holds their introduction rules.
\<close>

named_theorems runs \<open>what a successful execution of a transaction step did\<close>
named_theorems tx_rules \<open>executions that change nothing, commit nothing, or fail cleanly\<close>

definition runs :: "'a tx \<Rightarrow> db \<Rightarrow> db \<Rightarrow> 'a \<Rightarrow> db \<Rightarrow> db \<Rightarrow> bool" where
  "runs m c w x c' w' \<longleftrightarrow>
     (\<exists>s s'. committed s = c \<and> working s = w \<and> m s = (Inr x, s') \<and> committed s' = c' \<and>
        working s' = w')"

definition reads :: "'a tx \<Rightarrow> bool" where
  "reads m \<longleftrightarrow> (\<forall>s. committed (snd (m s)) = committed s \<and> working (snd (m s)) = working s)"

definition quiet :: "'a tx \<Rightarrow> bool" where
  "quiet m \<longleftrightarrow> (\<forall>s. committed (snd (m s)) = committed s)"

definition safe :: "'a tx \<Rightarrow> bool" where
  "safe m \<longleftrightarrow> (\<forall>s e s'. m s = (Inl e, s') \<longrightarrow> committed s' = committed s)"

lemma tick_simps [simp]:
  "committed (tick s) = committed s" "working (tick s) = working s" "faults (tick s) = tl (faults s)"
  by (simp_all add: tick_def)

text \<open>Both are relations that a sequence keeps.\<close>

lemma reads_follows: "reads m \<longleftrightarrow> follows (\<lambda>s s'. committed s' = committed s \<and> working s' = working s) m"
  by (simp add: reads_def follows_def)

lemma quiet_follows: "quiet m \<longleftrightarrow> follows (\<lambda>s s'. committed s' = committed s) m"
  by (simp add: quiet_def follows_def)

interpretation views: passage "\<lambda>s s'. committed s' = committed s \<and> working s' = working s"
  by unfold_locales auto

interpretation durable: passage "\<lambda>s s'. committed s' = committed s"
  by unfold_locales auto

section \<open>Elimination rules\<close>

lemma runs_ret [runs]: "runs (ret x) c w y c' w' \<Longrightarrow> y = x \<and> c' = c \<and> w' = w"
  by (auto simp: runs_def ret_def)

lemma runs_fail [runs]: "runs (fail e) c w y c' w' \<Longrightarrow> False"
  by (auto simp: runs_def fail_def)

lemma runs_bind [runs]:
  "runs (bind m f) c w y c' w' \<Longrightarrow> \<exists>x c1 w1. runs m c w x c1 w1 \<and> runs (f x) c1 w1 y c' w'"
  unfolding runs_def bind_def
  by (elim exE conjE, rename_tac s s', case_tac "m s", rename_tac r s1, case_tac r)
    (fastforce simp: runs_def)+

lemma runs_or_err [runs]: "runs (or_err e m) c w x c' w' \<Longrightarrow> runs m c w x c' w'"
  unfolding runs_def or_err_def
  by (elim exE conjE, rename_tac s s', case_tac "m s", rename_tac r s1, case_tac r)
    (fastforce simp: runs_def)+

lemma runs_begin_tx [runs]: "runs begin_tx c w x c' w' \<Longrightarrow> c' = c \<and> w' = c"
  by (auto simp: runs_def begin_tx_def split: if_splits)

lemma runs_commit [runs]: "runs commit c w x c' w' \<Longrightarrow> c' = w \<and> w' = w"
  by (auto simp: runs_def commit_def split: if_splits)

lemma runs_query [runs]: "runs (query f) c w x c' w' \<Longrightarrow> x = f w \<and> c' = c \<and> w' = w"
  by (auto simp: runs_def query_def split: if_splits)

lemma runs_query_rows [runs]:
  "runs (query_rows f) c w x c' w' \<Longrightarrow>
     c' = c \<and> w' = w \<and> (x = (f w, False) \<or> (\<exists>n. x = (take n (f w), True)))"
  unfolding runs_def query_rows_def
  by (elim exE conjE, rename_tac s s', case_tac "next_fault s") auto

lemma runs_exec [runs]: "runs (exec f) c w x c' w' \<Longrightarrow> c' = c \<and> f w = Some w'"
  by (auto simp: runs_def exec_def split: if_splits option.splits)

definition audited :: "string \<Rightarrow> string \<Rightarrow> string \<Rightarrow> string \<Rightarrow> db \<Rightarrow> db" where
  "audited owner device kind entity d = d\<lparr>audit := audit d @
     [\<lparr>aud_owner = owner, aud_device = device, aud_kind = kind, aud_entity = entity\<rparr>]\<rparr>"

lemma runs_Audit [runs]:
  "runs (Audit owner device kind entity) c w x c' w' \<Longrightarrow>
     c' = c \<and> w' = audited owner device kind entity w"
  unfolding Audit_def audited_def by (drule runs_exec) simp

lemma audited_simps [simp]:
  "requests (audited a b k e d) = requests d" "permissions (audited a b k e d) = permissions d"
  "devices (audited a b k e d) = devices d" "services (audited a b k e d) = services d"
  "approvals (audited a b k e d) = approvals d" "owners (audited a b k e d) = owners d"
  "sessions (audited a b k e d) = sessions d" "invitations (audited a b k e d) = invitations d"
  by (simp_all add: audited_def)

lemma runs_ignore:
  assumes "runs (ignore m) c w x c' w'" and "safe m"
  shows "(\<exists>y. runs m c w y c' w') \<or> c' = c"
proof -
  from assms(1) obtain s s' where s: "committed s = c" "working s = w" "ignore m s = (Inr x, s')"
      "committed s' = c'" "working s' = w'"
    by (auto simp: runs_def)
  obtain r where r: "m s = (r, s')"
    using s(3) by (auto simp: ignore_def split: prod.splits)
  show ?thesis
  proof (cases r)
    case (Inl e)
    with r s assms(2) show ?thesis by (auto simp: safe_def)
  next
    case (Inr y)
    with r s show ?thesis by (auto simp: runs_def)
  qed
qed

section \<open>Introduction rules\<close>

lemma reads_quiet: "reads m \<Longrightarrow> quiet m"
  by (simp add: reads_def quiet_def)

lemma quiet_safe: "quiet m \<Longrightarrow> safe m"
  unfolding quiet_def safe_def by (metis snd_conv)

lemma reads_ret [tx_rules]: "reads (ret x)"
  by (simp add: reads_def ret_def)

lemma reads_fail [tx_rules]: "reads (fail e)"
  by (simp add: reads_def fail_def)

lemma reads_query [tx_rules]: "reads (query f)"
  by (simp add: reads_def query_def)

lemma reads_query_rows [tx_rules]: "reads (query_rows f)"
  by (auto simp: reads_def query_rows_def split: fault.splits)

lemma reads_bind [tx_rules]: "reads m \<Longrightarrow> (\<And>x. reads (f x)) \<Longrightarrow> reads (bind m f)"
  unfolding reads_follows by (rule views.binds)

lemma reads_or_err [tx_rules]: "reads m \<Longrightarrow> reads (or_err e m)"
  unfolding reads_follows by (rule views.or_errs)

lemmas quiet_leaves [tx_rules] = reads_ret [THEN reads_quiet] reads_fail [THEN reads_quiet]
  reads_query [THEN reads_quiet] reads_query_rows [THEN reads_quiet]

lemmas safe_leaves [tx_rules] = quiet_leaves [THEN quiet_safe]

lemma tx_split:
  "P a \<Longrightarrow> P b \<Longrightarrow> P (if c then a else b)"
  "P n \<Longrightarrow> (\<And>x. P (f x)) \<Longrightarrow> P (case opt of None \<Rightarrow> n | Some x \<Rightarrow> f x)"
  "(\<And>x y. P (g x y)) \<Longrightarrow> P (case p of (x, y) \<Rightarrow> g x y)"
  "(\<And>x. P (l x)) \<Longrightarrow> (\<And>y. P (r y)) \<Longrightarrow> P (case su of Inl x \<Rightarrow> l x | Inr y \<Rightarrow> r y)"
  by (simp_all split: option.split prod.split sum.split)

lemmas tx_splits [tx_rules] = tx_split [where P = reads] tx_split [where P = quiet]
  tx_split [where P = safe]

lemma quiet_begin_tx [tx_rules]: "quiet begin_tx"
  by (simp add: quiet_def begin_tx_def)

lemma quiet_exec [tx_rules]: "quiet (exec f)"
  by (auto simp: quiet_def exec_def split: option.splits)

lemma quiet_Audit [tx_rules]: "quiet (Audit owner device kind entity)"
  by (simp add: Audit_def quiet_exec)

lemma quiet_bind [tx_rules]: "quiet m \<Longrightarrow> (\<And>x. quiet (f x)) \<Longrightarrow> quiet (bind m f)"
  unfolding quiet_follows by (rule durable.binds)

lemma quiet_or_err [tx_rules]: "quiet m \<Longrightarrow> quiet (or_err e m)"
  unfolding quiet_follows by (rule durable.or_errs)

lemma quiet_ignore [tx_rules]: "quiet m \<Longrightarrow> quiet (ignore m)"
  unfolding quiet_follows by (rule durable.ignores)

lemma safe_commit [tx_rules]: "safe commit"
  by (simp add: safe_def commit_def)

lemma safe_ignore [tx_rules]: "safe (ignore m)"
  by (auto simp: safe_def ignore_def split: prod.splits)

lemma safe_or_err [tx_rules]: "safe m \<Longrightarrow> safe (or_err e m)"
  by (auto simp: safe_def or_err_def split: prod.splits sum.splits)

lemma safe_bind [tx_rules]: "quiet m \<Longrightarrow> (\<And>x. safe (f x)) \<Longrightarrow> safe (bind m f)"
  by (auto simp: safe_def quiet_def bind_def split: prod.splits sum.splits) (metis snd_conv)+

text \<open>A value returned after the commit cannot fail any more.\<close>

lemma safe_commit_ret [tx_rules]: "safe (bind commit (\<lambda>_. ret x))"
  by (auto simp: safe_def bind_def commit_def ret_def split: prod.splits sum.splits if_splits)

lemma safe_or_err_commit_ret [tx_rules]: "safe (bind (or_err e commit) (\<lambda>_. ret x))"
  by (auto simp: safe_def bind_def or_err_def commit_def ret_def split: prod.splits sum.splits if_splits)

section \<open>Whole operations\<close>

lemma run_tx_runs: "run_tx fs m d = (Inr x, d') \<Longrightarrow> \<exists>w'. runs m d d x d' w'"
  by (auto simp: run_tx_def runs_def split: prod.splits)
    (metis txst.select_convs(1) txst.select_convs(2))

lemma run_tx_error: "run_tx fs m d = (Inl e, d') \<Longrightarrow> safe m \<Longrightarrow> d' = d"
  by (auto simp: run_tx_def safe_def split: prod.splits)

lemma run_tx_reads: "run_tx fs m d = (r, d') \<Longrightarrow> reads m \<Longrightarrow> d' = d"
  by (auto simp: run_tx_def reads_def split: prod.splits) (metis snd_conv txst.select_convs(1))

end
