(* ===== verification/Authorize.thy ===== *)
theory Authorize
  imports Requests Tx_Rules
begin

text \<open>
  The database side of \<open>internal/access/access.go\<close>: which service and which permission of a
  device cover a request at a given time.
\<close>

definition service_of_row :: "'a codec_scheme \<Rightarrow> service_row \<Rightarrow> service option" where
  "service_of_row E r =
     (case (unmarshal_strings E (request_headers r), unmarshal_strings E (response_headers r)) of
        (Some req, Some res) \<Rightarrow>
          Some \<lparr>svc_ID = sv_id r, Label = sv_label r, BaseURL = base_url r, Auth = sv_auth r,
            AuthHeader = auth_header_col r, PrivateCIDR = private_cidr r,
            svc_Revision = sv_revision r, Credential = sv_credential r, RequestHeaders = req,
            ResponseHeaders = res\<rparr>
      | _ \<Rightarrow> None)"

definition GetService :: "'a codec_scheme \<Rightarrow> string \<Rightarrow> service tx" where
  "GetService E i =
     bind (query (\<lambda>d. find (\<lambda>r. sv_id r = i \<and> enabled r) (services d)))
       (\<lambda>row. case row of
          None \<Rightarrow> fail DriverErr
        | Some r \<Rightarrow> (case service_of_row E r of None \<Rightarrow> fail DriverErr | Some s \<Rightarrow> ret s))"

definition active_device :: "string \<Rightarrow> db \<Rightarrow> bool" where
  "active_device i d = list_ex (\<lambda>r. dev_id r = i \<and> \<not> dev_revoked r) (devices d)"

text \<open>A failing query makes the device inactive.\<close>

definition ActiveDevice :: "string \<Rightarrow> bool tx" where
  "ActiveDevice i s =
     (case query (active_device i) s of (Inl _, s') \<Rightarrow> (Inr False, s') | (Inr b, s') \<Rightarrow> (Inr b, s'))"

text \<open>The \<open>WHERE\<close> clause of the permission query.\<close>

definition live :: "int \<Rightarrow> permission_row \<Rightarrow> bool" where
  "live now p \<longleftrightarrow> \<not> perm_revoked p \<and> (case Expires p of None \<Rightarrow> True | Some t \<Rightarrow> now < t)"

definition candidate_rows :: "string \<Rightarrow> string \<Rightarrow> int \<Rightarrow> int \<Rightarrow> db \<Rightarrow> permission_row list" where
  "candidate_rows device srv rv now d =
     filter (\<lambda>p. DeviceID p = device \<and> ServiceID p = srv \<and> perm_Revision p = rv \<and> live now p)
       (permissions d)"

definition Authorize :: "'a codec_scheme \<Rightarrow> int \<Rightarrow> string \<Rightarrow> string \<Rightarrow> string \<Rightarrow> string \<Rightarrow>
    (service \<times> permission) tx" where
  "Authorize E now device srv m path =
     bind (ActiveDevice device) (\<lambda>active.
       if \<not> active then fail (Err ''device_revoked'')
       else bind (or_err (Err ''permission_denied'') (GetService E srv)) (\<lambda>s.
         bind (query_rows (candidate_rows device srv (svc_Revision s) now)) (\<lambda>(rows, _).
           case find (\<lambda>p. Match p m path) rows of
             None \<Rightarrow> fail (Err ''permission_denied'')
           | Some p \<Rightarrow> ret (s, permission.truncate p))))"

section \<open>Executions\<close>

lemma reads_ActiveDevice [tx_rules]: "reads (ActiveDevice i)"
  by (auto simp: reads_def ActiveDevice_def query_def)

lemma runs_ActiveDevice [runs]:
  "runs (ActiveDevice i) c w b c' w' \<Longrightarrow> c' = c \<and> w' = w \<and> (b \<longrightarrow> active_device i w)"
  by (auto simp: runs_def ActiveDevice_def query_def split: if_splits)

lemma reads_GetService [tx_rules]: "reads (GetService E i)"
  unfolding GetService_def
  by (intro tx_rules)

definition enabled_service :: "'a codec_scheme \<Rightarrow> string \<Rightarrow> db \<Rightarrow> service option" where
  "enabled_service E i d =
     Option.bind (find (\<lambda>r. sv_id r = i \<and> enabled r) (services d)) (service_of_row E)"

lemma runs_GetService [runs]:
  "runs (GetService E i) c w s c' w' \<Longrightarrow> c' = c \<and> w' = w \<and> enabled_service E i w = Some s"
  unfolding GetService_def enabled_service_def
  by (auto dest!: runs split: option.splits)

text \<open>The decision without storage faults.\<close>

definition authorize :: "'a codec_scheme \<Rightarrow> int \<Rightarrow> db \<Rightarrow> string \<Rightarrow> string \<Rightarrow> string \<Rightarrow> string \<Rightarrow>
    (service \<times> permission_row) option" where
  "authorize E now d device srv m path =
     (if \<not> active_device device d then None
      else (case enabled_service E srv d of
          None \<Rightarrow> None
        | Some s \<Rightarrow> map_option (Pair s)
            (find (\<lambda>p. Match p m path) (candidate_rows device srv (svc_Revision s) now d))))"

lemma reads_Authorize [tx_rules]: "reads (Authorize E now device srv m path)"
  unfolding Authorize_def
  by (intro tx_rules)

lemma runs_Authorize [runs]:
  assumes "runs (Authorize E now device srv m path) c w (s, p) c' w'"
  shows "c' = c \<and> w' = w \<and>
    (\<exists>row. authorize E now w device srv m path = Some (s, row) \<and> p = permission.truncate row)"
  using assms unfolding Authorize_def authorize_def
  by (auto dest!: runs find_take split: if_splits option.splits prod.splits)

lemmas quiet_access [tx_rules] = reads_ActiveDevice [THEN reads_quiet]
  reads_GetService [THEN reads_quiet] reads_Authorize [THEN reads_quiet]

lemma no_faults: "next_fault \<lparr>committed = c, working = w, faults = []\<rparr> = NoFault"
    "tick \<lparr>committed = c, working = w, faults = []\<rparr> = \<lparr>committed = c, working = w, faults = []\<rparr>"
  by (simp_all add: next_fault_def tick_def)

lemmas plain_run = no_faults bind_def ret_def fail_def or_err_def ignore_def query_def query_rows_def
  exec_def begin_tx_def commit_def

lemma plain_GetService:
  "GetService E i \<lparr>committed = c, working = w, faults = []\<rparr> =
     (case enabled_service E i w of None \<Rightarrow> Inl DriverErr | Some s \<Rightarrow> Inr s,
      \<lparr>committed = c, working = w, faults = []\<rparr>)"
  by (auto simp: GetService_def enabled_service_def plain_run split: option.splits)

lemma plain_Authorize:
  "Authorize E now device srv m path \<lparr>committed = c, working = w, faults = []\<rparr> =
     (case authorize E now w device srv m path of
        Some (s, row) \<Rightarrow> Inr (s, permission.truncate row)
      | None \<Rightarrow> Inl (if active_device device w then Err ''permission_denied'' else Err ''device_revoked''),
      \<lparr>committed = c, working = w, faults = []\<rparr>)"
  by (auto simp: Authorize_def authorize_def plain_GetService ActiveDevice_def plain_run
      split: option.splits)

text \<open>What an authorization rests on.\<close>

lemma authorize_SomeE:
  assumes "authorize E now d device srv m path = Some (s, p)"
  obtains "active_device device d" "enabled_service E srv d = Some s"
    "p \<in> set (permissions d)" "DeviceID p = device" "ServiceID p = srv"
    "perm_Revision p = svc_Revision s" "live now p" "Match p m path"
proof -
  from assms have "active_device device d" "enabled_service E srv d = Some s"
    and "find (\<lambda>p. Match p m path) (candidate_rows device srv (svc_Revision s) now d) = Some p"
    by (auto simp: authorize_def split: if_splits option.splits)
  then show ?thesis
    by (intro that) (auto dest: find_Some_in simp: candidate_rows_def)
qed

lemma enabled_serviceE:
  assumes "enabled_service E i d = Some s"
  obtains r where "r \<in> set (services d)" "sv_id r = i" "enabled r" "service_of_row E r = Some s"
    "svc_ID s = i"
proof -
  from assms obtain r where r: "find (\<lambda>r. sv_id r = i \<and> enabled r) (services d) = Some r"
      "service_of_row E r = Some s"
    by (auto simp: enabled_service_def bind_eq_Some_conv)
  moreover from r(2) have "svc_ID s = sv_id r"
    by (auto simp: service_of_row_def split: option.splits)
  ultimately show ?thesis using find_Some_in [OF r(1)] that by blast
qed

text \<open>
  With live permissions that do not overlap, the order in which the database returns the rows
  does not matter.
\<close>

lemma authorize_order:
  assumes "mset (permissions d') = mset (permissions d)"
    and "devices d' = devices d" and "services d' = services d"
    and "\<And>r. perms.disjoint (candidate_rows device srv r now d)"
  shows "authorize E now d' device srv m path = authorize E now d device srv m path"
proof -
  have same: "mset (candidate_rows device srv r now d') = mset (candidate_rows device srv r now d)" for r
    using assms(1) by (simp add: candidate_rows_def)
  have "find (\<lambda>p. Match p m path) (candidate_rows device srv r now d') =
      find (\<lambda>p. Match p m path) (candidate_rows device srv r now d)" for r
    using perms.first_match_order [OF assms(4) same, where q = "(m, path)"] by simp
  moreover have "active_device device d' = active_device device d"
    "enabled_service E srv d' = enabled_service E srv d"
    using assms(2,3) by (simp_all add: active_device_def enabled_service_def)
  ultimately show ?thesis by (simp only: authorize_def)
qed

end
