(* ===== verification/Lifecycle.thy ===== *)
theory Lifecycle
  imports Authorize
begin

text \<open>
  \<open>internal/server/requests.go\<close>: the durable requests. A submission becomes a row with an
  encrypted snapshot; the owner decides; a worker claims the row in one transaction, sends
  outside any transaction and records the outcome in a second one; maintenance expires and
  purges; a restart marks interrupted dispatches; revocations cancel what is not yet claimed.

  \<open>now\<close> is \<open>time.Now().Unix()\<close>, read once per operation. Random identifiers and nonces are
  arguments.
\<close>

definition minute :: int where "minute = 60"
definition hour :: int where "hour = 3600"

text \<open>\<open>strconv.Itoa\<close>.\<close>

fun show_nat :: "nat \<Rightarrow> string" where
  "show_nat n = (if n < 10 then [char_of (48 + n)] else show_nat (n div 10) @ [char_of (48 + n mod 10)])"

declare show_nat.simps [simp del]

definition itoa :: "int \<Rightarrow> string" where
  "itoa i = (if i < 0 then ''-'' @ show_nat (nat (- i)) else show_nat (nat i))"

fun status_text :: "status \<Rightarrow> string" where
  "status_text pending_approval = ''pending_approval''"
| "status_text queued = ''queued''"
| "status_text dispatching = ''dispatching''"
| "status_text completed = ''completed''"
| "status_text failed = ''failed''"
| "status_text outcome_unknown = ''outcome_unknown''"
| "status_text denied = ''denied''"
| "status_text expired = ''expired''"
| "status_text cancelled = ''cancelled''"

text \<open>The audit kind of a status change.\<close>

definition request_kind :: "status \<Rightarrow> string" where
  "request_kind st = ''request_'' @ status_text st"

definition credential_ref :: "string \<Rightarrow> int \<Rightarrow> string" where
  "credential_ref srv revision = ''service:'' @ srv @ '':'' @ itoa revision"

definition find_request :: "string \<Rightarrow> db \<Rightarrow> request_row option" where
  "find_request i d = find (\<lambda>r. rq_id r = i) (requests d)"

section \<open>Submitting\<close>

definition pending_count :: "string \<Rightarrow> int \<Rightarrow> db \<Rightarrow> nat" where
  "pending_count device now d =
     length (filter (\<lambda>r. rq_device r = device \<and> rq_status r = pending_approval \<and> now < rq_expires r)
       (requests d))"

definition storage :: error where
  "storage = Err ''storage_unavailable''"

text \<open>The part of \<open>Submit\<close> after the idempotency lookup found nothing.\<close>

definition submit_snapshot ::
    "string \<Rightarrow> Submission \<Rightarrow> service \<Rightarrow> permission \<Rightarrow> string \<Rightarrow> header \<Rightarrow> int \<Rightarrow> Snapshot" where
  "submit_snapshot device inp svc p target headers expiry =
     \<lparr>Version = 1, snap_DeviceID = device, snap_ServiceID = svc_ID svc, ServiceLabel = Label svc,
      snap_Revision = svc_Revision svc, PermissionID = perm_ID p,
      CredentialRef = credential_ref (svc_ID svc) (svc_Revision svc), snap_URL = target,
      snap_Method = sub_Method inp, snap_Path = sub_Path inp, snap_Headers = headers,
      snap_Body = sub_Body inp, snap_Expires = expiry, snap_PrivateCIDR = PrivateCIDR svc\<rparr>"

definition new_row ::
    "'a codec_scheme \<Rightarrow> int \<Rightarrow> string \<Rightarrow> string \<Rightarrow> string \<Rightarrow> Submission \<Rightarrow> Snapshot \<Rightarrow> status \<Rightarrow>
     request_row" where
  "new_row E now i nonce device inp snap st =
     (let b = marshal_snapshot E snap in
      \<lparr>rq_id = i, rq_device = device, rq_service = snap_ServiceID snap,
       rq_revision = snap_Revision snap, rq_permission = PermissionID snap,
       key_hash = Hash E (IdempotencyKey inp), submission_digest = SubmissionDigest E inp,
       snapshot_digest = Digest E b, rq_snapshot = Some (Encrypt E nonce (''request:'' @ i) b),
       rq_status = st, rq_expires = snap_Expires snap, created = now, finished = None,
       rq_result = None, reason = []\<rparr>)"

definition check_pending :: "string \<Rightarrow> int \<Rightarrow> perm_mode \<Rightarrow> (status \<times> int) tx" where
  "check_pending device now m =
     (if m = approval_required then
        bind (or_err storage (query (pending_count device now))) (\<lambda>n.
          if 20 \<le> n then fail (Err ''pending_limit'')
          else ret (pending_approval, now + 10 * minute))
      else ret (queued, now + minute))"

definition submit_new ::
    "'a codec_scheme \<Rightarrow> int \<Rightarrow> string \<Rightarrow> string \<Rightarrow> string \<Rightarrow> Submission \<Rightarrow> string tx" where
  "submit_new E now random nonce device inp =
     bind (or_err (Err ''permission_denied'')
         (Authorize E now device (sub_Service inp) (sub_Method inp) (sub_Path inp))) (\<lambda>(svc, p).
       case ApplicationHeaders inp svc of
         Inl e \<Rightarrow> fail e
       | Inr headers \<Rightarrow>
           (case Target (BaseURL svc) (sub_Path inp) (sub_Query inp) of
              Inl _ \<Rightarrow> fail (Err ''invalid_target'')
            | Inr target \<Rightarrow>
                bind (check_pending device now (Mode p)) (\<lambda>(st, expiry).
                  let snap = submit_snapshot device inp svc p target headers expiry;
                      i = ID ''req_'' random in
                  bind (or_err storage (exec (insert_request (new_row E now i nonce device inp snap st)))) (\<lambda>_.
                  bind (or_err storage (Audit [] device (request_kind st) i)) (\<lambda>_.
                  bind (or_err storage commit) (\<lambda>_. ret i))))))"

definition Submit ::
    "'a codec_scheme \<Rightarrow> int \<Rightarrow> string \<Rightarrow> string \<Rightarrow> string \<Rightarrow> Submission \<Rightarrow> string tx" where
  "Submit E now random nonce device inp0 =
     (case Normalize inp0 of
        Inl e \<Rightarrow> fail e
      | Inr inp \<Rightarrow>
          bind (or_err storage begin_tx) (\<lambda>_.
          bind (ActiveDevice device) (\<lambda>active.
          if \<not> active then fail (Err ''permission_denied'')
          else
            bind (or_err storage (query (\<lambda>d. find (\<lambda>r. rq_device r = device \<and>
                key_hash r = Hash E (IdempotencyKey inp)) (requests d)))) (\<lambda>row.
              case row of
                Some r \<Rightarrow>
                  if SubmissionDigest E inp \<noteq> submission_digest r
                  then fail (Err ''idempotency_conflict'')
                  else ret (rq_id r)
              | None \<Rightarrow> submit_new E now random nonce device inp))))"

section \<open>Reading a request\<close>

definition terminal :: "status \<Rightarrow> bool" where
  "terminal st \<longleftrightarrow> st \<noteq> pending_approval \<and> st \<noteq> queued \<and> st \<noteq> dispatching"

definition next_action :: "status \<Rightarrow> string" where
  "next_action st =
     (if st \<in> {pending_approval, queued, dispatching}
      then ''Call budge_request_status with this request_id. Do not resubmit with a new idempotency key.''
      else if st = outcome_unknown
      then ''The upstream may have performed this request. Check the provider before considering a new request. Budge will not resend it.''
      else [])"

definition poll_after :: "status \<Rightarrow> int" where
  "poll_after st = (if st \<in> {pending_approval, queued, dispatching} then 3000 else 0)"

definition decode_result :: "'a codec_scheme \<Rightarrow> string \<Rightarrow> string option \<Rightarrow> error + Result option" where
  "decode_result E i stored =
     (case stored of
        None \<Rightarrow> Inr None
      | Some c \<Rightarrow>
          if c = [] then Inr None
          else (case Decrypt E (''result:'' @ i) c of
              Inl _ \<Rightarrow> Inl (Err ''result_unavailable'')
            | Inr b \<Rightarrow>
                (case unmarshal_result E b of None \<Rightarrow> Inl DriverErr | Some r \<Rightarrow> Inr (Some r))))"

definition RequestStatus :: "'a codec_scheme \<Rightarrow> string \<Rightarrow> string \<Rightarrow> Status tx" where
  "RequestStatus E device i =
     bind begin_tx (\<lambda>_.
     bind (if device \<noteq> [] then ActiveDevice device else ret True) (\<lambda>active.
     if \<not> active then fail (Err ''request_not_found'')
     else bind (or_err (Err ''request_not_found'') (query (find_request i))) (\<lambda>row.
       case row of
         None \<Rightarrow> fail (Err ''request_not_found'')
       | Some r \<Rightarrow>
           if device \<noteq> [] \<and> rq_device r \<noteq> device then fail (Err ''request_not_found'')
           else (case decode_result E i (rq_result r) of
               Inl e \<Rightarrow> fail e
             | Inr res \<Rightarrow>
                 ret \<lparr>RequestID = rq_id r, st_Status = rq_status r, ExpiresAt = rq_expires r,
                   st_Digest = snapshot_digest r, st_Reason = reason r,
                   NextAction = next_action (rq_status r), PollAfterMS = poll_after (rq_status r),
                   st_Result = res,
                   PayloadPurged = (rq_snapshot r = None \<or> rq_snapshot r = Some [])\<rparr>))))"

text \<open>\<open>Server.snapshot\<close>: the stored snapshot, if it decrypts, has the recorded digest and agrees
  with the columns of its row.\<close>

definition open_snapshot :: "'a codec_scheme \<Rightarrow> request_row \<Rightarrow> error + Snapshot" where
  "open_snapshot E r =
     (case Decrypt E (''request:'' @ rq_id r) (case rq_snapshot r of None \<Rightarrow> [] | Some c \<Rightarrow> c) of
        Inl _ \<Rightarrow> Inl (Err ''snapshot_integrity_failed'')
      | Inr b \<Rightarrow>
          if Digest E b \<noteq> snapshot_digest r then Inl (Err ''snapshot_integrity_failed'')
          else (case unmarshal_snapshot E b of
              None \<Rightarrow> Inl DriverErr
            | Some snap \<Rightarrow>
                if Version snap \<noteq> 1 \<or> snap_DeviceID snap \<noteq> rq_device r \<or>
                   snap_ServiceID snap \<noteq> rq_service r \<or> PermissionID snap \<noteq> rq_permission r \<or>
                   snap_Revision snap \<noteq> rq_revision r \<or> snap_Expires snap \<noteq> rq_expires r \<or>
                   CredentialRef snap \<noteq> credential_ref (rq_service r) (rq_revision r)
                then Inl (Err ''snapshot_integrity_failed'')
                else Inr snap))"

definition load_snapshot :: "'a codec_scheme \<Rightarrow> string \<Rightarrow> Snapshot tx" where
  "load_snapshot E i =
     bind (query (find_request i)) (\<lambda>row.
       case row of
         None \<Rightarrow> fail DriverErr
       | Some r \<Rightarrow> (case open_snapshot E r of Inl e \<Rightarrow> fail e | Inr snap \<Rightarrow> ret snap))"

definition recheck_target :: "service \<Rightarrow> Snapshot \<Rightarrow> error + unit" where
  "recheck_target svc snap =
     (case Parse (snap_URL snap) of
        None \<Rightarrow> Inl DriverErr
      | Some u \<Rightarrow>
          (case Target (BaseURL svc) (snap_Path snap) (RawQuery u) of
             Inl _ \<Rightarrow> Inl (Err ''snapshot_integrity_failed'')
           | Inr target \<Rightarrow>
               if target \<noteq> snap_URL snap \<or> snap_PrivateCIDR snap \<noteq> PrivateCIDR svc
               then Inl (Err ''snapshot_integrity_failed'')
               else Inr ()))"

definition validSnapshot :: "'a codec_scheme \<Rightarrow> int \<Rightarrow> Snapshot \<Rightarrow> service tx" where
  "validSnapshot E now snap =
     bind (or_err (Err ''authorization_changed_or_expired'')
         (Authorize E now (snap_DeviceID snap) (snap_ServiceID snap) (snap_Method snap) (snap_Path snap)))
       (\<lambda>(svc, p).
         if svc_Revision svc \<noteq> snap_Revision snap \<or> perm_ID p \<noteq> PermissionID snap \<or>
            snap_Expires snap \<le> now
         then fail (Err ''authorization_changed_or_expired'')
         else (case recheck_target svc snap of Inl e \<Rightarrow> fail e | Inr _ \<Rightarrow> ret svc))"


section \<open>The owner's decision\<close>

definition set_decided :: "status \<Rightarrow> int option \<Rightarrow> request_row \<Rightarrow> request_row" where
  "set_decided st fin r = r\<lparr>rq_status := st, finished := fin\<rparr>"

definition Decide ::
    "'a codec_scheme \<Rightarrow> int \<Rightarrow> string \<Rightarrow> string \<Rightarrow> string \<Rightarrow> string \<Rightarrow> unit tx" where
  "Decide E now owner i digest dec =
     (if dec \<noteq> ''approve'' \<and> dec \<noteq> ''deny'' then fail (Err ''invalid_decision'')
      else bind begin_tx (\<lambda>_.
        bind (or_err (Err ''request_digest_mismatch'') (query (find_request i))) (\<lambda>row.
          case row of
            None \<Rightarrow> fail (Err ''request_digest_mismatch'')
          | Some r \<Rightarrow>
              if digest \<noteq> snapshot_digest r then fail (Err ''request_digest_mismatch'')
              else if rq_status r \<noteq> pending_approval then fail (Err ''request_not_pending'')
              else bind (load_snapshot E i) (\<lambda>snap.
                bind (validSnapshot E now snap) (\<lambda>_.
                  let nxt = (if dec = ''deny'' then denied else queued);
                      fin = (if dec = ''deny'' then Some now else None) in
                  bind (exec (insert_approval \<lparr>ap_request = i, decided_by = owner,
                      ap_digest = digest, decision = dec\<rparr>)) (\<lambda>_.
                  bind (exec (\<lambda>d. Some (update_requests
                      (\<lambda>x. rq_id x = i \<and> rq_status x = pending_approval) (set_decided nxt fin) d))) (\<lambda>_.
                  bind (Audit owner (snap_DeviceID snap) (request_kind nxt) i) (\<lambda>_.
                  commit))))))))"

section \<open>Dispatching\<close>

definition set_finished :: "status \<Rightarrow> string \<Rightarrow> string option \<Rightarrow> int \<Rightarrow> request_row \<Rightarrow> request_row" where
  "set_finished st why res now r =
     r\<lparr>rq_status := st, reason := why, rq_result := res, finished := Some now\<rparr>"

definition encrypt_result :: "'a codec_scheme \<Rightarrow> string \<Rightarrow> string \<Rightarrow> Result option \<Rightarrow> string option" where
  "encrypt_result E nonce i res =
     map_option (\<lambda>r. Encrypt E nonce (''result:'' @ i) (marshal_result E r)) res"

definition finishTx :: "'a codec_scheme \<Rightarrow> int \<Rightarrow> string \<Rightarrow> string \<Rightarrow> status \<Rightarrow> string \<Rightarrow>
    Result option \<Rightarrow> unit tx" where
  "finishTx E now nonce i st why res =
     ignore (bind (exec (\<lambda>d. Some (update_requests (\<lambda>x. rq_id x = i)
         (set_finished st why (encrypt_result E nonce i res) now) d))) (\<lambda>_.
       bind (Audit [] [] (request_kind st) i) (\<lambda>_. commit)))"

definition finish :: "'a codec_scheme \<Rightarrow> int \<Rightarrow> string \<Rightarrow> string \<Rightarrow> status \<Rightarrow> string \<Rightarrow>
    Result option \<Rightarrow> unit tx" where
  "finish E now nonce i st why res =
     ignore (bind begin_tx (\<lambda>_. finishTx E now nonce i st why res))"

definition approval_count :: "string \<Rightarrow> db \<Rightarrow> nat" where
  "approval_count i d =
     length (filter (\<lambda>a. ap_request a = i \<and> decision a = ''approve'' \<and>
         (\<exists>r \<in> set (requests d). rq_id r = i \<and> ap_digest a = snapshot_digest r)) (approvals d))"

text \<open>
  The first transaction of \<open>dispatch\<close>. \<open>Some\<close> is a claim: the row is durably \<open>dispatching\<close> and
  the request is to be sent. Every other path returns without a claim; storage errors are
  silent returns.
\<close>

definition mark_dispatching :: "string \<Rightarrow> db \<Rightarrow> db" where
  "mark_dispatching i = update_requests (\<lambda>x. rq_id x = i \<and> rq_status x = queued)
     (\<lambda>r. r\<lparr>rq_status := dispatching\<rparr>)"

definition claim_approved :: "'a codec_scheme \<Rightarrow> int \<Rightarrow> string \<Rightarrow> Snapshot \<Rightarrow> bool tx" where
  "claim_approved E now i snap =
     bind (query (\<lambda>d. find (\<lambda>p. perm_ID p = PermissionID snap) (permissions d))) (\<lambda>row.
       case row of
         None \<Rightarrow> fail DriverErr
       | Some p \<Rightarrow>
           if Mode p = approval_required
           then bind (query (approval_count i)) (\<lambda>n. ret (n = 1))
           else ret True)"

definition attempt :: "'a tx \<Rightarrow> (error + 'a) tx" where
  "attempt m s = (case m s of (r, s') \<Rightarrow> (Inr r, s'))"

definition claim_send :: "'a codec_scheme \<Rightarrow> int \<Rightarrow> string \<Rightarrow> Snapshot \<Rightarrow> service \<Rightarrow>
    (Snapshot \<times> service) option tx" where
  "claim_send E now i snap svc =
     bind (claim_approved E now i snap) (\<lambda>ok.
       if \<not> ok
       then bind (finishTx E now [] i failed ''approval_digest_mismatch'' None) (\<lambda>_. ret None)
       else bind (exec (\<lambda>d. Some (mark_dispatching i d))) (\<lambda>_.
         bind (Audit [] (snap_DeviceID snap) ''request_dispatching'' i) (\<lambda>_.
         bind commit (\<lambda>_. ret (Some (snap, svc))))))"

definition claim_snapshot :: "'a codec_scheme \<Rightarrow> int \<Rightarrow> string \<Rightarrow> Snapshot \<Rightarrow>
    (Snapshot \<times> service) option tx" where
  "claim_snapshot E now i snap =
     bind (attempt (validSnapshot E now snap)) (\<lambda>v.
       case v of
         Inl _ \<Rightarrow> bind (finishTx E now [] i cancelled ''authorization_changed_or_expired'' None)
             (\<lambda>_. ret None)
       | Inr svc \<Rightarrow> claim_send E now i snap svc)"

definition dispatch_claim :: "'a codec_scheme \<Rightarrow> int \<Rightarrow> string \<Rightarrow> (Snapshot \<times> service) option tx" where
  "dispatch_claim E now i =
     bind begin_tx (\<lambda>_.
     bind (query (find_request i)) (\<lambda>row.
       if (case row of None \<Rightarrow> True | Some r \<Rightarrow> rq_status r \<noteq> queued) then ret None
       else bind (attempt (load_snapshot E i)) (\<lambda>sn.
         case sn of
           Inl _ \<Rightarrow> bind (finishTx E now [] i failed ''snapshot_integrity_failed'' None) (\<lambda>_. ret None)
         | Inr snap \<Rightarrow> claim_snapshot E now i snap)))"

text \<open>
  The length of \<open>json.Marshal(string(b))\<close> for valid UTF-8: two quotes, the two-byte escapes, the
  six-byte escapes of control bytes, of \<open><\<close>, \<open>>\<close>, \<open>&\<close> and of U+2028 and U+2029.
\<close>

fun quoted_body :: "string \<Rightarrow> nat" where
  "quoted_body [] = 0"
| "quoted_body (c # s) =
     (if byte_of c = 226 \<and> 2 \<le> length s \<and> byte_of (s ! 0) = 128 \<and> byte_of (s ! 1) \<in> {168, 169}
      then 6 + quoted_body (drop 2 s)
      else if byte_of c \<in> {8, 9, 10, 12, 13, 34, 92} then 2 + quoted_body s
      else if byte_of c < 32 \<or> c \<in> set ''<>&'' then 6 + quoted_body s
      else 1 + quoted_body s)"

definition quoted_length :: "string \<Rightarrow> nat" where
  "quoted_length b = 2 + quoted_body b"

definition result_limit :: nat where
  "result_limit = 1048576"

text \<open>
  The result kept of a response: at most 1 MiB of the body, as text when it is UTF-8 whose JSON
  form is not larger than base64, otherwise in base64. A read error counts when it comes
  before the limit reader ends.
\<close>

definition read_failed :: "response \<Rightarrow> bool" where
  "read_failed res \<longleftrightarrow> \<not> snd (ResBody res) \<and> length (fst (ResBody res)) < result_limit + 1"

definition make_result :: "service \<Rightarrow> response \<Rightarrow> Result" where
  "make_result svc res =
     (let raw = take (result_limit + 1) (fst (ResBody res));
          b = take result_limit raw;
          text = (valid_utf8 b \<and> quoted_length b \<le> (length b * 4) div 3 + 16) in
      \<lparr>HTTPStatus = StatusCode res,
       res_Headers = Headers (ResHeader res) (ResponseHeaders svc) (AuthHeader svc),
       res_Body = (if text then b else StdEncoding b),
       Encoding = (if text then ''utf-8'' else ''base64''),
       Truncated = (result_limit < length raw),
       Incomplete = read_failed res\<rparr>)"

definition outcome_of :: "service \<Rightarrow> sent \<Rightarrow> status \<times> string \<times> Result option" where
  "outcome_of svc x =
     (case x of
        NotSent \<Rightarrow> (failed, ''request_not_sent'', None)
      | SendErr \<Rightarrow> (outcome_unknown, ''connection_lost_check_provider'', None)
      | Sent res \<Rightarrow>
          if read_failed res
          then (outcome_unknown, ''incomplete_response_check_provider'', Some (make_result svc res))
          else (completed, [], Some (make_result svc res)))"

text \<open>
  After the claim: decrypt the credential, send, record. The result pairs the request handed
  to the transport, if any, with the transaction that records the outcome at time \<open>now'\<close>.
\<close>

definition dispatch_request :: "'a codec_scheme \<Rightarrow> Snapshot \<Rightarrow> service \<Rightarrow> outgoing option" where
  "dispatch_request E snap svc =
     (case Decrypt E (CredentialRef snap) (Credential svc) of
        Inl _ \<Rightarrow> None
      | Inr secret \<Rightarrow>
          build_request svc (snap_Method snap) (snap_URL snap) (snap_Headers snap) (snap_Body snap) secret)"

definition dispatch_outcome ::
    "'a codec_scheme \<Rightarrow> Snapshot \<Rightarrow> service \<Rightarrow> (outgoing \<Rightarrow> exchange) \<Rightarrow> status \<times> string \<times> Result option" where
  "dispatch_outcome E snap svc do_exchange =
     (case Decrypt E (CredentialRef snap) (Credential svc) of
        Inl _ \<Rightarrow> (failed, ''credential_unavailable'', None)
      | Inr secret \<Rightarrow>
          outcome_of svc (Send svc (snap_Method snap) (snap_URL snap) (snap_Headers snap)
            (snap_Body snap) secret do_exchange))"

definition dispatch_record :: "'a codec_scheme \<Rightarrow> int \<Rightarrow> string \<Rightarrow> string \<Rightarrow> Snapshot \<Rightarrow> service \<Rightarrow>
    (outgoing \<Rightarrow> exchange) \<Rightarrow> unit tx" where
  "dispatch_record E now' nonce i snap svc do_exchange =
     (case dispatch_outcome E snap svc do_exchange of
        (st, why, res) \<Rightarrow> finish E now' nonce i st why res)"

text \<open>\<open>dispatch\<close> without interleaving: claim, then send and record.\<close>

definition dispatch :: "'a codec_scheme \<Rightarrow> int \<Rightarrow> int \<Rightarrow> string \<Rightarrow> string \<Rightarrow> (outgoing \<Rightarrow> exchange) \<Rightarrow>
    unit tx" where
  "dispatch E now now' nonce i do_exchange =
     ignore (bind (dispatch_claim E now i) (\<lambda>c.
       case c of
         None \<Rightarrow> ret ()
       | Some (snap, svc) \<Rightarrow> dispatch_record E now' nonce i snap svc do_exchange))"

section \<open>Expiry, recovery and cancellation\<close>

text \<open>The loop shared by the bulk updates: per id, one update and one audit entry.\<close>

fun for_each :: "(string \<Rightarrow> unit tx) \<Rightarrow> string list \<Rightarrow> unit tx" where
  "for_each f [] = ret ()"
| "for_each f (i # is) = bind (f i) (\<lambda>_. for_each f is)"

definition close_request :: "status \<Rightarrow> string \<Rightarrow> int \<Rightarrow> string \<Rightarrow> unit tx" where
  "close_request st why now i =
     bind (exec (\<lambda>d. Some (update_requests (\<lambda>x. rq_id x = i)
         (\<lambda>r. r\<lparr>rq_status := st, reason := why, finished := Some now\<rparr>) d)))
       (\<lambda>_. Audit [] [] (request_kind st) i)"

definition overdue :: "int \<Rightarrow> db \<Rightarrow> string list" where
  "overdue now d = map rq_id (filter (\<lambda>r. rq_status r \<in> {pending_approval, queued} \<and>
     rq_expires r \<le> now) (requests d))"

definition purgeable :: "int \<Rightarrow> request_row \<Rightarrow> bool" where
  "purgeable now r \<longleftrightarrow> (case finished r of None \<Rightarrow> False | Some t \<Rightarrow> t < now - 24 * hour) \<and>
     rq_status r \<notin> {pending_approval, queued, dispatching}"

definition purge :: "request_row \<Rightarrow> request_row" where
  "purge r = r\<lparr>rq_snapshot := None, rq_result := None\<rparr>"

definition maintenance :: "int \<Rightarrow> unit tx" where
  "maintenance now =
     ignore (bind begin_tx (\<lambda>_.
       bind (query_rows (overdue now)) (\<lambda>(ids, _).
       bind (for_each (close_request expired ''deadline_elapsed'' now) ids) (\<lambda>_.
       bind (exec (\<lambda>d. Some (update_requests (purgeable now) purge d))) (\<lambda>_.
       bind (ignore (exec (\<lambda>d. Some (d\<lparr>sessions := filter (\<lambda>s. now < ses_expires s) (sessions d)\<rparr>)))) (\<lambda>_.
       commit))))))"

definition recoverDispatches :: "int \<Rightarrow> unit tx" where
  "recoverDispatches now =
     bind begin_tx (\<lambda>_.
     bind (query_rows (\<lambda>d. map rq_id (filter (\<lambda>r. rq_status r = dispatching) (requests d)))) (\<lambda>(ids, _).
     bind (for_each (close_request outcome_unknown
         ''server_restarted_during_dispatch_check_provider'' now) ids) (\<lambda>_.
     commit)))"

datatype scope = device_id | service_id | permission_id

fun in_scope :: "scope \<Rightarrow> string \<Rightarrow> request_row \<Rightarrow> bool" where
  "in_scope device_id i r = (rq_device r = i)"
| "in_scope service_id i r = (rq_service r = i)"
| "in_scope permission_id i r = (rq_permission r = i)"

text \<open>\<open>cancelRequests\<close>; the column names the callers pass are the constructors of \<open>scope\<close>.\<close>

definition cancelRequests :: "int \<Rightarrow> scope \<Rightarrow> string \<Rightarrow> string \<Rightarrow> unit tx" where
  "cancelRequests now col i why =
     bind (query_rows (\<lambda>d. map rq_id (filter (\<lambda>r. in_scope col i r \<and>
         rq_status r \<in> {pending_approval, queued}) (requests d)))) (\<lambda>(ids, _).
     for_each (close_request cancelled why now) ids)"

definition revoke_device_row :: "string \<Rightarrow> unit tx" where
  "revoke_device_row i =
     exec (\<lambda>d. Some (update_devices (\<lambda>x. dev_id x = i) (\<lambda>r. r\<lparr>dev_revoked := True\<rparr>) d))"

definition RecoverRestored :: "int \<Rightarrow> unit tx" where
  "RecoverRestored now =
     bind begin_tx (\<lambda>_.
     bind (query_rows (\<lambda>d. map dev_id (devices d))) (\<lambda>(ids, _).
     bind (for_each (\<lambda>i. bind (revoke_device_row i)
         (\<lambda>_. cancelRequests now device_id i ''restored_database_recovery'')) ids) (\<lambda>_.
     bind (exec (\<lambda>d. Some (d\<lparr>sessions := []\<rparr>))) (\<lambda>_.
     bind (Audit [] [] ''restored_database_access_invalidated'' []) (\<lambda>_.
     commit)))))"

end
