(* ===== verification/Owner.thy ===== *)
theory Owner
  imports Lifecycle
begin

text \<open>
  The owner's operations of \<open>internal/server/owner.go\<close>: services are created, revised and
  disabled; permissions are granted and revoked; devices are revoked. A form is the function
  \<open>PostForm.Get\<close>, which gives the empty string for a missing field.
\<close>

type_synonym form = "string \<Rightarrow> string"

section \<open>Header lists\<close>

fun header_list_loop :: "string \<Rightarrow> string list \<Rightarrow> string list \<Rightarrow> error + string list" where
  "header_list_loop cred out [] = Inr out"
| "header_list_loop cred out (n0 # names) =
     (let n = CanonicalHeaderKey (TrimSpace n0) in
      if \<not> HeaderName n \<or> Reserved n \<or> EqualFold n cred
      then Inl (Err ''reserved or invalid application header'')
      else header_list_loop cred (if n \<in> set out then out else out @ [n]) names)"

definition headerList :: "'a codec_scheme \<Rightarrow> string \<Rightarrow> string list \<Rightarrow> string \<Rightarrow> error + string" where
  "headerList E raw defaults credential =
     (case header_list_loop credential [] (if raw \<noteq> [] then Split CHR '','' raw else defaults) of
        Inl e \<Rightarrow> Inl e
      | Inr out \<Rightarrow> Inr (marshal_strings E out))"

section \<open>Services\<close>

record service_form =
  sf_id :: string
  sf_label :: string
  sf_base_url :: string
  sf_auth :: string
  sf_credential :: string
  sf_header :: string
  sf_request_headers :: string
  sf_response_headers :: string
  sf_private_cidr :: string

text \<open>The switch on the authentication mode: the credential to store, or the error.\<close>

definition check_auth :: "string \<Rightarrow> string \<Rightarrow> string \<Rightarrow> error + string" where
  "check_auth auth credential header =
     (if auth = ''none'' then Inr []
      else if auth = ''bearer'' then
        (if credential = [] then Inl (Err ''credential required'') else Inr credential)
      else if auth = ''header'' then
        (if credential = [] \<or> \<not> HeaderName header \<or> Reserved header
         then Inl (Err ''invalid authentication header'') else Inr credential)
      else if auth = ''basic'' then
        (if CHR '':'' \<notin> set credential
         then Inl (Err ''basic credential requires username:password'') else Inr credential)
      else Inl (Err ''unsupported authentication''))"

text \<open>The checks of \<open>addService\<close> before its transaction, in their order.\<close>

definition service_input :: "'a codec_scheme \<Rightarrow> form \<Rightarrow> error + service_form" where
  "service_input E f =
     (if \<not> Slug (f ''id'') \<or> 100 < length (f ''label'') then Inl (Err ''invalid service identity'')
      else case Base (f ''base_url'') of Inl e \<Rightarrow> Inl e
      | Inr _ \<Rightarrow>
        if \<not> HeaderValue (f ''credential'') then Inl (Err ''invalid credential'')
        else case check_auth (f ''auth'') (f ''credential'') (CanonicalHeaderKey (f ''auth_header'')) of
          Inl e \<Rightarrow> Inl e
        | Inr credential \<Rightarrow>
          let header = (if f ''auth'' \<noteq> ''header'' then [] else CanonicalHeaderKey (f ''auth_header'')) in
          case headerList E (f ''request_headers'') [''Accept'', ''Content-Type''] header of
            Inl e \<Rightarrow> Inl e
          | Inr req \<Rightarrow>
            (case headerList E (f ''response_headers'')
                 [''Content-Type'', ''Content-Encoding'', ''Retry-After''] header of
               Inl e \<Rightarrow> Inl e
             | Inr res \<Rightarrow>
               (case CIDR (f ''private_cidr'') of
                  Inl e \<Rightarrow> Inl e
                | Inr _ \<Rightarrow>
                  Inr \<lparr>sf_id = f ''id'', sf_label = f ''label'', sf_base_url = f ''base_url'',
                    sf_auth = f ''auth'', sf_credential = credential, sf_header = header,
                    sf_request_headers = req, sf_response_headers = res,
                    sf_private_cidr = f ''private_cidr''\<rparr>)))"

definition service_row_of :: "service_form \<Rightarrow> int \<Rightarrow> string \<Rightarrow> service_row" where
  "service_row_of sf revision encrypted =
     \<lparr>sv_id = sf_id sf, sv_label = sf_label sf, base_url = sf_base_url sf,
      sv_revision = revision, enabled = True, sv_auth = sf_auth sf, sv_credential = encrypted,
      auth_header_col = sf_header sf, request_headers = sf_request_headers sf,
      response_headers = sf_response_headers sf, private_cidr = sf_private_cidr sf\<rparr>"

definition next_revision :: "bool \<Rightarrow> string \<Rightarrow> int tx" where
  "next_revision revise i =
     (if \<not> revise then ret 1
      else bind (or_err (Err ''service not found'')
          (query (\<lambda>d. find (\<lambda>r. sv_id r = i) (services d)))) (\<lambda>row.
        case row of None \<Rightarrow> fail (Err ''service not found'') | Some r \<Rightarrow> ret (sv_revision r + 1)))"

definition save_service :: "service_row \<Rightarrow> unit tx" where
  "save_service r =
     or_err (Err ''service could not be saved; verify its ID'')
       (if sv_revision r = 1 then exec (insert_service r)
        else exec (\<lambda>d. Some (update_services (\<lambda>x. sv_id x = sv_id r) (\<lambda>_. r) d)))"

definition addService ::
    "'a codec_scheme \<Rightarrow> int \<Rightarrow> string \<Rightarrow> string \<Rightarrow> bool \<Rightarrow> form \<Rightarrow> unit tx" where
  "addService E now nonce owner revise f =
     (case service_input E f of
        Inl e \<Rightarrow> fail e
      | Inr sf \<Rightarrow>
          bind (or_err (Err ''storage unavailable'') begin_tx) (\<lambda>_.
          bind (next_revision revise (sf_id sf)) (\<lambda>revision.
            let encrypted = Encrypt E nonce (credential_ref (sf_id sf) revision) (sf_credential sf) in
            bind (save_service (service_row_of sf revision encrypted)) (\<lambda>_.
            bind (if 1 < revision then cancelRequests now service_id (sf_id sf) ''service_revised''
                  else ret ()) (\<lambda>_.
            bind (Audit owner [] (if revise then ''service_revised'' else ''service_created'') (sf_id sf)) (\<lambda>_.
            commit))))))"

section \<open>Permissions\<close>

record permission_form =
  pf_methods :: string
  pf_path :: string
  pf_kind :: path_kind
  pf_mode :: perm_mode
  pf_expiry :: "int option"

definition kind_of :: "string \<Rightarrow> path_kind option" where
  "kind_of k = (if k = [] \<or> k = ''exact'' then Some exact else if k = ''subtree'' then Some subtree
     else None)"

definition mode_of :: "string \<Rightarrow> perm_mode option" where
  "mode_of m = (if m = [] \<or> m = ''standing'' then Some standing
     else if m = ''approval_required'' then Some approval_required else None)"

definition expiry_of :: "'a codec_scheme \<Rightarrow> int \<Rightarrow> string \<Rightarrow> error + int option" where
  "expiry_of E now raw =
     (if raw = [] then Inr None
      else case parse_rfc3339 E raw of
        None \<Rightarrow> Inl (Err ''expiry must be a future RFC3339 timestamp'')
      | Some t \<Rightarrow> if now < t then Inr (Some t)
          else Inl (Err ''expiry must be a future RFC3339 timestamp''))"

definition permission_input :: "'a codec_scheme \<Rightarrow> int \<Rightarrow> form \<Rightarrow> error + permission_form" where
  "permission_input E now f =
     (case Methods (f ''method'') of
        Inl _ \<Rightarrow> Inl (Err ''unsupported method or path'')
      | Inr methods \<Rightarrow>
          if \<not> Path (f ''path'') then Inl (Err ''unsupported method or path'')
          else (case (kind_of (f ''path_kind''), mode_of (f ''mode'')) of
              (Some kind, Some mode) \<Rightarrow>
                (case expiry_of E now (f ''expires'') of
                   Inl e \<Rightarrow> Inl e
                 | Inr expiry \<Rightarrow> Inr \<lparr>pf_methods = methods, pf_path = f ''path'', pf_kind = kind,
                     pf_mode = mode, pf_expiry = expiry\<rparr>)
            | _ \<Rightarrow> Inl (Err ''invalid permission kind or mode'')))"

definition permission_row_of ::
    "permission_form \<Rightarrow> string \<Rightarrow> string \<Rightarrow> string \<Rightarrow> int \<Rightarrow> string \<Rightarrow> permission_row" where
  "permission_row_of pf i device srv revision owner =
     \<lparr>perm_ID = i, DeviceID = device, ServiceID = srv, PMethod = pf_methods pf,
      PPath = pf_path pf, Kind = pf_kind pf, Mode = pf_mode pf, Owner = owner,
      perm_Revision = revision, Expires = pf_expiry pf, perm_revoked = False\<rparr>"

definition addPermission ::
    "'a codec_scheme \<Rightarrow> int \<Rightarrow> string \<Rightarrow> string \<Rightarrow> form \<Rightarrow> unit tx" where
  "addPermission E now random owner f =
     (case permission_input E now f of
        Inl e \<Rightarrow> fail e
      | Inr pf \<Rightarrow>
          bind begin_tx (\<lambda>_.
          bind (or_err (Err ''active service and device required'') (GetService E (f ''service''))) (\<lambda>svc.
          bind (ActiveDevice (f ''device'')) (\<lambda>active.
          if \<not> active then fail (Err ''active service and device required'')
          else
            let row = permission_row_of pf (ID ''perm_'' random) (f ''device'') (svc_ID svc)
                        (svc_Revision svc) owner in
            bind (query_rows (candidate_rows (f ''device'') (svc_ID svc) (svc_Revision svc) now))
              (\<lambda>(rows, cut).
                if cut then fail DriverErr
                else if list_ex (Overlap row) rows then fail (Err ''permission overlaps an active rule'')
                else
                  bind (or_err (Err ''permission could not be created'')
                      (exec (insert_permission row))) (\<lambda>_.
                  bind (Audit owner (f ''device'') ''permission_created'' (perm_ID row)) (\<lambda>_.
                  commit)))))))"

section \<open>Revocation\<close>

text \<open>An update together with \<open>RowsAffected\<close>.\<close>

definition exec_count :: "(db \<Rightarrow> nat) \<Rightarrow> (db \<Rightarrow> db) \<Rightarrow> nat tx" where
  "exec_count n f s =
     (if next_fault s = Fail then (Inl DriverErr, tick s)
      else (Inr (n (working s)), (tick s)\<lparr>working := f (working s)\<rparr>))"

definition revokePermission :: "int \<Rightarrow> string \<Rightarrow> string \<Rightarrow> unit tx" where
  "revokePermission now owner i =
     bind begin_tx (\<lambda>_.
     bind (exec_count (\<lambda>d. length (filter (\<lambda>p. perm_ID p = i) (permissions d)))
         (update_permissions (\<lambda>p. perm_ID p = i) (\<lambda>p. p\<lparr>perm_revoked := True\<rparr>))) (\<lambda>n.
     if n = 0 then fail (Err ''permission not found'')
     else
       bind (cancelRequests now permission_id i ''permission_revoked'') (\<lambda>_.
       bind (Audit owner [] ''permission_revoked'' i) (\<lambda>_. commit))))"

definition disableService :: "int \<Rightarrow> string \<Rightarrow> string \<Rightarrow> unit tx" where
  "disableService now owner i =
     bind begin_tx (\<lambda>_.
     bind (exec_count (\<lambda>d. length (filter (\<lambda>r. sv_id r = i) (services d)))
         (update_services (\<lambda>r. sv_id r = i)
            (\<lambda>r. r\<lparr>enabled := False, sv_revision := sv_revision r + 1\<rparr>))) (\<lambda>n.
     if n = 0 then fail (Err ''service not found'')
     else
       bind (cancelRequests now service_id i ''service_disabled'') (\<lambda>_.
       bind (Audit owner [] ''service_disabled'' i) (\<lambda>_. commit))))"

definition revoke :: "int \<Rightarrow> string \<Rightarrow> string \<Rightarrow> unit tx" where
  "revoke now owner i =
     bind begin_tx (\<lambda>_.
     bind (exec_count (\<lambda>d. length (filter (\<lambda>r. dev_id r = i) (devices d)))
         (update_devices (\<lambda>r. dev_id r = i) (\<lambda>r. r\<lparr>dev_revoked := True\<rparr>))) (\<lambda>n.
     if n = 0 then fail DriverErr
     else
       bind (cancelRequests now device_id i ''device_revoked'') (\<lambda>_.
       bind (Audit owner i ''device_revoked'' i) (\<lambda>_. commit))))"

end
