(* ===== verification/Server.thy ===== *)
theory Server
  imports Owner Limiter
begin

text \<open>
  \<open>internal/server/server.go\<close>, with the transactions of \<open>tls.go\<close>, \<open>renewal.go\<close> and the
  sessions of \<open>owner.go\<close>: how a device is invited, enrolled and renewed, how the owner logs in,
  and the direct service requests of a device (\<open>/s/{service}/{path}\<close>).

  Issuing a certificate for a signing request, and reading the serial number and the expiry
  back from it, belong to \<open>crypto/x509\<close> and are arguments.
\<close>

section \<open>Invitations and certificates\<close>

definition Invitation ::
    "'a crypto_scheme \<Rightarrow> int \<Rightarrow> string \<Rightarrow> string \<Rightarrow> string \<Rightarrow> string \<Rightarrow> (string \<times> string) tx" where
  "Invitation E now random1 random2 owner label =
     (let i = ID ''dev_'' random1; secret = ID [] random2 in
      bind begin_tx (\<lambda>_.
      bind (exec (insert_device \<lparr>dev_id = i, dev_label = label, dev_revoked = False,
          certificate_serial = [], certificate_expires = 0\<rparr>)) (\<lambda>_.
      bind (exec (insert_invitation \<lparr>inv_hash = Hash E secret, inv_device = i,
          inv_expires = now + 5 * minute, inv_used = False\<rparr>)) (\<lambda>_.
      bind (Audit owner i ''invitation_created'' i) (\<lambda>_.
      bind commit (\<lambda>_. ret (i, secret)))))))"

text \<open>The device an unused, unexpired invitation stands for.\<close>

definition invited_device :: "'a crypto_scheme \<Rightarrow> int \<Rightarrow> string \<Rightarrow> db \<Rightarrow> string option" where
  "invited_device E now secret d =
     map_option inv_device (find (\<lambda>v. inv_hash v = Hash E secret \<and> \<not> inv_used v \<and> now < inv_expires v \<and>
       active_device (inv_device v) d) (invitations d))"

definition use_invitation :: "'a crypto_scheme \<Rightarrow> string \<Rightarrow> db \<Rightarrow> db" where
  "use_invitation E secret d = d\<lparr>invitations := map (\<lambda>v. if inv_hash v = Hash E secret
     then v\<lparr>inv_used := True\<rparr> else v) (invitations d)\<rparr>"

definition set_certificate :: "string \<Rightarrow> string \<times> int \<Rightarrow> db \<Rightarrow> db" where
  "set_certificate i cert = update_devices (\<lambda>r. dev_id r = i)
     (\<lambda>r. r\<lparr>certificate_serial := fst cert, certificate_expires := snd cert\<rparr>)"

definition unavailable :: error where
  "unavailable = Err ''storage_unavailable''"

definition enroll_tx :: "'a crypto_scheme \<Rightarrow> (string \<Rightarrow> string \<Rightarrow> string option) \<Rightarrow>
    (string \<Rightarrow> (string \<times> int) option) \<Rightarrow> int \<Rightarrow> string \<Rightarrow> string \<Rightarrow> (string \<times> string) tx" where
  "enroll_tx E issue parse now secret csr =
     bind (or_err unavailable begin_tx) (\<lambda>_.
     bind (or_err (Err ''invitation_invalid'') (query (invited_device E now secret))) (\<lambda>row.
       case row of
         None \<Rightarrow> fail (Err ''invitation_invalid'')
       | Some i \<Rightarrow>
           (case issue i csr of
              None \<Rightarrow> fail (Err ''invalid_csr'')
            | Some cert \<Rightarrow>
                bind (or_err unavailable (exec (\<lambda>d. Some (use_invitation E secret d)))) (\<lambda>_.
                case parse cert of
                  None \<Rightarrow> fail (Err ''certificate_failed'')
                | Some c \<Rightarrow>
                    bind (or_err unavailable (exec (\<lambda>d. Some (set_certificate i c d)))) (\<lambda>_.
                    bind (or_err unavailable (Audit [] i ''enrolled'' i)) (\<lambda>_.
                    bind (or_err unavailable commit) (\<lambda>_. ret (i, cert))))))))"

definition renew_tx :: "(string \<Rightarrow> string \<Rightarrow> string option) \<Rightarrow> (string \<Rightarrow> (string \<times> int) option) \<Rightarrow>
    string \<Rightarrow> string \<Rightarrow> (string \<times> string) tx" where
  "renew_tx issue parse device csr =
     bind (or_err unavailable begin_tx) (\<lambda>_.
     bind (ActiveDevice device) (\<lambda>active.
     if \<not> active then fail (Err ''device_revoked'')
     else (case issue device csr of
         None \<Rightarrow> fail (Err ''invalid_csr'')
       | Some cert \<Rightarrow>
           (case parse cert of
              None \<Rightarrow> fail (Err ''certificate_failed'')
            | Some c \<Rightarrow>
                bind (or_err unavailable (exec (\<lambda>d. Some (set_certificate device c d)))) (\<lambda>_.
                bind (or_err unavailable (Audit [] device ''certificate_renewed'' device)) (\<lambda>_.
                bind (or_err unavailable commit) (\<lambda>_. ret (device, cert))))))))"

section \<open>Single statements\<close>

text \<open>A statement outside a transaction commits at once (\<open>s.Store.DB.Exec\<close>).\<close>

definition exec_now :: "(db \<Rightarrow> db option) \<Rightarrow> unit tx" where
  "exec_now f s =
     (if next_fault s = Fail then (Inl DriverErr, tick s)
      else (case f (committed s) of
          None \<Rightarrow> (Inl DriverErr, tick s)
        | Some d \<Rightarrow> (Inr (), (tick s)\<lparr>committed := d\<rparr>)))"

definition query_now :: "(db \<Rightarrow> 'b) \<Rightarrow> 'b tx" where
  "query_now f s = (if next_fault s = Fail then (Inl DriverErr, tick s) else (Inr (f (committed s)), tick s))"

section \<open>Starting\<close>

text \<open>
  The database side of \<open>New\<close>: the first start creates the owner (\<open>hash\<close> is what
  \<open>store.Password\<close> makes of the password), then interrupted dispatches are recovered.
\<close>

definition create_owner :: "string \<Rightarrow> string \<Rightarrow> string \<Rightarrow> unit tx" where
  "create_owner password i hash =
     bind (query_now (\<lambda>d. length (owners d))) (\<lambda>n.
       if n \<noteq> 0 then ret ()
       else if length password < 12
         then fail (Err ''first setup requires an owner password of at least 12 characters'')
       else exec_now (insert_owner \<lparr>ow_id = ID ''owner_'' i, password_hash = hash\<rparr>))"

definition New_tx :: "int \<Rightarrow> string \<Rightarrow> string \<Rightarrow> string \<Rightarrow> unit tx" where
  "New_tx now password i hash =
     bind (create_owner password i hash) (\<lambda>_. recoverDispatches now)"

section \<open>The owner's sessions\<close>

text \<open>\<open>login\<close>; \<open>CheckPassword\<close> is given as the predicate \<open>check\<close> on the stored hash.\<close>

definition login_tx :: "'a crypto_scheme \<Rightarrow> (string \<Rightarrow> string \<Rightarrow> bool) \<Rightarrow> int \<Rightarrow> string \<Rightarrow> string \<Rightarrow> string \<Rightarrow>
    string tx" where
  "login_tx E check now password random1 random2 =
     bind (or_err (Err ''invalid_login'') (query_now (\<lambda>d. case owners d of [] \<Rightarrow> None | ow # _ \<Rightarrow> Some ow)))
       (\<lambda>row. case row of
          None \<Rightarrow> fail (Err ''invalid_login'')
        | Some ow \<Rightarrow>
            if \<not> check (password_hash ow) password then fail (Err ''invalid_login'')
            else
              bind (or_err unavailable (exec_now (insert_session \<lparr>ses_hash = Hash E (ID [] random1),
                ses_owner = ow_id ow, ses_csrf = ID [] random2, ses_expires = now + 8 * hour\<rparr>)))
                (\<lambda>_. ret (ID [] random1)))"

definition logout_tx :: "'a crypto_scheme \<Rightarrow> string \<Rightarrow> unit tx" where
  "logout_tx E cookie =
     exec_now (\<lambda>d. Some (d\<lparr>sessions := filter (\<lambda>s. ses_hash s \<noteq> Hash E cookie) (sessions d)\<rparr>))"

text \<open>The owner and the form token of a session cookie; no row, or an error, leaves both empty.\<close>

definition session_of :: "'a crypto_scheme \<Rightarrow> int \<Rightarrow> string \<Rightarrow> db \<Rightarrow> string \<times> string" where
  "session_of E now cookie d =
     (case find (\<lambda>s. ses_hash s = Hash E cookie \<and> now < ses_expires s) (sessions d) of
        None \<Rightarrow> ([], [])
      | Some s \<Rightarrow> (ses_owner s, ses_csrf s))"

section \<open>Direct service requests\<close>

text \<open>
  The transaction of \<open>DeviceHandler\<close> for \<open>/s/{service}/{path}\<close>: authorize, require a standing
  permission, fix the target, record the claim. The errors carry the codes of the responses.
\<close>

definition http_claim :: "'a codec_scheme \<Rightarrow> int \<Rightarrow> string \<Rightarrow> string \<Rightarrow> string \<Rightarrow> string \<Rightarrow> string \<Rightarrow>
    (service \<times> permission \<times> string) tx" where
  "http_claim E now device srv m path raw_query =
     bind (or_err unavailable begin_tx) (\<lambda>_.
     bind (or_err (Err ''permission_denied'') (Authorize E now device srv m path)) (\<lambda>(svc, p).
       if Mode p \<noteq> standing then fail (Err ''approval_required'')
       else (case Target (BaseURL svc) path raw_query of
           Inl _ \<Rightarrow> fail (Err ''invalid_request'')
         | Inr target \<Rightarrow>
             bind (or_err unavailable (Audit [] device ''http_claim'' (perm_ID p))) (\<lambda>_.
             bind (or_err unavailable commit) (\<lambda>_. ret (svc, p, target))))))"

text \<open>What is handed to the transport after the claim.\<close>

definition http_request :: "'a codec_scheme \<Rightarrow> service \<Rightarrow> string \<Rightarrow> string \<Rightarrow> header \<Rightarrow> string \<Rightarrow>
    outgoing option" where
  "http_request E svc m target h body =
     (case Decrypt E (credential_ref (svc_ID svc) (svc_Revision svc)) (Credential svc) of
        Inl _ \<Rightarrow> None
      | Inr secret \<Rightarrow> build_request svc m target h body secret)"

text \<open>The status code that the handlers send with an error.\<close>

definition enroll_code :: "string \<Rightarrow> int" where
  "enroll_code e =
     (if e = ''throttled'' then 429 else if e = ''invalid_enrollment'' then 400
      else if e = ''invitation_invalid'' then 403 else if e = ''invalid_csr'' then 400
      else if e = ''certificate_failed'' then 500 else 503)"

definition submit_code :: "string \<Rightarrow> int" where
  "submit_code e =
     (if e = ''pending_limit'' then 429 else if e = ''permission_denied'' then 403
      else if e = ''idempotency_conflict'' then 409 else 400)"

definition http_code :: "string \<Rightarrow> int" where
  "http_code e =
     (if e = ''permission_denied'' then 403 else if e = ''approval_required'' then 403
      else if e = ''invalid_request'' then 400 else 503)"

end
