(* ===== verification/Lifecycle_Facts.thy ===== *)
theory Lifecycle_Facts
  imports Lifecycle
begin

text \<open>
  What the executions of the operations of \<open>Lifecycle\<close> do to the database: for each operation a
  rule \<open>runs_...\<close> that gives, for a run that returns normally, the guards that held on the
  committed database and the new committed database, for any sequence of storage faults.
\<close>

section \<open>Reading operations\<close>

lemma reads_load_snapshot [tx_rules]: "reads (load_snapshot E i)"
  unfolding load_snapshot_def
  by (intro tx_rules)

lemma runs_load_snapshot [runs]:
  "runs (load_snapshot E i) c w snap c' w' \<Longrightarrow>
     c' = c \<and> w' = w \<and> (\<exists>r. find_request i w = Some r \<and> open_snapshot E r = Inr snap)"
  unfolding load_snapshot_def
  by (auto dest!: runs split: option.splits sum.splits)

definition valid_snapshot :: "'a codec_scheme \<Rightarrow> int \<Rightarrow> db \<Rightarrow> Snapshot \<Rightarrow> service \<Rightarrow> bool" where
  "valid_snapshot E now d snap svc \<longleftrightarrow>
     (\<exists>p. authorize E now d (snap_DeviceID snap) (snap_ServiceID snap) (snap_Method snap)
         (snap_Path snap) = Some (svc, p) \<and> perm_ID p = PermissionID snap) \<and>
     svc_Revision svc = snap_Revision snap \<and> now < snap_Expires snap \<and>
     recheck_target svc snap = Inr ()"

lemma perm_ID_truncate [simp]: "perm_ID (permission.truncate p) = perm_ID p"
    "Mode (permission.truncate p) = Mode p"
  by (simp_all add: permission.truncate_def)

lemma reads_validSnapshot [tx_rules]: "reads (validSnapshot E now snap)"
  unfolding validSnapshot_def
  by (intro tx_rules)

lemma runs_validSnapshot [runs]:
  "runs (validSnapshot E now snap) c w svc c' w' \<Longrightarrow>
     c' = c \<and> w' = w \<and> valid_snapshot E now w snap svc"
  unfolding validSnapshot_def valid_snapshot_def
  by (auto dest!: runs split: prod.splits sum.splits if_splits)

lemmas quiet_snapshots [tx_rules] = reads_load_snapshot [THEN reads_quiet]
  reads_validSnapshot [THEN reads_quiet]

lemma quiet_RequestStatus [tx_rules]: "quiet (RequestStatus E device i)"
  unfolding RequestStatus_def
  by (intro tx_rules)

lemma runs_attempt:
  assumes "runs (attempt m) c w r c' w'" and "reads m"
  shows "c' = c \<and> w' = w \<and> (\<forall>x. r = Inr x \<longrightarrow> runs m c w x c w)"
proof -
  from assms(1) obtain s s' where s: "committed s = c" "working s = w" "m s = (r, s')"
      "committed s' = c'" "working s' = w'"
    unfolding runs_def attempt_def by (metis (no_types, lifting) case_prod_conv prod.collapse
        prod.inject sum.inject(2))
  with assms(2) have "c' = c" "w' = w"
    unfolding reads_def by (metis snd_conv)+
  with s show ?thesis by (auto simp: runs_def)
qed

section \<open>Submitting\<close>

lemma runs_check_pending [runs]:
  "runs (check_pending device now m) c w x c' w' \<Longrightarrow>
     c' = c \<and> w' = w \<and>
     (if m = approval_required then pending_count device now w < 20 \<and>
        x = (pending_approval, now + 10 * minute) else x = (queued, now + minute))"
  unfolding check_pending_def
  by (auto dest!: runs split: if_splits)

text \<open>What a submission that creates a row does.\<close>

definition admitted :: "'a codec_scheme \<Rightarrow> int \<Rightarrow> string \<Rightarrow> string \<Rightarrow> string \<Rightarrow> Submission \<Rightarrow>
    db \<Rightarrow> request_row \<Rightarrow> bool" where
  "admitted E now random nonce device inp d r \<longleftrightarrow>
     (\<exists>svc p headers target st expiry.
        authorize E now d device (sub_Service inp) (sub_Method inp) (sub_Path inp) = Some (svc, p) \<and>
        ApplicationHeaders inp svc = Inr headers \<and>
        Target (BaseURL svc) (sub_Path inp) (sub_Query inp) = Inr target \<and>
        (if Mode p = approval_required
         then pending_count device now d < 20 \<and> st = pending_approval \<and> expiry = now + 10 * minute
         else st = queued \<and> expiry = now + minute) \<and>
        r = new_row E now (ID ''req_'' random) nonce device inp
              (submit_snapshot device inp svc (permission.truncate p) target headers expiry) st)"

lemma rq_status_new_row [simp]: "rq_status (new_row E now i nonce device inp snap st) = st"
  "rq_id (new_row E now i nonce device inp snap st) = i"
  by (simp_all add: new_row_def Let_def)

lemma runs_submit_new:
  assumes "runs (submit_new E now random nonce device inp) c w i c' w'"
  shows "i = ID ''req_'' random \<and> (\<exists>r d.
     admitted E now random nonce device inp w r \<and> insert_request r w = Some d \<and>
     c' = audited [] device (request_kind (rq_status r)) i d)"
proof -
  from assms obtain svc p headers target st expiry r d where
    *: "authorize E now w device (sub_Service inp) (sub_Method inp) (sub_Path inp) = Some (svc, p)"
      "ApplicationHeaders inp svc = Inr headers"
      "Target (BaseURL svc) (sub_Path inp) (sub_Query inp) = Inr target"
      "if Mode p = approval_required
         then pending_count device now w < 20 \<and> (st, expiry) = (pending_approval, now + 10 * minute)
         else (st, expiry) = (queued, now + minute)"
      "r = new_row E now (ID ''req_'' random) nonce device inp
              (submit_snapshot device inp svc (permission.truncate p) target headers expiry) st"
      and ins: "insert_request r w = Some d" "i = ID ''req_'' random"
        "c' = audited [] device (request_kind st) i d"
    unfolding submit_new_def
    by (clarsimp dest!: runs split: prod.splits sum.splits simp: Let_def)
  have "admitted E now random nonce device inp w r"
    unfolding admitted_def using * by (auto split: if_splits)
  with ins *(5) show ?thesis by auto
qed

lemma runs_Submit:
  assumes "runs (Submit E now random nonce device inp0) c w i c' w'"
  obtains inp where "Normalize inp0 = Inr inp" "active_device device c"
    and "(\<exists>r. find (\<lambda>r. rq_device r = device \<and> key_hash r = Hash E (IdempotencyKey inp)) (requests c) = Some r \<and>
            submission_digest r = SubmissionDigest E inp \<and> i = rq_id r \<and> c' = c) \<or>
         (find (\<lambda>r. rq_device r = device \<and> key_hash r = Hash E (IdempotencyKey inp)) (requests c) = None \<and>
          (\<exists>r d. admitted E now random nonce device inp c r \<and> i = ID ''req_'' random \<and> insert_request r c = Some d \<and>
            c' = audited [] device (request_kind (rq_status r)) i d))"
proof -
  from assms obtain inp where inp: "Normalize inp0 = Inr inp"
    unfolding Submit_def by (auto dest!: runs split: sum.splits)
  with assms show ?thesis
    unfolding Submit_def
    by (intro that [OF inp]) (auto dest!: runs runs_submit_new split: if_splits option.splits, blast?)
qed

section \<open>Deciding\<close>

lemma runs_Decide:
  assumes "runs (Decide E now owner i digest dec) c w x c' w'"
  obtains r snap svc d where "dec = ''approve'' \<or> dec = ''deny''" "find_request i c = Some r"
    "digest = snapshot_digest r" "rq_status r = pending_approval" "open_snapshot E r = Inr snap"
    "valid_snapshot E now c snap svc"
    "insert_approval \<lparr>ap_request = i, decided_by = owner, ap_digest = digest, decision = dec\<rparr> c = Some d"
    "c' = audited owner (snap_DeviceID snap) (request_kind (if dec = ''deny'' then denied else queued)) i
       (update_requests (\<lambda>x. rq_id x = i \<and> rq_status x = pending_approval)
          (set_decided (if dec = ''deny'' then denied else queued) (if dec = ''deny'' then Some now else None)) d)"
  using assms unfolding Decide_def
  by (clarsimp dest!: runs split: if_splits option.splits simp: Let_def) 

lemma safe_Decide: "safe (Decide E now owner i digest dec)"
  unfolding Decide_def Let_def
  by (intro tx_rules)

section \<open>Dispatching\<close>

definition finished_db :: "'a codec_scheme \<Rightarrow> int \<Rightarrow> string \<Rightarrow> string \<Rightarrow> status \<Rightarrow> string \<Rightarrow>
    Result option \<Rightarrow> db \<Rightarrow> db" where
  "finished_db E now nonce i st why res d =
     audited [] [] (request_kind st) i
       (update_requests (\<lambda>x. rq_id x = i) (set_finished st why (encrypt_result E nonce i res) now) d)"

lemma runs_finishTx:
  assumes "runs (finishTx E now nonce i st why res) c w x c' w'"
  shows "c' = c \<or> c' = finished_db E now nonce i st why res w"
proof -
  let ?m = "bind (exec (\<lambda>d. Some (update_requests (\<lambda>x. rq_id x = i)
         (set_finished st why (encrypt_result E nonce i res) now) d))) (\<lambda>_.
       bind (Audit [] [] (request_kind st) i) (\<lambda>_. commit))"
  have "safe ?m" by (intro tx_rules)
  from runs_ignore [OF assms [unfolded finishTx_def] this] show ?thesis
    by (auto dest!: runs simp: finished_db_def)
qed

lemma runs_finish:
  assumes "runs (finish E now nonce i st why res) c w x c' w'"
  shows "c' = c \<or> c' = finished_db E now nonce i st why res c"
proof -
  have "safe (bind begin_tx (\<lambda>_. finishTx E now nonce i st why res))"
    unfolding finishTx_def by (intro tx_rules)
  from runs_ignore [OF assms [unfolded finish_def] this] show ?thesis
    by (auto dest!: runs runs_finishTx)
qed

lemma reads_claim_approved: "reads (claim_approved E now i snap)"
  unfolding claim_approved_def
  by (intro tx_rules)

definition approved :: "string \<Rightarrow> Snapshot \<Rightarrow> db \<Rightarrow> bool" where
  "approved i snap d \<longleftrightarrow>
     (\<exists>p. find (\<lambda>p. perm_ID p = PermissionID snap) (permissions d) = Some p \<and>
        (Mode p = approval_required \<longrightarrow> approval_count i d = 1))"

lemma runs_claim_approved [runs]:
  "runs (claim_approved E now i snap) c w ok c' w' \<Longrightarrow>
     c' = c \<and> w' = w \<and> (ok \<longrightarrow> approved i snap w)"
  unfolding claim_approved_def approved_def
  by (auto dest!: runs split: option.splits if_splits)

definition claimed_db :: "string \<Rightarrow> Snapshot \<Rightarrow> db \<Rightarrow> db" where
  "claimed_db i snap d =
     audited [] (snap_DeviceID snap) ''request_dispatching'' i (mark_dispatching i d)"

definition claimable :: "'a codec_scheme \<Rightarrow> int \<Rightarrow> string \<Rightarrow> Snapshot \<Rightarrow> service \<Rightarrow> db \<Rightarrow> bool" where
  "claimable E now i snap svc d \<longleftrightarrow>
     (\<exists>r. find_request i d = Some r \<and> rq_status r = queued \<and> open_snapshot E r = Inr snap) \<and>
     valid_snapshot E now d snap svc \<and> approved i snap d"

text \<open>The ways in which a claim ends the request instead.\<close>

definition rejected :: "'a codec_scheme \<Rightarrow> int \<Rightarrow> string \<Rightarrow> db \<Rightarrow> db \<Rightarrow> bool" where
  "rejected E now i d d' \<longleftrightarrow>
     d' = d \<or> (\<exists>st why. st \<in> {failed, cancelled} \<and> d' = finished_db E now [] i st why None d)"

lemma rejectedI [simp]:
  "rejected E now i d d" "rejected E now i d (finished_db E now [] i failed why None d)"
  "rejected E now i d (finished_db E now [] i cancelled why None d)"
  by (auto simp: rejected_def)

lemma runs_claim_send [runs]:
  "runs (claim_send E now i snap svc) c c x c' w' \<Longrightarrow>
     case x of None \<Rightarrow> rejected E now i c c'
     | Some y \<Rightarrow> y = (snap, svc) \<and> approved i snap c \<and> c' = claimed_db i snap c"
  unfolding claim_send_def claimed_db_def
  by (auto dest!: runs runs_finishTx split: if_splits)

lemma runs_attempt_read [runs]:
  "runs (attempt (load_snapshot E i)) c w r c' w' \<Longrightarrow> c' = c \<and> w' = w \<and>
     (\<forall>snap. r = Inr snap \<longrightarrow> (\<exists>q. find_request i w = Some q \<and> open_snapshot E q = Inr snap))"
  "runs (attempt (validSnapshot E now sn)) c w v c' w' \<Longrightarrow> c' = c \<and> w' = w \<and>
     (\<forall>svc. v = Inr svc \<longrightarrow> valid_snapshot E now w sn svc)"
  by (drule runs_attempt, rule tx_rules, auto dest!: runs)+

lemma runs_claim_snapshot [runs]:
  "runs (claim_snapshot E now i snap) c c x c' w' \<Longrightarrow>
     case x of None \<Rightarrow> rejected E now i c c'
     | Some (sn, svc) \<Rightarrow> sn = snap \<and> valid_snapshot E now c snap svc \<and> approved i snap c \<and>
         c' = claimed_db i snap c"
  unfolding claim_snapshot_def
  apply (drule runs_bind, elim exE conjE, drule runs_attempt_read, elim conjE)
  by (auto dest!: runs runs_finishTx split: sum.splits option.splits)

lemma runs_dispatch_claim:
  assumes "runs (dispatch_claim E now i) c w x c' w'"
  shows "case x of
     Some (snap, svc) \<Rightarrow> claimable E now i snap svc c \<and> c' = claimed_db i snap c
   | None \<Rightarrow> c' = c \<or>
       (\<exists>r. find_request i c = Some r \<and> rq_status r = queued \<and> rejected E now i c c')"
proof (cases "\<exists>r. find_request i c = Some r \<and> rq_status r = queued")
  case False
  with assms show ?thesis
    unfolding dispatch_claim_def by (auto dest!: runs split: option.splits)
next
  case True
  then obtain r where r: "find_request i c = Some r" "rq_status r = queued" by blast
  from assms obtain sn where sn: "runs (attempt (load_snapshot E i)) c c sn c c" and
    rest: "runs (case sn of
         Inl _ \<Rightarrow> bind (finishTx E now [] i failed ''snapshot_integrity_failed'' None) (\<lambda>_. ret None)
       | Inr snap \<Rightarrow> claim_snapshot E now i snap) c c x c' w'"
    unfolding dispatch_claim_def using r
    by (auto dest!: runs_bind runs_begin_tx runs_query) (metis runs_attempt_read(1))
  show ?thesis
  proof (cases sn)
    case (Inl e)
    with rest r show ?thesis
      by (auto dest!: runs runs_finishTx)
  next
    case (Inr snap)
    with sn r have "open_snapshot E r = Inr snap"
      by (auto dest!: runs)
    with rest r Inr show ?thesis
      by (auto dest!: runs split: option.splits simp: claimable_def)
  qed
qed

section \<open>Bulk updates\<close>

lemma update_requests_simps [simp]:
  "requests (update_requests P f d) = map (\<lambda>r. if P r then f r else r) (requests d)"
  "permissions (update_requests P f d) = permissions d" "devices (update_requests P f d) = devices d"
  "services (update_requests P f d) = services d" "approvals (update_requests P f d) = approvals d"
  "owners (update_requests P f d) = owners d" "sessions (update_requests P f d) = sessions d"
  "invitations (update_requests P f d) = invitations d"
  by (simp_all add: update_requests_def)

definition closed :: "status \<Rightarrow> string \<Rightarrow> int \<Rightarrow> request_row \<Rightarrow> request_row" where
  "closed st why now r = r\<lparr>rq_status := st, reason := why, finished := Some now\<rparr>"

definition close_one :: "status \<Rightarrow> string \<Rightarrow> int \<Rightarrow> string \<Rightarrow> db \<Rightarrow> db" where
  "close_one st why now i d =
     audited [] [] (request_kind st) i (update_requests (\<lambda>x. rq_id x = i) (closed st why now) d)"

definition close_all :: "status \<Rightarrow> string \<Rightarrow> int \<Rightarrow> string list \<Rightarrow> db \<Rightarrow> db" where
  "close_all st why now ids d = fold (close_one st why now) ids d"

lemma close_all_simps [simp]:
  "permissions (close_all st why now ids d) = permissions d" "devices (close_all st why now ids d) = devices d"
  "services (close_all st why now ids d) = services d" "approvals (close_all st why now ids d) = approvals d"
  "owners (close_all st why now ids d) = owners d" "sessions (close_all st why now ids d) = sessions d"
  "invitations (close_all st why now ids d) = invitations d"
  by (induction ids arbitrary: d; simp add: close_all_def close_one_def)+

lemma rq_id_closed [simp]: "rq_id (closed st why now r) = rq_id r"
  "closed st why now (closed st why now r) = closed st why now r"
  by (simp_all add: closed_def)

lemma requests_close_all [simp]:
  "requests (close_all st why now ids d) =
     map (\<lambda>r. if rq_id r \<in> set ids then closed st why now r else r) (requests d)"
proof (induction ids arbitrary: d)
  case (Cons i ids)
  have "requests (close_all st why now (i # ids) d) =
      requests (close_all st why now ids (close_one st why now i d))"
    by (simp add: close_all_def)
  then show ?case by (auto simp: Cons.IH close_one_def)
qed (simp add: close_all_def)

lemma quiet_for_each [tx_rules]: "(\<And>i. quiet (f i)) \<Longrightarrow> quiet (for_each f ids)"
  by (induction ids) (auto intro!: tx_rules)

lemma quiet_close_request [tx_rules]: "quiet (close_request st why now i)"
  unfolding close_request_def by (intro tx_rules)

lemma runs_close_request [runs]:
  "runs (close_request st why now i) c w x c' w' \<Longrightarrow> c' = c \<and> w' = close_one st why now i w"
  unfolding close_request_def close_one_def
  by (auto dest!: runs simp: closed_def [abs_def])

lemma runs_close_all [runs]:
  "runs (for_each (close_request st why now) ids) c w x c' w' \<Longrightarrow>
     c' = c \<and> w' = close_all st why now ids w"
  by (induction ids arbitrary: w) (auto dest!: runs simp: close_all_def)

text \<open>
  The ids that a bulk update works on: a prefix of the matching rows, all of them unless the
  row iteration was cut short.
\<close>

definition cut_of :: "'a list \<Rightarrow> 'a list \<Rightarrow> bool" where
  "cut_of ids full \<longleftrightarrow> (\<exists>n. ids = take n full)"

lemma cut_of_refl [simp]: "cut_of xs xs"
  unfolding cut_of_def by (rule exI [of _ "length xs"]) simp

lemma cut_of_take [simp]: "cut_of (take n xs) xs"
  by (auto simp: cut_of_def)

lemma cut_of_subset: "cut_of ids full \<Longrightarrow> x \<in> set ids \<Longrightarrow> x \<in> set full"
  by (auto simp: cut_of_def dest: in_set_takeD)

lemma runs_rows [runs]:
  "runs (query_rows f) c w (ids, b) c' w' \<Longrightarrow> c' = c \<and> w' = w \<and> cut_of ids (f w)"
  by (drule runs_query_rows) auto

definition cancellable :: "scope \<Rightarrow> string \<Rightarrow> db \<Rightarrow> string list" where
  "cancellable col i d = map rq_id (filter (\<lambda>r. in_scope col i r \<and>
     rq_status r \<in> {pending_approval, queued}) (requests d))"

lemma cancelRequests_alt:
  "cancelRequests now col i why =
     bind (query_rows (cancellable col i)) (\<lambda>(ids, _). for_each (close_request cancelled why now) ids)"
  by (simp add: cancelRequests_def cancellable_def [abs_def])

lemma quiet_cancelRequests [tx_rules]: "quiet (cancelRequests now col i why)"
  unfolding cancelRequests_alt by (intro tx_rules)

lemma runs_cancelRequests [runs]:
  "runs (cancelRequests now col i why) c w x c' w' \<Longrightarrow>
     c' = c \<and> (\<exists>ids. cut_of ids (cancellable col i w) \<and> w' = close_all cancelled why now ids w)"
  unfolding cancelRequests_alt
  by (auto dest!: runs_bind runs_rows runs_close_all split: prod.splits)

section \<open>Maintenance and recovery\<close>

definition without_sessions :: "(session_row \<Rightarrow> bool) \<Rightarrow> db \<Rightarrow> db" where
  "without_sessions P d = d\<lparr>sessions := filter (\<lambda>s. \<not> P s) (sessions d)\<rparr>"

lemma without_sessions_simps [simp]:
  "requests (without_sessions P d) = requests d" "permissions (without_sessions P d) = permissions d"
  "devices (without_sessions P d) = devices d" "services (without_sessions P d) = services d"
  "approvals (without_sessions P d) = approvals d" "owners (without_sessions P d) = owners d"
  "invitations (without_sessions P d) = invitations d"
  by (simp_all add: without_sessions_def)

definition maintained :: "int \<Rightarrow> string list \<Rightarrow> db \<Rightarrow> db" where
  "maintained now ids d = update_requests (purgeable now) purge (close_all expired ''deadline_elapsed'' now ids d)"

lemma runs_ignored_exec:
  "runs (ignore (exec (\<lambda>d. Some (f d)))) c w x c' w' \<Longrightarrow> c' = c \<and> (w' = w \<or> w' = f w)"
  by (auto simp: runs_def ignore_def exec_def split: if_splits)

lemma runs_maintenance:
  assumes "runs (maintenance now) c w x c' w'"
  shows "c' = c \<or> (\<exists>ids P. cut_of ids (overdue now c) \<and>
     (c' = maintained now ids c \<or> c' = without_sessions (\<lambda>s. ses_expires s \<le> now) (maintained now ids c)))"
proof -
  have "safe (bind begin_tx (\<lambda>_.
       bind (query_rows (overdue now)) (\<lambda>(ids, _).
       bind (for_each (close_request expired ''deadline_elapsed'' now) ids) (\<lambda>_.
       bind (exec (\<lambda>d. Some (update_requests (purgeable now) purge d))) (\<lambda>_.
       bind (ignore (exec (\<lambda>d. Some (d\<lparr>sessions := filter (\<lambda>s. now < ses_expires s) (sessions d)\<rparr>)))) (\<lambda>_.
       commit))))))"
    by (intro tx_rules)
  from runs_ignore [OF assms [unfolded maintenance_def] this] show ?thesis
    by (auto dest!: runs runs_ignored_exec simp: maintained_def without_sessions_def not_le)
qed

definition interrupted :: "db \<Rightarrow> string list" where
  "interrupted d = map rq_id (filter (\<lambda>r. rq_status r = dispatching) (requests d))"

lemma runs_recoverDispatches:
  assumes "runs (recoverDispatches now) c w x c' w'"
  shows "\<exists>ids. cut_of ids (interrupted c) \<and>
     c' = close_all outcome_unknown ''server_restarted_during_dispatch_check_provider'' now ids c"
  using assms unfolding recoverDispatches_def interrupted_def [abs_def, symmetric]
  by (auto dest!: runs)

lemma safe_recoverDispatches: "safe (recoverDispatches now)"
  unfolding recoverDispatches_def by (intro tx_rules)

text \<open>An invariant of the working copy is kept by a loop whose body keeps it.\<close>

lemma runs_for_each_inv:
  assumes "runs (for_each f ids) c w x c' w'" and "I w"
    and "\<And>i v y c1 v'. i \<in> set ids \<Longrightarrow> I v \<Longrightarrow> runs (f i) c v y c1 v' \<Longrightarrow> c1 = c \<and> I v'"
  shows "c' = c \<and> I w'"
  using assms
proof (induction ids arbitrary: w)
  case Nil
  then show ?case by (auto dest!: runs)
next
  case (Cons i ids)
  from Cons.prems(1) obtain y c1 w1 where 1: "runs (f i) c w y c1 w1" "runs (for_each f ids) c1 w1 x c' w'"
    by (auto dest!: runs_bind)
  with Cons.prems(2,3) have "c1 = c" "I w1" by (metis list.set_intros(1))+
  with 1 Cons.IH [of w1] Cons.prems(3) show ?case by (metis list.set_intros(2))
qed

lemma update_devices_simps [simp]:
  "devices (update_devices P f d) = map (\<lambda>r. if P r then f r else r) (devices d)"
  "permissions (update_devices P f d) = permissions d" "requests (update_devices P f d) = requests d"
  "services (update_devices P f d) = services d" "approvals (update_devices P f d) = approvals d"
  "owners (update_devices P f d) = owners d" "sessions (update_devices P f d) = sessions d"
  "invitations (update_devices P f d) = invitations d"
  by (simp_all add: update_devices_def)

definition revoked_row :: "string \<Rightarrow> db \<Rightarrow> db" where
  "revoked_row i d = update_devices (\<lambda>x. dev_id x = i) (\<lambda>r. r\<lparr>dev_revoked := True\<rparr>) d"

lemma runs_revoke_device_row [runs]:
  "runs (revoke_device_row i) c w x c' w' \<Longrightarrow> c' = c \<and> w' = revoked_row i w"
  unfolding revoke_device_row_def revoked_row_def by (auto dest!: runs)

lemma quiet_revoke_device_row [tx_rules]: "quiet (revoke_device_row i)"
  unfolding revoke_device_row_def by (intro tx_rules)

lemma safe_RecoverRestored: "safe (RecoverRestored now)"
  unfolding RecoverRestored_def by (intro tx_rules)

text \<open>The loop over the devices keeps what both of its updates keep.\<close>

lemma runs_RecoverRestored:
  assumes "runs (RecoverRestored now) c w x c' w'"
    and "I c"
    and "\<And>i v. I v \<Longrightarrow> I (revoked_row i v)"
    and "\<And>i v ids. I v \<Longrightarrow> cut_of ids (cancellable device_id i v) \<Longrightarrow>
      I (close_all cancelled ''restored_database_recovery'' now ids v)"
  shows "\<exists>v. I v \<and> c' = audited [] [] ''restored_database_access_invalidated'' [] (v\<lparr>sessions := []\<rparr>)"
proof -
  from assms(1) obtain ids y c1 v where v: "runs (for_each (\<lambda>i. bind (revoke_device_row i)
         (\<lambda>_. cancelRequests now device_id i ''restored_database_recovery'')) ids) c c y c1 v"
    "c' = audited [] [] ''restored_database_access_invalidated'' [] (v\<lparr>sessions := []\<rparr>)"
    unfolding RecoverRestored_def by (auto dest!: runs_bind runs_begin_tx runs_rows runs_exec runs_Audit runs_commit)
  from v(1) assms(2) have "c1 = c \<and> I v"
    by (rule runs_for_each_inv) (use assms(3,4) in \<open>auto dest!: runs\<close>)
  with v(2) show ?thesis by blast
qed

end
