(* ===== verification/Owner_Facts.thy ===== *)
theory Owner_Facts
  imports Owner Lifecycle_Facts
begin

text \<open>
  What the executions of the owner's operations do to the database: the guards that held and the
  committed change, for any sequence of storage faults; and what a header list can hold.
\<close>

section \<open>Revocation\<close>

lemma update_simps [simp]:
  "permissions (update_permissions P f d) = map (\<lambda>r. if P r then f r else r) (permissions d)"
  "devices (update_permissions P f d) = devices d" "requests (update_permissions P f d) = requests d"
  "services (update_permissions P f d) = services d" "approvals (update_permissions P f d) = approvals d"
  "owners (update_permissions P f d) = owners d" "sessions (update_permissions P f d) = sessions d"
  "invitations (update_permissions P f d) = invitations d"
  "services (update_services Q g d) = map (\<lambda>r. if Q r then g r else r) (services d)"
  "devices (update_services Q g d) = devices d" "requests (update_services Q g d) = requests d"
  "permissions (update_services Q g d) = permissions d" "approvals (update_services Q g d) = approvals d"
  "owners (update_services Q g d) = owners d" "sessions (update_services Q g d) = sessions d"
  "invitations (update_services Q g d) = invitations d"
  by (simp_all add: update_permissions_def update_services_def)

lemma quiet_exec_count [tx_rules]: "quiet (exec_count n f)"
  by (simp add: quiet_def exec_count_def)

lemma runs_exec_count [runs]: "runs (exec_count n f) c w x c' w' \<Longrightarrow> c' = c \<and> x = n w \<and> w' = f w"
  by (auto simp: runs_def exec_count_def split: if_splits)

lemma cancellable_update [simp]:
  "cancellable col i (update_permissions P f d) = cancellable col i d"
  "cancellable col i (update_services Q g d) = cancellable col i d"
  "cancellable col i (update_devices R h d) = cancellable col i d"
  by (simp_all add: cancellable_def)

definition permission_revoked :: "string \<Rightarrow> db \<Rightarrow> db" where
  "permission_revoked i = update_permissions (\<lambda>p. perm_ID p = i) (\<lambda>p. p\<lparr>perm_revoked := True\<rparr>)"

lemma runs_revokePermission:
  assumes "runs (revokePermission now owner i) c w x c' w'"
  shows "i \<in> perm_ID ` set (permissions c) \<and> (\<exists>ids. cut_of ids (cancellable permission_id i c) \<and>
    c' = audited owner [] ''permission_revoked'' i
       (close_all cancelled ''permission_revoked'' now ids (permission_revoked i c)))"
  using assms unfolding revokePermission_def permission_revoked_def
  by (clarsimp dest!: runs split: if_splits simp: filter_empty_conv) blast

lemma safe_revokePermission: "safe (revokePermission now owner i)"
  unfolding revokePermission_def by (intro tx_rules)

definition service_disabled :: "string \<Rightarrow> db \<Rightarrow> db" where
  "service_disabled i = update_services (\<lambda>r. sv_id r = i)
     (\<lambda>r. r\<lparr>enabled := False, sv_revision := sv_revision r + 1\<rparr>)"

lemma runs_disableService:
  assumes "runs (disableService now owner i) c w x c' w'"
  shows "i \<in> sv_id ` set (services c) \<and> (\<exists>ids. cut_of ids (cancellable service_id i c) \<and>
    c' = audited owner [] ''service_disabled'' i
       (close_all cancelled ''service_disabled'' now ids (service_disabled i c)))"
  using assms unfolding disableService_def service_disabled_def
  by (clarsimp dest!: runs split: if_splits simp: filter_empty_conv) blast

lemma safe_disableService: "safe (disableService now owner i)"
  unfolding disableService_def by (intro tx_rules)

lemma runs_revoke:
  assumes "runs (revoke now owner i) c w x c' w'"
  shows "i \<in> dev_id ` set (devices c) \<and> (\<exists>ids. cut_of ids (cancellable device_id i c) \<and>
    c' = audited owner i ''device_revoked'' i
       (close_all cancelled ''device_revoked'' now ids (revoked_row i c)))"
  using assms unfolding revoke_def revoked_row_def
  by (clarsimp dest!: runs split: if_splits simp: filter_empty_conv) blast

lemma safe_revoke: "safe (revoke now owner i)"
  unfolding revoke_def by (intro tx_rules)

section \<open>Granting\<close>

definition grantable :: "'a codec_scheme \<Rightarrow> int \<Rightarrow> string \<Rightarrow> string \<Rightarrow> form \<Rightarrow> db \<Rightarrow> permission_row \<Rightarrow> bool" where
  "grantable E now random owner f d row \<longleftrightarrow>
     (\<exists>pf svc. permission_input E now f = Inr pf \<and> enabled_service E (f ''service'') d = Some svc \<and>
        active_device (f ''device'') d \<and>
        row = permission_row_of pf (ID ''perm_'' random) (f ''device'') (svc_ID svc) (svc_Revision svc) owner \<and>
        (\<forall>p \<in> set (candidate_rows (f ''device'') (svc_ID svc) (svc_Revision svc) now d). \<not> Overlap row p))"

lemma runs_addPermission:
  assumes "runs (addPermission E now random owner f) c w x c' w'"
  obtains row d where "grantable E now random owner f c row" "insert_permission row c = Some d"
    "c' = audited owner (f ''device'') ''permission_created'' (perm_ID row) d"
proof -
  from assms obtain pf where pf: "permission_input E now f = Inr pf"
    unfolding addPermission_def by (auto dest!: runs split: sum.splits)
  from assms obtain svc row rows d where
    "enabled_service E (f ''service'') c = Some svc" "active_device (f ''device'') c"
    "row = permission_row_of pf (ID ''perm_'' random) (f ''device'') (svc_ID svc) (svc_Revision svc) owner"
    "\<not> list_ex (Overlap row) (candidate_rows (f ''device'') (svc_ID svc) (svc_Revision svc) now c)"
    and ins: "insert_permission row c = Some d"
    "c' = audited owner (f ''device'') ''permission_created'' (perm_ID row) d"
    unfolding addPermission_def pf Let_def
    by (auto dest!: runs(1-7,9-) runs_query_rows split: if_splits prod.splits)
  with pf have "grantable E now random owner f c row"
    by (auto simp: grantable_def list_ex_iff)
  with ins show ?thesis by (intro that)
qed

lemma safe_addPermission: "safe (addPermission E now random owner f)"
  unfolding addPermission_def Let_def by (intro tx_rules)

section \<open>Services\<close>

text \<open>The revision a saved service gets: 1 for a new one, the next one for a revision.\<close>

definition revises :: "bool \<Rightarrow> string \<Rightarrow> int \<Rightarrow> db \<Rightarrow> bool" where
  "revises revise i n d \<longleftrightarrow>
     (if revise then \<exists>r. find (\<lambda>r. sv_id r = i) (services d) = Some r \<and> n = sv_revision r + 1 else n = 1)"

lemma runs_next_revision [runs]:
  "runs (next_revision revise i) c w n c' w' \<Longrightarrow> c' = c \<and> w' = w \<and> revises revise i n w"
  unfolding next_revision_def revises_def by (auto dest!: runs split: if_splits option.splits)

lemma reads_next_revision: "reads (next_revision revise i)"
  unfolding next_revision_def by (intro tx_rules)

lemmas quiet_next_revision [tx_rules] = reads_next_revision [THEN reads_quiet]

definition saved :: "service_row \<Rightarrow> db \<Rightarrow> db \<Rightarrow> bool" where
  "saved r d d' \<longleftrightarrow>
     (if sv_revision r = 1 then insert_service r d = Some d'
      else d' = update_services (\<lambda>x. sv_id x = sv_id r) (\<lambda>_. r) d)"

lemma runs_save_service [runs]:
  "runs (save_service r) c w x c' w' \<Longrightarrow> c' = c \<and> saved r w w'"
  unfolding save_service_def saved_def by (auto dest!: runs split: if_splits)

lemma quiet_save_service [tx_rules]: "quiet (save_service r)"
  unfolding save_service_def by (intro tx_rules)

lemma quiet_runs: "quiet m \<Longrightarrow> runs m c w x c' w' \<Longrightarrow> c' = c"
  unfolding quiet_def runs_def by (metis snd_conv)

lemma quiet_cancel_step [tx_rules]:
  "quiet (if b then cancelRequests now col i why else ret x)"
  by (intro tx_rules)

lemma runs_addService:
  assumes "runs (addService E now nonce owner revise f) c w x c' w'"
  obtains sf n row d ids where "service_input E f = Inr sf" "revises revise (sf_id sf) n c"
    "row = service_row_of sf n (Encrypt E nonce (credential_ref (sf_id sf) n) (sf_credential sf))"
    "saved row c d" "n \<le> 1 \<longrightarrow> ids = []" "1 < n \<longrightarrow> cut_of ids (cancellable service_id (sf_id sf) d)"
    "c' = audited owner [] (if revise then ''service_revised'' else ''service_created'') (sf_id sf)
       (close_all cancelled ''service_revised'' now ids d)"
proof -
  from assms obtain sf where sf: "service_input E f = Inr sf"
    unfolding addService_def by (auto dest!: runs split: sum.splits)
  have none: "close_all st why now [] d = d" for st why d
    by (simp add: close_all_def)
  from assms obtain n d w1 y where
    n: "revises revise (sf_id sf) n c"
    and s: "saved (service_row_of sf n (Encrypt E nonce (credential_ref (sf_id sf) n) (sf_credential sf))) c d"
    and cancel: "runs (if 1 < n then cancelRequests now service_id (sf_id sf) ''service_revised''
                  else ret ()) c d y c w1"
    and c': "c' = audited owner [] (if revise then ''service_revised'' else ''service_created'') (sf_id sf) w1"
    unfolding addService_def sf Let_def
    by (clarsimp dest!: runs_bind runs_or_err runs_begin_tx runs_next_revision runs_save_service
        runs_Audit runs_commit split del: if_split) (metis quiet_runs quiet_cancel_step)
  show ?thesis
  proof (cases "1 < n")
    case True
    with cancel obtain ids where "cut_of ids (cancellable service_id (sf_id sf) d)"
      "w1 = close_all cancelled ''service_revised'' now ids d"
      by (auto dest!: runs)
    with that [OF sf n refl s, of ids] c' True show ?thesis by simp
  next
    case False
    with cancel have "w1 = close_all cancelled ''service_revised'' now [] d"
      by (auto dest!: runs simp: none)
    with that [OF sf n refl s, of "[]"] c' False show ?thesis by simp
  qed
qed

lemma safe_addService: "safe (addService E now nonce owner revise f)"
  unfolding addService_def Let_def by (intro tx_rules)

end
