(* ===== verification/Evolution.thy ===== *)
theory Evolution
  imports Owner_Facts
begin

text \<open>
  The abstract specification of the request store: the state machine of the statuses, what a row
  keeps for its whole life, and the well-formedness of the database. Every operation refines
  it: whatever the storage faults, a request only moves along \<open>moves\<close>, no row is dropped or
  changes its identity, and well-formedness is kept.
\<close>

section \<open>The state machine of a request\<close>

inductive moves :: "status \<Rightarrow> status \<Rightarrow> bool" where
  moves_approve: "moves pending_approval queued"
| moves_deny: "moves pending_approval denied"
| moves_claim: "moves queued dispatching"
| moves_reject: "moves queued failed"
| moves_expire: "st \<in> {pending_approval, queued} \<Longrightarrow> moves st expired"
| moves_cancel: "st \<in> {pending_approval, queued} \<Longrightarrow> moves st cancelled"
| moves_record: "st \<in> {completed, failed, outcome_unknown} \<Longrightarrow> moves dispatching st"

code_pred moves .

inductive_simps moves_from: "moves pending_approval st" "moves queued st" "moves dispatching st"

lemma terminal_iff: "terminal st \<longleftrightarrow> st \<notin> {pending_approval, queued, dispatching}"
  by (auto simp: terminal_def)

lemma terminal_no_move: "terminal st \<Longrightarrow> \<not> moves st st'"
  by (auto simp: terminal_def elim: moves.cases)

abbreviation leads_to :: "status \<Rightarrow> status \<Rightarrow> bool" where
  "leads_to \<equiv> moves\<^sup>*\<^sup>*"

text \<open>
  The machine has no cycle: what a status leads to is an order on the statuses, given here by cases.
\<close>

instantiation status :: order
begin

definition less_eq_status :: "status \<Rightarrow> status \<Rightarrow> bool" where
  "less_eq_status a b \<longleftrightarrow> a = b \<or> (case a of
      pending_approval \<Rightarrow> True
    | queued \<Rightarrow> b \<notin> {pending_approval, denied}
    | dispatching \<Rightarrow> b \<in> {completed, failed, outcome_unknown}
    | _ \<Rightarrow> False)"

definition less_status :: "status \<Rightarrow> status \<Rightarrow> bool" where
  "less_status a b \<longleftrightarrow> a \<le> b \<and> \<not> b \<le> (a :: status)"

instance
  by standard (auto simp: less_status_def less_eq_status_def split: status.splits)

end

lemma moves_less: "moves a b \<Longrightarrow> a < b"
  by (auto simp: less_status_def less_eq_status_def elim!: moves.cases)

lemma leads_to_le: "leads_to a b \<longleftrightarrow> a \<le> b"
proof
  show "leads_to a b \<Longrightarrow> a \<le> b"
    by (induction rule: rtranclp_induct) (auto dest!: moves_less)
  have step: "moves pending_approval queued" "moves queued dispatching" "moves pending_approval denied"
    "moves queued failed" "moves queued expired" "moves queued cancelled" "moves dispatching completed"
    "moves dispatching failed" "moves dispatching outcome_unknown"
    by (auto intro: moves.intros)
  have "leads_to queued dispatching" using step(2) by blast
  moreover from this have "leads_to queued completed" "leads_to queued outcome_unknown"
    using step by (auto intro: rtranclp.rtrancl_into_rtrancl)
  ultimately have "leads_to queued x" if "x \<notin> {pending_approval, denied}" for x
    using that step by (cases x) auto
  moreover from this have "leads_to pending_approval x" for x
    using step by (cases "x \<in> {pending_approval, denied}") (auto intro: converse_rtranclp_into_rtranclp)
  ultimately show "a \<le> b \<Longrightarrow> leads_to a b"
    using step by (auto simp: less_eq_status_def split: status.splits)
qed

lemma leads_to_antisym: "leads_to a b \<Longrightarrow> leads_to b a \<Longrightarrow> a = b"
  by (simp add: leads_to_le)

lemma leads_to_terminal: "leads_to st st' \<Longrightarrow> terminal st \<Longrightarrow> st' = st"
  by (induction rule: converse_rtranclp_induct) (auto dest: terminal_no_move)

lemma leads_to_dispatching: "leads_to dispatching st \<Longrightarrow> st = dispatching \<or> st \<in> {completed, failed, outcome_unknown}"
  by (induction rule: rtranclp_induct) (auto simp: terminal_def moves_from elim: moves.cases)

text \<open>A request that has been claimed can never be queued again.\<close>

definition unsent :: "status \<Rightarrow> bool" where
  "unsent st \<longleftrightarrow> st \<in> {pending_approval, queued}"

lemma leads_to_unsent: "leads_to st st' \<Longrightarrow> unsent st' \<Longrightarrow> unsent st"
  by (induction rule: rtranclp_induct) (auto simp: unsent_def elim: moves.cases)

section \<open>Tables that only grow\<close>

definition grows :: "('a \<Rightarrow> 'a \<Rightarrow> bool) \<Rightarrow> 'a list \<Rightarrow> 'a list \<Rightarrow> bool" where
  "grows R xs ys \<longleftrightarrow> (\<exists>ys' new. ys = ys' @ new \<and> list_all2 R xs ys')"

lemma grows_refl [simp]: "reflp R \<Longrightarrow> grows R xs xs"
  unfolding grows_def
  by (rule exI [of _ xs], rule exI [of _ "[]"]) (auto intro: list.rel_refl dest: reflpD)

lemma grows_eq [simp]: "grows (=) xs xs"
  by (rule grows_refl) (simp add: reflp_def)

lemma grows_append: "reflp R \<Longrightarrow> grows R xs (xs @ new)"
  unfolding grows_def
  by (rule exI [of _ xs], rule exI [of _ new]) (auto intro: list.rel_refl dest: reflpD)

lemma grows_map: "(\<And>x. x \<in> set xs \<Longrightarrow> R x (f x)) \<Longrightarrow> grows R xs (map f xs)"
  unfolding grows_def by (rule exI [of _ "map f xs"], rule exI [of _ "[]"])
    (simp add: list_all2_conv_all_nth)

lemma grows_trans:
  assumes "transp R" "grows R xs ys" "grows R ys zs"
  shows "grows R xs zs"
proof -
  from assms(2,3) obtain ys' n zs' m where "ys = ys' @ n" "list_all2 R xs ys'" "zs = zs' @ m"
    "list_all2 R ys zs'"
    by (auto simp: grows_def)
  moreover then obtain z1 z2 where "zs' = z1 @ z2" "list_all2 R ys' z1"
    by (auto simp: list_all2_append1)
  ultimately have "zs = z1 @ (z2 @ m)" "list_all2 R xs z1"
    using list_all2_trans [of R R R xs ys' z1] assms(1) by (auto dest: transpD)
  then show ?thesis unfolding grows_def by blast
qed

lemma grows_in:
  assumes "grows R xs ys" "x \<in> set xs"
  shows "\<exists>y \<in> set ys. R x y"
  using assms by (fastforce simp: grows_def list_all2_conv_all_nth in_set_conv_nth nth_append)

section \<open>What a row keeps\<close>

definition same_request :: "request_row \<Rightarrow> request_row \<Rightarrow> bool" where
  "same_request r r' \<longleftrightarrow>
     rq_id r' = rq_id r \<and> rq_device r' = rq_device r \<and> rq_service r' = rq_service r \<and>
     rq_revision r' = rq_revision r \<and> rq_permission r' = rq_permission r \<and>
     key_hash r' = key_hash r \<and> submission_digest r' = submission_digest r \<and>
     snapshot_digest r' = snapshot_digest r \<and> rq_expires r' = rq_expires r \<and>
     created r' = created r \<and> (rq_snapshot r' = rq_snapshot r \<or> rq_snapshot r' = None)"

text \<open>\<open>K\<close> holds the ids of running requests that the step leaves alone.\<close>

definition request_evolves :: "string set \<Rightarrow> request_row \<Rightarrow> request_row \<Rightarrow> bool" where
  "request_evolves K r r' \<longleftrightarrow> same_request r r' \<and> leads_to (rq_status r) (rq_status r') \<and>
     (rq_status r = dispatching \<and> rq_id r \<in> K \<longrightarrow> r' = r)"

definition permission_evolves :: "permission_row \<Rightarrow> permission_row \<Rightarrow> bool" where
  "permission_evolves p p' \<longleftrightarrow> p' = p \<or> p' = p\<lparr>perm_revoked := True\<rparr>"

definition device_evolves :: "device_row \<Rightarrow> device_row \<Rightarrow> bool" where
  "device_evolves r r' \<longleftrightarrow> dev_id r' = dev_id r \<and> (dev_revoked r \<longrightarrow> dev_revoked r')"

definition service_evolves :: "service_row \<Rightarrow> service_row \<Rightarrow> bool" where
  "service_evolves r r' \<longleftrightarrow> sv_id r' = sv_id r \<and> (r' = r \<or> sv_revision r < sv_revision r')"

lemma evolves_preorder [simp, intro]:
  "reflp (request_evolves K)" "transp (request_evolves K)" "reflp permission_evolves"
  "transp permission_evolves" "reflp device_evolves" "transp device_evolves"
  "reflp service_evolves" "transp service_evolves"
  by (auto simp: reflp_def transp_def request_evolves_def same_request_def permission_evolves_def
      device_evolves_def service_evolves_def)

definition evolves :: "string set \<Rightarrow> db \<Rightarrow> db \<Rightarrow> bool" where
  "evolves K d d' \<longleftrightarrow>
     grows (request_evolves K) (requests d) (requests d') \<and> grows (=) (approvals d) (approvals d') \<and>
     grows permission_evolves (permissions d) (permissions d') \<and>
     grows device_evolves (devices d) (devices d') \<and> grows service_evolves (services d) (services d')"

lemma evolves_refl [simp]: "evolves K d d"
  by (simp add: evolves_def)

lemma evolves_trans: "evolves K a b \<Longrightarrow> evolves K b c \<Longrightarrow> evolves K a c"
  unfolding evolves_def
  by (intro conjI; elim conjE; rule grows_trans; (assumption | blast | simp add: transp_def))

lemma evolves_request:
  assumes "evolves K d d'" "r \<in> set (requests d)"
  obtains r' where "r' \<in> set (requests d')" "same_request r r'" "leads_to (rq_status r) (rq_status r')"
  using assms grows_in by (fastforce simp: evolves_def request_evolves_def)

section \<open>Well-formed databases\<close>

definition row_ok :: "request_row \<Rightarrow> bool" where
  "row_ok r \<longleftrightarrow> (finished r \<noteq> None \<longleftrightarrow> terminal (rq_status r)) \<and>
     (rq_snapshot r = None \<longrightarrow> terminal (rq_status r)) \<and>
     (rq_result r \<noteq> None \<longrightarrow> rq_status r \<in> {completed, outcome_unknown})"

definition keyed :: "db \<Rightarrow> bool" where
  "keyed d \<longleftrightarrow> distinct (map rq_id (requests d)) \<and>
     distinct (map (\<lambda>r. (rq_device r, key_hash r)) (requests d)) \<and>
     distinct (map perm_ID (permissions d)) \<and> distinct (map sv_id (services d)) \<and>
     distinct (map dev_id (devices d)) \<and> distinct (map ap_request (approvals d))"

definition linked :: "db \<Rightarrow> bool" where
  "linked d \<longleftrightarrow>
     (\<forall>r \<in> set (requests d). rq_device r \<in> dev_id ` set (devices d) \<and>
        rq_service r \<in> sv_id ` set (services d) \<and> rq_permission r \<in> perm_ID ` set (permissions d)) \<and>
     (\<forall>p \<in> set (permissions d). DeviceID p \<in> dev_id ` set (devices d) \<and>
        ServiceID p \<in> sv_id ` set (services d)) \<and>
     (\<forall>a \<in> set (approvals d). ap_request a \<in> rq_id ` set (requests d))"

text \<open>
  An approval row decides the request it names under the digest of its snapshot, and what ran
  under a permission that asks for approval was approved.
\<close>

definition approved_row :: "db \<Rightarrow> request_row \<Rightarrow> bool" where
  "approved_row d r \<longleftrightarrow> (\<exists>a \<in> set (approvals d). ap_request a = rq_id r \<and>
     decision a = ''approve'' \<and> ap_digest a = snapshot_digest r)"

definition asks :: "db \<Rightarrow> request_row \<Rightarrow> bool" where
  "asks d r \<longleftrightarrow> (\<exists>p \<in> set (permissions d). perm_ID p = rq_permission r \<and> Mode p = approval_required)"

definition decided :: "db \<Rightarrow> bool" where
  "decided d \<longleftrightarrow>
     (\<forall>r \<in> set (requests d). \<forall>a \<in> set (approvals d). ap_request a = rq_id r \<longrightarrow>
        ap_digest a = snapshot_digest r \<and>
        (decision a = ''approve'' \<and> rq_status r \<notin> {pending_approval, denied} \<or>
         decision a = ''deny'' \<and> rq_status r = denied)) \<and>
     (\<forall>r \<in> set (requests d). rq_status r \<in> {queued, dispatching, completed, failed, outcome_unknown} \<and>
        asks d r \<longrightarrow> approved_row d r)"

definition pending_bound :: "int \<Rightarrow> db \<Rightarrow> bool" where
  "pending_bound t d \<longleftrightarrow> (\<forall>device now. t \<le> now \<longrightarrow> pending_count device now d \<le> 20)"

definition grants_disjoint :: "int \<Rightarrow> db \<Rightarrow> bool" where
  "grants_disjoint t d \<longleftrightarrow>
     (\<forall>device srv rv now. t \<le> now \<longrightarrow> perms.disjoint (candidate_rows device srv rv now d))"

definition revisions_ok :: "db \<Rightarrow> bool" where
  "revisions_ok d \<longleftrightarrow> (\<forall>s \<in> set (services d). 1 \<le> sv_revision s \<and>
     (\<forall>p \<in> set (permissions d). ServiceID p = sv_id s \<longrightarrow> perm_Revision p \<le> sv_revision s) \<and>
     (\<forall>r \<in> set (requests d). rq_service r = sv_id s \<longrightarrow> rq_revision r \<le> sv_revision s))"

definition db_inv :: "int \<Rightarrow> db \<Rightarrow> bool" where
  "db_inv t d \<longleftrightarrow> (\<forall>r \<in> set (requests d). row_ok r) \<and> keyed d \<and> linked d \<and> decided d \<and>
     pending_bound t d \<and> grants_disjoint t d \<and> revisions_ok d"

lemma db_inv_later: "db_inv t d \<Longrightarrow> t \<le> t' \<Longrightarrow> db_inv t' d"
  by (auto simp: db_inv_def pending_bound_def grants_disjoint_def)

text \<open>Only five tables matter.\<close>

definition tables :: "db \<Rightarrow> _" where
  "tables d = (requests d, approvals d, permissions d, devices d, services d)"

lemma tables_cong:
  assumes "tables d' = tables d"
  shows "db_inv t d' = db_inv t d" and "evolves K c d' = evolves K c d"
proof -
  have *: "requests d' = requests d" "approvals d' = approvals d" "permissions d' = permissions d"
    "devices d' = devices d" "services d' = services d"
    using assms by (simp_all add: tables_def)
  show "db_inv t d' = db_inv t d"
    unfolding db_inv_def keyed_def linked_def decided_def approved_row_def asks_def pending_bound_def
      pending_count_def grants_disjoint_def candidate_rows_def revisions_ok_def *
    by (rule refl)
  show "evolves K c d' = evolves K c d"
    unfolding evolves_def * by (rule refl)
qed

lemma tables_simps [simp]:
  "tables (audited a b k e d) = tables d" "tables (without_sessions P d) = tables d"
  "tables (d\<lparr>sessions := ss\<rparr>) = tables d"
  by (simp_all add: tables_def)

lemmas db_inv_tables [simp] = tables_cong(1) [OF tables_simps(1)] tables_cong(1) [OF tables_simps(2)]
  tables_cong(1) [OF tables_simps(3)]
lemmas evolves_tables [simp] = tables_cong(2) [OF tables_simps(1)] tables_cong(2) [OF tables_simps(2)]
  tables_cong(2) [OF tables_simps(3)]

lemma unique_id: "distinct (map f xs) \<Longrightarrow> x \<in> set xs \<Longrightarrow> y \<in> set xs \<Longrightarrow> f x = f y \<Longrightarrow> x = y"
  by (auto simp: distinct_map dest: inj_onD)

lemma find_request_in: "find_request i d = Some r \<Longrightarrow> r \<in> set (requests d) \<and> rq_id r = i"
  unfolding find_request_def by (drule find_Some_in)

lemma find_request_unique:
  "keyed d \<Longrightarrow> find_request i d = Some r \<Longrightarrow> x \<in> set (requests d) \<Longrightarrow> rq_id x = i \<longleftrightarrow> x = r"
  using find_request_in [of i d r] unique_id [of rq_id "requests d" x r] by (auto simp: keyed_def)

lemma find_request_iff:
  assumes "keyed d"
  shows "find_request i d = Some r \<longleftrightarrow> r \<in> set (requests d) \<and> rq_id r = i"
proof
  assume "r \<in> set (requests d) \<and> rq_id r = i"
  with assms show "find_request i d = Some r"
    unfolding find_request_def
    by (intro find_unique) (auto simp: keyed_def intro: unique_id)
qed (rule find_request_in)

section \<open>Updates of request rows\<close>

definition advance :: "string set \<Rightarrow> request_row \<Rightarrow> request_row \<Rightarrow> bool" where
  "advance K r r' \<longleftrightarrow> same_request r r' \<and>
     (rq_status r' = rq_status r \<or>
      moves (rq_status r) (rq_status r') \<and> rq_status r' \<notin> {queued, denied}) \<and>
     (row_ok r \<longrightarrow> row_ok r') \<and> (rq_status r = dispatching \<and> rq_id r \<in> K \<longrightarrow> r' = r)"

lemma advance_refl [simp]: "advance K r r"
  by (simp add: advance_def same_request_def)

lemma advance_status:
  "advance K r r' \<Longrightarrow> rq_status r' \<in> {pending_approval, queued, denied} \<Longrightarrow> rq_status r' = rq_status r"
  by (auto simp: advance_def elim: moves.cases)

lemma advance_cases:
  "advance K r r' \<Longrightarrow> rq_status r' = rq_status r \<or>
     rq_status r \<in> {pending_approval, queued, dispatching} \<and> rq_status r' \<notin> {pending_approval, queued, denied}"
  by (auto simp: advance_def elim: moves.cases)

lemma advance_evolves: "advance K r r' \<Longrightarrow> request_evolves K r r'"
  by (auto simp: advance_def request_evolves_def)

lemma length_filter_map_mono:
  "(\<And>x. x \<in> set xs \<Longrightarrow> P (g x) \<Longrightarrow> Q x) \<Longrightarrow> length (filter P (map g xs)) \<le> length (filter Q xs)"
  by (induction xs) (auto simp: le_SucI)

theorem advance_all:
  assumes inv: "db_inv t d"
    and rows: "requests d' = map g (requests d)"
    and same: "permissions d' = permissions d" "approvals d' = approvals d" "devices d' = devices d"
      "services d' = services d"
    and adv: "\<And>r. r \<in> set (requests d) \<Longrightarrow> advance K r (g r)"
  shows "db_inv t d' \<and> evolves K d d'"
proof -
  have same_request: "same_request r (g r)" if "r \<in> set (requests d)" for r
    using adv [OF that] by (simp add: advance_def)
  then have ids: "map rq_id (requests d') = map rq_id (requests d)"
    "map (\<lambda>r. (rq_device r, key_hash r)) (requests d') = map (\<lambda>r. (rq_device r, key_hash r)) (requests d)"
    by (simp_all add: rows same_request_def)
  then have idset: "rq_id ` set (requests d') = rq_id ` set (requests d)"
    by (metis list.set_map)
  have "\<forall>r \<in> set (requests d'). row_ok r"
    using inv adv by (auto simp: rows db_inv_def advance_def)
  moreover have "keyed d'"
    using inv ids by (simp add: db_inv_def keyed_def same)
  moreover have "linked d'"
    using inv same_request idset by (auto simp: db_inv_def linked_def same rows same_request_def)
  moreover have "decided d'"
    unfolding decided_def rows
  proof (intro conjI ballI impI)
    fix r' a assume r': "r' \<in> set (map g (requests d))" and a: "a \<in> set (approvals d')" "ap_request a = rq_id r'"
    then obtain r where r: "r \<in> set (requests d)" "r' = g r" by auto
    from same_request [OF r(1)] have g: "rq_id (g r) = rq_id r" "snapshot_digest (g r) = snapshot_digest r"
      by (simp_all add: same_request_def)
    with inv a r have old: "ap_digest a = snapshot_digest r"
      "decision a = ''approve'' \<and> rq_status r \<notin> {pending_approval, denied} \<or>
         decision a = ''deny'' \<and> rq_status r = denied"
      unfolding db_inv_def decided_def same by auto
    then show "ap_digest a = snapshot_digest r'" using g r by simp
    from old(2) advance_cases [OF adv [OF r(1)]]
    show "decision a = ''approve'' \<and> rq_status r' \<notin> {pending_approval, denied} \<or>
         decision a = ''deny'' \<and> rq_status r' = denied"
      unfolding r(2) by force
  next
    fix r' assume r': "r' \<in> set (map g (requests d))"
      "rq_status r' \<in> {queued, dispatching, completed, failed, outcome_unknown} \<and> asks d' r'"
    then obtain r where r: "r \<in> set (requests d)" "r' = g r" by auto
    with r' adv [of r] have "rq_status r \<in> {queued, dispatching, completed, failed, outcome_unknown}"
      by (auto simp: advance_def elim: moves.cases)
    with r r' inv same_request [of r] show "approved_row d' r'"
      by (auto simp: db_inv_def decided_def approved_row_def asks_def same same_request_def)
  qed
  moreover have "pending_bound t d'"
    unfolding pending_bound_def
  proof (intro allI impI)
    fix device now assume "t \<le> now"
    have "pending_count device now d' \<le> pending_count device now d"
      unfolding pending_count_def rows
    proof (rule length_filter_map_mono)
      fix x assume x: "x \<in> set (requests d)"
        "rq_device (g x) = device \<and> rq_status (g x) = pending_approval \<and> now < rq_expires (g x)"
      with advance_status [OF adv] same_request show
        "rq_device x = device \<and> rq_status x = pending_approval \<and> now < rq_expires x"
        by (auto simp: same_request_def)
    qed
    also have "\<dots> \<le> 20" using inv \<open>t \<le> now\<close> by (simp add: db_inv_def pending_bound_def)
    finally show "pending_count device now d' \<le> 20" .
  qed
  moreover have "grants_disjoint t d'" "revisions_ok d'"
    using inv same_request
    by (auto simp: db_inv_def grants_disjoint_def candidate_rows_def revisions_ok_def same rows same_request_def)
  moreover have "evolves K d d'"
    using adv by (auto simp: evolves_def same rows intro!: grows_map advance_evolves)
  ultimately show ?thesis using inv by (simp add: db_inv_def)
qed

lemma set_finished_advance:
  assumes "row_ok r" and "moves (rq_status r) st" "st \<notin> {queued, denied, dispatching}"
    and "res \<noteq> None \<longrightarrow> st \<in> {completed, outcome_unknown}"
    and "rq_result r' = res" "rq_status r' = st" "finished r' = Some now" 
    and "same_request r r'" "rq_status r = dispatching \<longrightarrow> rq_id r \<notin> K"
  shows "advance K r r'"
proof -
  have "terminal st" using assms(2,3) by (auto simp: terminal_def elim: moves.cases)
  with assms show ?thesis by (auto simp: advance_def row_ok_def)
qed

lemma same_request_simps [simp]:
  "same_request r (r\<lparr>rq_status := st\<rparr>)" "same_request r (set_finished st why res now r)"
  "same_request r (closed st why now r)" "same_request r (purge r)" "same_request r (set_decided st fin r)"
  by (simp_all add: same_request_def set_finished_def closed_def purge_def set_decided_def)

lemma finished_db_preserves:
  assumes "db_inv t d" and r: "find_request i d = Some r" and "moves (rq_status r) st"
    and "st \<notin> {queued, denied, dispatching}" "res \<noteq> None \<longrightarrow> st \<in> {completed, outcome_unknown}"
    and "rq_status r = dispatching \<longrightarrow> i \<notin> K"
  shows "db_inv t (finished_db E now nonce i st why res d) \<and> evolves K d (finished_db E now nonce i st why res d)"
proof -
  let ?g = "\<lambda>x. if rq_id x = i then set_finished st why (encrypt_result E nonce i res) now x else x"
  have "advance K x (?g x)" if "x \<in> set (requests d)" for x
  proof (cases "rq_id x = i")
    case True
    with find_request_unique [OF _ r that] assms(1) have "x = r" by (simp add: db_inv_def)
    with True that assms show ?thesis
      by (auto simp: db_inv_def set_finished_def encrypt_result_def intro!: set_finished_advance
        same_request_simps(2) [unfolded set_finished_def])
  qed simp
  with assms(1) have "db_inv t (update_requests (\<lambda>x. rq_id x = i)
       (set_finished st why (encrypt_result E nonce i res) now) d) \<and>
     evolves K d (update_requests (\<lambda>x. rq_id x = i) (set_finished st why (encrypt_result E nonce i res) now) d)"
    by (intro advance_all [where g = ?g]) simp_all
  then show ?thesis by (simp add: finished_db_def)
qed

lemma rejected_preserves:
  assumes "rejected E now i d d'" "db_inv t d" "find_request i d = Some r" "rq_status r = queued"
  shows "db_inv t d' \<and> evolves K d d'"
proof -
  from assms(1) consider "d' = d" | st why where "st \<in> {failed, cancelled}"
      "d' = finished_db E now [] i st why None d"
    by (auto simp: rejected_def)
  then show ?thesis
  proof cases
    case 2
    with assms(4) have "moves (rq_status r) st" by (auto intro: moves.intros)
    with assms(4) finished_db_preserves [OF assms(2,3), where st = st and res = None and K = K and E = E
        and now = now and nonce = "[]" and why = why] 2 show ?thesis by auto
  qed (use assms(2) in simp)
qed

lemma claimed_db_preserves:
  assumes "db_inv t d" "find_request i d = Some r" "rq_status r = queued"
  shows "db_inv t (claimed_db i snap d) \<and> evolves K d (claimed_db i snap d)"
proof -
  have "advance K x (x\<lparr>rq_status := dispatching\<rparr>)" if "x \<in> set (requests d)" "rq_status x = queued" for x
    using that by (auto simp: advance_def row_ok_def terminal_def intro: moves.intros)
  with assms(1) have "db_inv t (mark_dispatching i d) \<and> evolves K d (mark_dispatching i d)"
    by (intro advance_all [where g = "\<lambda>x. if rq_id x = i \<and> rq_status x = queued
        then x\<lparr>rq_status := dispatching\<rparr> else x"]) (auto simp: mark_dispatching_def)
  then show ?thesis by (simp add: claimed_db_def)
qed

text \<open>The status of a claimed row.\<close>

lemma claimed_db_status:
  assumes "keyed d" "find_request i d = Some r" "rq_status r = queued"
  shows "requests (claimed_db i snap d) = map (\<lambda>x. if x = r then r\<lparr>rq_status := dispatching\<rparr> else x) (requests d)"
  using assms find_request_unique [OF assms(1,2)]
  by (auto simp: claimed_db_def mark_dispatching_def)

lemma close_all_preserves:
  assumes "db_inv t d" and "st \<in> {expired, cancelled, outcome_unknown}"
    and "\<And>r. r \<in> set (requests d) \<Longrightarrow> rq_id r \<in> set ids \<Longrightarrow> moves (rq_status r) st"
    and "\<And>r. r \<in> set (requests d) \<Longrightarrow> rq_id r \<in> set ids \<Longrightarrow> rq_status r = dispatching \<Longrightarrow> rq_id r \<notin> K"
  shows "db_inv t (close_all st why now ids d) \<and> evolves K d (close_all st why now ids d)"
proof -
  have "advance K r (if rq_id r \<in> set ids then closed st why now r else r)" if "r \<in> set (requests d)" for r
  proof (cases "rq_id r \<in> set ids")
    case True
    have running: "rq_status r = dispatching \<Longrightarrow> rq_id r \<notin> K"
      by (rule assms(4) [OF that True])
    have m: "row_ok r" "moves (rq_status r) st"
      using assms(1) that assms(3) [OF that True] by (simp_all add: db_inv_def)
    then have "rq_result r = None"
      by (auto simp: row_ok_def elim: moves.cases)
    with m assms(2) True running show ?thesis
      by (auto simp: advance_def closed_def same_request_def row_ok_def terminal_def)
  qed simp
  with assms(1) show ?thesis
    by (intro advance_all [where g = "\<lambda>r. if rq_id r \<in> set ids then closed st why now r else r"]) simp_all
qed

text \<open>The rows a bulk update closes are exactly those it selected.\<close>

lemma selected:
  assumes "keyed d" and "cut_of ids (map rq_id (filter P (requests d)))"
    and "r \<in> set (requests d)" "rq_id r \<in> set ids"
  shows "P r"
proof -
  from cut_of_subset [OF assms(2,4)] obtain x where "x \<in> set (requests d)" "P x" "rq_id x = rq_id r"
    by auto
  with unique_id [of rq_id "requests d" x r] assms(1,3) show ?thesis by (simp add: keyed_def)
qed

lemma cancelled_preserves:
  assumes "db_inv t d" "cut_of ids (cancellable col i d)"
  shows "db_inv t (close_all cancelled why now ids d) \<and> evolves K d (close_all cancelled why now ids d)"
proof (rule close_all_preserves)
  fix r assume r: "r \<in> set (requests d)" "rq_id r \<in> set ids"
  have "keyed d" using assms(1) by (simp add: db_inv_def)
  from selected [OF this assms(2) [unfolded cancellable_def] r]
  have "rq_status r \<in> {pending_approval, queued}" by simp
  then show "moves (rq_status r) cancelled" "rq_status r = dispatching \<Longrightarrow> rq_id r \<notin> K"
    by (auto intro: moves.intros)
qed (use assms in auto)

lemma expired_preserves:
  assumes "db_inv t d" "cut_of ids (overdue now d)"
  shows "db_inv t (close_all expired why now' ids d) \<and> evolves K d (close_all expired why now' ids d)"
proof (rule close_all_preserves)
  fix r assume r: "r \<in> set (requests d)" "rq_id r \<in> set ids"
  have "keyed d" using assms(1) by (simp add: db_inv_def)
  from selected [OF this assms(2) [unfolded overdue_def] r]
  have "rq_status r \<in> {pending_approval, queued}" by simp
  then show "moves (rq_status r) expired" "rq_status r = dispatching \<Longrightarrow> rq_id r \<notin> K"
    by (auto intro: moves.intros)
qed (use assms in auto)

lemma interrupted_preserves:
  assumes "db_inv t d" "cut_of ids (interrupted d)"
  shows "db_inv t (close_all outcome_unknown why now ids d) \<and>
    evolves {} d (close_all outcome_unknown why now ids d)"
proof (rule close_all_preserves)
  fix r assume "r \<in> set (requests d)" "rq_id r \<in> set ids"
  with selected [OF _ assms(2) [unfolded interrupted_def]] assms(1) show "moves (rq_status r) outcome_unknown"
    by (auto simp: db_inv_def intro!: moves.intros)
qed (use assms in auto)

lemma purge_preserves:
  assumes "db_inv t d"
  shows "db_inv t (update_requests (purgeable now) purge d) \<and> evolves K d (update_requests (purgeable now) purge d)"
proof -
  have "advance K r (purge r)" if "r \<in> set (requests d)" "purgeable now r" for r
    using that assms
    by (auto simp: advance_def purge_def same_request_def row_ok_def purgeable_def terminal_def)
  with assms show ?thesis
    by (intro advance_all [where g = "\<lambda>r. if purgeable now r then purge r else r"]) auto
qed

lemma maintained_preserves:
  assumes "db_inv t d" "cut_of ids (overdue now d)"
  shows "db_inv t (maintained now ids d) \<and> evolves K d (maintained now ids d)"
  unfolding maintained_def
  using expired_preserves [OF assms] purge_preserves evolves_trans by blast

section \<open>New requests\<close>

lemma insert_requestE:
  assumes "insert_request r d = Some d'"
  obtains "d' = d\<lparr>requests := requests d @ [r]\<rparr>" "rq_id r \<notin> rq_id ` set (requests d)"
    "(rq_device r, key_hash r) \<notin> (\<lambda>x. (rq_device x, key_hash x)) ` set (requests d)"
    "rq_device r \<in> dev_id ` set (devices d)" "rq_service r \<in> sv_id ` set (services d)"
    "rq_permission r \<in> perm_ID ` set (permissions d)"
proof (rule that)
  show "(rq_device r, key_hash r) \<notin> (\<lambda>x. (rq_device x, key_hash x)) ` set (requests d)"
    using assms by (auto simp: insert_request_def split: if_splits)
qed (use assms in \<open>simp_all add: insert_request_def split: if_splits\<close>)

lemma admittedE:
  assumes "admitted E now random nonce device inp d r"
  obtains svc p headers target where
    "authorize E now d device (sub_Service inp) (sub_Method inp) (sub_Path inp) = Some (svc, p)"
    "ApplicationHeaders inp svc = Inr headers" "Target (BaseURL svc) (sub_Path inp) (sub_Query inp) = Inr target"
    "rq_id r = ID ''req_'' random" "rq_device r = device" "rq_service r = svc_ID svc"
    "rq_revision r = svc_Revision svc" "rq_permission r = perm_ID p" "key_hash r = Hash E (IdempotencyKey inp)"
    "submission_digest r = SubmissionDigest E inp" "finished r = None" "rq_result r = None"
    "rq_snapshot r \<noteq> None"
    "if Mode p = approval_required
     then rq_status r = pending_approval \<and> pending_count device now d < 20 \<and> rq_expires r = now + 10 * minute
     else rq_status r = queued \<and> rq_expires r = now + minute"
proof -
  from assms obtain svc p headers target st expiry where
    *: "authorize E now d device (sub_Service inp) (sub_Method inp) (sub_Path inp) = Some (svc, p)"
      "ApplicationHeaders inp svc = Inr headers"
      "Target (BaseURL svc) (sub_Path inp) (sub_Query inp) = Inr target"
    and st: "if Mode p = approval_required
         then pending_count device now d < 20 \<and> st = pending_approval \<and> expiry = now + 10 * minute
         else st = queued \<and> expiry = now + minute"
    and r: "r = new_row E now (ID ''req_'' random) nonce device inp
              (submit_snapshot device inp svc (permission.truncate p) target headers expiry) st"
    unfolding admitted_def by blast
  show ?thesis
    by (rule that [OF *]) (use st in \<open>auto simp: r new_row_def submit_snapshot_def Let_def split: if_splits\<close>)
qed

text \<open>The service an authorization returns is the row of its id.\<close>

lemma service_of_row_fields:
  assumes "service_of_row E r = Some s"
  shows "svc_ID s = sv_id r" "svc_Revision s = sv_revision r" "BaseURL s = base_url r"
    "PrivateCIDR s = private_cidr r" "Credential s = sv_credential r"
  using assms by (auto simp: service_of_row_def split: option.splits)

lemma pending_count_snoc:
  "pending_count device now (d\<lparr>requests := requests d @ [r]\<rparr>) =
     pending_count device now d +
     (if rq_device r = device \<and> rq_status r = pending_approval \<and> now < rq_expires r then 1 else 0)"
  by (simp add: pending_count_def)

lemma pending_count_antitone: "now \<le> now' \<Longrightarrow> pending_count device now' d \<le> pending_count device now d"
proof -
  assume "now \<le> now'"
  then have "length (filter (\<lambda>r. rq_device r = device \<and> rq_status r = pending_approval \<and> now' < rq_expires r) xs)
    \<le> length (filter (\<lambda>r. rq_device r = device \<and> rq_status r = pending_approval \<and> now < rq_expires r) xs)" for xs
    by (induction xs) auto
  then show ?thesis by (simp add: pending_count_def)
qed

theorem submitted_preserves:
  assumes inv: "db_inv t d" and "t \<le> now"
    and adm: "admitted E now random nonce device inp d r" and ins: "insert_request r d = Some d'"
  shows "db_inv now d' \<and> evolves K d d'"
proof -
  from ins have d': "d' = d\<lparr>requests := requests d @ [r]\<rparr>"
    and fresh: "rq_id r \<notin> rq_id ` set (requests d)"
      "(rq_device r, key_hash r) \<notin> (\<lambda>x. (rq_device x, key_hash x)) ` set (requests d)"
    and fk: "rq_device r \<in> dev_id ` set (devices d)" "rq_service r \<in> sv_id ` set (services d)"
      "rq_permission r \<in> perm_ID ` set (permissions d)"
    by (auto elim: insert_requestE)
  from adm obtain svc p where
    auth: "authorize E now d device (sub_Service inp) (sub_Method inp) (sub_Path inp) = Some (svc, p)"
    and r: "rq_device r = device" "rq_service r = svc_ID svc" "rq_revision r = svc_Revision svc"
      "rq_permission r = perm_ID p" "finished r = None" "rq_result r = None" "rq_snapshot r \<noteq> None"
    and st: "if Mode p = approval_required
     then rq_status r = pending_approval \<and> pending_count device now d < 20 \<and> rq_expires r = now + 10 * minute
     else rq_status r = queued \<and> rq_expires r = now + minute"
    by (elim admittedE)
  from auth have p: "p \<in> set (permissions d)" and svc: "enabled_service E (sub_Service inp) d = Some svc"
    by (auto elim: authorize_SomeE)
  from svc obtain s where s: "s \<in> set (services d)" "service_of_row E s = Some svc"
    by (auto elim: enabled_serviceE)
  from inv have parts: "\<forall>r \<in> set (requests d). row_ok r" "keyed d" "linked d" "decided d"
      "pending_bound t d" "grants_disjoint t d" "revisions_ok d"
    by (simp_all add: db_inv_def)
  have "row_ok r" using st r by (auto simp: row_ok_def terminal_def split: if_splits)
  moreover have "keyed d'"
    using parts(2) fresh by (auto simp: d' keyed_def)
  moreover have "linked d'"
    using parts(3) fk by (auto simp: d' linked_def)
  moreover have "decided d'"
    unfolding decided_def
  proof (intro conjI ballI impI)
    fix x a assume x: "x \<in> set (requests d')" and a: "a \<in> set (approvals d')" "ap_request a = rq_id x"
    from parts(3) have "\<forall>b \<in> set (approvals d). ap_request b \<in> rq_id ` set (requests d)"
      by (simp add: linked_def)
    moreover have "a \<in> set (approvals d)" using a by (simp add: d')
    ultimately have "rq_id x \<in> rq_id ` set (requests d)" using a(2) by metis
    with x fresh(1) have "x \<in> set (requests d)" by (auto simp: d')
    with parts(4) a show "ap_digest a = snapshot_digest x" "decision a = ''approve'' \<and> rq_status x \<notin> {pending_approval, denied} \<or>
         decision a = ''deny'' \<and> rq_status x = denied"
      by (auto simp: decided_def d')
  next
    fix x assume x: "x \<in> set (requests d')"
      "rq_status x \<in> {queued, dispatching, completed, failed, outcome_unknown} \<and> asks d' x"
    show "approved_row d' x"
    proof (cases "x \<in> set (requests d)")
      case True
      with parts(4) x show ?thesis by (auto simp: decided_def d' asks_def approved_row_def)
    next
      case False
      with x have "x = r" by (simp add: d')
      with x(2) obtain q where q: "q \<in> set (permissions d)" "perm_ID q = perm_ID p" "Mode q = approval_required"
        using r(4) by (auto simp: asks_def d')
      with p parts(2) have "q = p" by (auto simp: keyed_def dest: unique_id)
      with q st x(2) \<open>x = r\<close> show ?thesis by auto
    qed
  qed
  moreover have "pending_bound now d'"
    unfolding pending_bound_def
  proof (intro allI impI)
    fix dev now' assume "now \<le> now'"
    have "pending_count dev now' d \<le> 20"
      using parts(5) \<open>t \<le> now\<close> \<open>now \<le> now'\<close> by (simp add: pending_bound_def)
    moreover have "pending_count device now' d \<le> pending_count device now d"
      by (rule pending_count_antitone) fact
    ultimately show "pending_count dev now' d' \<le> 20"
      using st r(1) by (auto simp: d' pending_count_snoc split: if_splits)
  qed
  moreover have "grants_disjoint now d'"
    using parts(6) \<open>t \<le> now\<close> by (simp add: grants_disjoint_def candidate_rows_def d')
  moreover have "revisions_ok d'"
  proof -
    have "rq_revision r \<le> sv_revision q" if "q \<in> set (services d)" "rq_service r = sv_id q" for q
    proof -
      from that s parts(2) have "q = s"
        using service_of_row_fields(1) [OF s(2)] r(2) by (auto simp: keyed_def dest: unique_id)
      then show ?thesis using r(3) service_of_row_fields(2) [OF s(2)] by simp
    qed
    then show ?thesis using parts(7) by (auto simp: revisions_ok_def d')
  qed
  moreover have "evolves K d d'"
    by (auto simp: evolves_def d' intro!: grows_append)
  ultimately show ?thesis using parts(1) by (simp add: db_inv_def d')
qed

section \<open>Decisions\<close>

lemma insert_approvalE:
  assumes "insert_approval a d = Some d'"
  obtains "d' = d\<lparr>approvals := approvals d @ [a]\<rparr>" "ap_request a \<notin> ap_request ` set (approvals d)"
    "ap_request a \<in> rq_id ` set (requests d)" "decided_by a \<in> ow_id ` set (owners d)"
  using assms by (auto simp: insert_approval_def split: if_splits)

theorem decided_preserves:
  assumes inv: "db_inv t d" and r: "find_request i d = Some r" "rq_status r = pending_approval"
    and a: "insert_approval a d = Some d1" "ap_request a = i" "ap_digest a = snapshot_digest r"
    and st: "decision a = ''approve'' \<and> st = queued \<and> fin = None \<or>
      decision a = ''deny'' \<and> st = denied \<and> fin = Some now"
    and d': "d' = update_requests (\<lambda>x. rq_id x = i \<and> rq_status x = pending_approval) (set_decided st fin) d1"
  shows "db_inv t d' \<and> evolves K d d'"
proof -
  from inv have parts: "\<forall>r \<in> set (requests d). row_ok r" "keyed d" "linked d" "decided d"
      "pending_bound t d" "grants_disjoint t d" "revisions_ok d"
    by (simp_all add: db_inv_def)
  from a(1) have d1: "d1 = d\<lparr>approvals := approvals d @ [a]\<rparr>" and fresh: "i \<notin> ap_request ` set (approvals d)"
    using a(2) by (auto elim: insert_approvalE)
  let ?g = "\<lambda>x. if x = r then set_decided st fin r else x"
  note rin = find_request_in [OF r(1)]
  have rows: "requests d' = map ?g (requests d)"
    using find_request_unique [OF parts(2) r(1)] r(2) by (auto simp: d' d1)
  have same: "permissions d' = permissions d" "devices d' = devices d" "services d' = services d"
      "approvals d' = approvals d @ [a]"
    by (simp_all add: d' d1)
  have gs: "same_request x (?g x)" for x by (auto simp: same_request_def set_decided_def)
  have new: "rq_status (set_decided st fin r) = st" "finished (set_decided st fin r) = fin"
    "rq_id (set_decided st fin r) = i" "snapshot_digest (set_decided st fin r) = snapshot_digest r"
    "rq_permission (set_decided st fin r) = rq_permission r"
    "rq_result (set_decided st fin r) = rq_result r" "rq_snapshot (set_decided st fin r) = rq_snapshot r"
    using rin by (simp_all add: set_decided_def)
  have ids: "map rq_id (requests d') = map rq_id (requests d)"
    "map (\<lambda>r. (rq_device r, key_hash r)) (requests d') = map (\<lambda>r. (rq_device r, key_hash r)) (requests d)"
    using gs by (simp_all add: rows same_request_def set_decided_def)
  then have idset: "rq_id ` set (requests d') = rq_id ` set (requests d)"
    by (metis list.set_map)
  have "row_ok (set_decided st fin r)"
    using parts(1) rin st r(2) by (auto simp: row_ok_def new terminal_def)
  then have "\<forall>r \<in> set (requests d'). row_ok r"
    using parts(1) by (auto simp: rows)
  moreover have "keyed d'"
    using parts(2) ids fresh a(2) by (simp add: keyed_def same)
  moreover have "linked d'"
    using parts(3) gs idset a(2) rin by (auto simp: linked_def same rows set_decided_def)
  moreover have "decided d'"
    unfolding decided_def
  proof (intro conjI ballI impI)
    fix x' b assume x': "x' \<in> set (requests d')" and b: "b \<in> set (approvals d')" "ap_request b = rq_id x'"
    then obtain x where x: "x \<in> set (requests d)" "x' = ?g x" by (auto simp: rows)
    show "ap_digest b = snapshot_digest x'"
        "decision b = ''approve'' \<and> rq_status x' \<notin> {pending_approval, denied} \<or>
         decision b = ''deny'' \<and> rq_status x' = denied"
    proof (atomize (full), cases "x = r")
      case True
      with b x fresh have "b = a" by (auto simp: same new)
      with True x st a(3) show "ap_digest b = snapshot_digest x' \<and>
        (decision b = ''approve'' \<and> rq_status x' \<notin> {pending_approval, denied} \<or>
         decision b = ''deny'' \<and> rq_status x' = denied)" by (auto simp: new)
    next
      case False
      with x b have "b \<noteq> a" using find_request_unique [OF parts(2) r(1) x(1)] a(2) by auto
      with False x b parts(4) show "ap_digest b = snapshot_digest x' \<and>
        (decision b = ''approve'' \<and> rq_status x' \<notin> {pending_approval, denied} \<or>
         decision b = ''deny'' \<and> rq_status x' = denied)"
        by (auto simp: decided_def same)
    qed
  next
    fix x' assume x': "x' \<in> set (requests d')"
      "rq_status x' \<in> {queued, dispatching, completed, failed, outcome_unknown} \<and> asks d' x'"
    then obtain x where x: "x \<in> set (requests d)" "x' = ?g x" by (auto simp: rows)
    show "approved_row d' x'"
    proof (cases "x = r")
      case True
      with x x' st a show ?thesis by (auto simp: approved_row_def same new)
    next
      case False
      with x x' parts(4) show ?thesis by (auto simp: decided_def approved_row_def asks_def same)
    qed
  qed
  moreover have "pending_bound t d'"
    unfolding pending_bound_def
  proof (intro allI impI)
    fix device now assume "t \<le> now"
    have "pending_count device now d' \<le> pending_count device now d"
      unfolding pending_count_def rows
      by (rule length_filter_map_mono) (use st in \<open>auto simp: new split: if_splits\<close>)
    with parts(5) \<open>t \<le> now\<close> show "pending_count device now d' \<le> 20"
      by (meson le_trans pending_bound_def)
  qed
  moreover have "grants_disjoint t d'" "revisions_ok d'"
    using parts(6,7) gs
    by (auto simp: grants_disjoint_def candidate_rows_def revisions_ok_def same rows set_decided_def)
  moreover have "request_evolves K x (?g x)" for x
    using gs [of x] st r(2) by (auto simp: request_evolves_def new intro!: r_into_rtranclp moves.intros)
  then have "evolves K d d'"
    by (auto simp: evolves_def same rows intro!: grows_map grows_append grows_refl)
  ultimately show ?thesis by (simp add: db_inv_def)
qed

section \<open>Permissions, services and devices\<close>

lemma db_invE:
  assumes "db_inv t d"
  obtains "\<forall>r \<in> set (requests d). row_ok r" "keyed d" "linked d" "decided d"
    "pending_bound t d" "grants_disjoint t d" "revisions_ok d"
  using assms by (simp add: db_inv_def)

lemma filter_map_update:
  "(\<And>p. P p \<Longrightarrow> \<not> Q (g p)) \<Longrightarrow>
     filter Q (map (\<lambda>p. if P p then g p else p) xs) = filter (\<lambda>p. \<not> P p) (filter Q xs)"
  by (induction xs) auto

lemma candidate_rows_revoked:
  "candidate_rows device srv rv now (permission_revoked i d) =
     filter (\<lambda>p. perm_ID p \<noteq> i) (candidate_rows device srv rv now d)"
proof -
  have "permissions (permission_revoked i d) =
      map (\<lambda>p. if perm_ID p = i then p\<lparr>perm_revoked := True\<rparr> else p) (permissions d)"
    by (simp add: permission_revoked_def)
  then show ?thesis
    unfolding candidate_rows_def by (simp only:) (rule filter_map_update, simp add: live_def)
qed

lemma permission_revoked_tables:
  "requests (permission_revoked i d) = requests d" "approvals (permission_revoked i d) = approvals d"
  "devices (permission_revoked i d) = devices d" "services (permission_revoked i d) = services d"
  "map perm_ID (permissions (permission_revoked i d)) = map perm_ID (permissions d)"
  by (simp_all add: permission_revoked_def)

theorem permission_revoked_preserves:
  assumes "db_inv t d"
  shows "db_inv t (permission_revoked i d) \<and> evolves K d (permission_revoked i d)"
  using assms
proof (rule db_invE)
  let ?d = "permission_revoked i d"
  note T = permission_revoked_tables [of i d]
  have perms: "permissions ?d = map (\<lambda>p. if perm_ID p = i then p\<lparr>perm_revoked := True\<rparr> else p) (permissions d)"
    by (simp add: permission_revoked_def)
  have ids: "perm_ID ` set (permissions ?d) = perm_ID ` set (permissions d)"
    using T(5) by (metis list.set_map)
  assume parts: "\<forall>r \<in> set (requests d). row_ok r" "keyed d" "linked d" "decided d"
    "pending_bound t d" "grants_disjoint t d" "revisions_ok d"
  have asks: "asks ?d r \<longleftrightarrow> asks d r" for r
  proof -
    have "asks ?d r \<longleftrightarrow> (\<exists>p \<in> set (permissions d). let q = (if perm_ID p = i then p\<lparr>perm_revoked := True\<rparr> else p)
        in perm_ID q = rq_permission r \<and> Mode q = approval_required)"
      unfolding asks_def perms set_map bex_simps Let_def by blast
    also have "\<dots> \<longleftrightarrow> asks d r"
      unfolding asks_def by (intro bex_cong refl) (auto simp: Let_def)
    finally show ?thesis .
  qed
  have "keyed ?d" using parts(2) by (simp add: keyed_def T)
  moreover have "linked ?d" using parts(3) ids by (auto simp: linked_def T perms)
  moreover have "decided ?d" using parts(4) by (simp add: decided_def approved_row_def asks T)
  moreover have "grants_disjoint t ?d"
    using parts(6) by (simp add: grants_disjoint_def candidate_rows_revoked perms.disjoint_filter)
  moreover have "revisions_ok ?d" using parts(7) by (auto simp: revisions_ok_def T perms)
  moreover have "evolves K d ?d"
    by (auto simp: evolves_def T perms permission_evolves_def intro!: grows_map grows_refl)
  ultimately show ?thesis
    using parts(1,5) by (simp add: db_inv_def T pending_bound_def pending_count_def)
qed

lemma live_antitone: "live now' p \<Longrightarrow> now \<le> now' \<Longrightarrow> live now p"
  by (auto simp: live_def split: option.splits)

theorem granted_preserves:
  assumes inv: "db_inv t d" and "t \<le> now" and g: "grantable E now random owner f d row"
    and ins: "insert_permission row d = Some d'"
  shows "db_inv now d' \<and> evolves K d d'"
  using inv
proof (rule db_invE)
  assume parts: "\<forall>r \<in> set (requests d). row_ok r" "keyed d" "linked d" "decided d"
    "pending_bound t d" "grants_disjoint t d" "revisions_ok d"
  from ins have d': "d' = d\<lparr>permissions := permissions d @ [row]\<rparr>"
    and fresh: "perm_ID row \<notin> perm_ID ` set (permissions d)" "DeviceID row \<in> dev_id ` set (devices d)"
      "ServiceID row \<in> sv_id ` set (services d)"
    by (simp_all add: insert_permission_def split: if_splits)
  from g obtain pf svc where svc: "enabled_service E (f ''service'') d = Some svc"
    and row: "row = permission_row_of pf (ID ''perm_'' random) (f ''device'') (svc_ID svc) (svc_Revision svc) owner"
    and free: "\<forall>p \<in> set (candidate_rows (f ''device'') (svc_ID svc) (svc_Revision svc) now d). \<not> Overlap row p"
    by (auto simp: grantable_def)
  from svc obtain s where s: "s \<in> set (services d)" "service_of_row E s = Some svc"
    by (auto elim: enabled_serviceE)
  have "keyed d'" using parts(2) fresh(1) by (auto simp: d' keyed_def)
  moreover have "linked d'" using parts(3) fresh by (auto simp: d' linked_def)
  moreover have "decided d'"
  proof -
    have "asks d' r \<longleftrightarrow> asks d r" if "r \<in> set (requests d)" for r
      using parts(3) fresh(1) that by (auto simp: asks_def d' linked_def)
    then show ?thesis using parts(4) by (simp add: decided_def approved_row_def d')
  qed
  moreover have "grants_disjoint now d'"
    unfolding grants_disjoint_def
  proof (intro allI impI)
    fix device srv rv now' assume later: "now \<le> now'"
    let ?c = "candidate_rows device srv rv now'"
    have old: "perms.disjoint (?c d)"
      using parts(6) \<open>t \<le> now\<close> later by (simp add: grants_disjoint_def)
    show "perms.disjoint (?c d')"
    proof (cases "DeviceID row = device \<and> ServiceID row = srv \<and> perm_Revision row = rv \<and> live now' row")
      case True
      then have c: "?c d' = ?c d @ [row]" by (simp add: candidate_rows_def d')
      have "\<not> Overlap p row" if "p \<in> set (?c d)" for p
      proof -
        from that True have "p \<in> set (candidate_rows (f ''device'') (svc_ID svc) (svc_Revision svc) now d)"
          using live_antitone [OF _ later] by (auto simp: candidate_rows_def row permission_row_of_def)
        with free show ?thesis using perms.overlaps_sym by blast
      qed
      then show ?thesis using old by (simp add: c perms.disjoint_snoc)
    next
      case False
      then have "?c d' = ?c d" by (auto simp: candidate_rows_def d')
      then show ?thesis using old by simp
    qed
  qed
  moreover have "revisions_ok d'"
  proof -
    have "perm_Revision row \<le> sv_revision q" if "q \<in> set (services d)" "ServiceID row = sv_id q" for q
    proof -
      from that s parts(2) have "q = s"
        using service_of_row_fields(1) [OF s(2)] by (auto simp: row permission_row_of_def keyed_def dest: unique_id)
      then show ?thesis using service_of_row_fields(2) [OF s(2)] by (simp add: row permission_row_of_def)
    qed
    then show ?thesis using parts(7) by (auto simp: revisions_ok_def d')
  qed
  moreover have "evolves K d d'"
    by (auto simp: evolves_def d' intro!: grows_append)
  moreover have "pending_bound now d'"
    using parts(5) \<open>t \<le> now\<close> by (simp add: pending_bound_def pending_count_def d')
  ultimately show ?thesis using parts(1) by (simp add: db_inv_def d')
qed

text \<open>Services: a revision is only ever raised.\<close>

lemma services_step:
  assumes inv: "db_inv t d"
    and same: "permissions d' = permissions d" "approvals d' = approvals d" "devices d' = devices d"
      "requests d' = requests d"
    and sv: "services d' = map g (services d)"
    and g: "\<And>s. s \<in> set (services d) \<Longrightarrow> g s = s \<or> sv_id (g s) = sv_id s \<and> sv_revision s < sv_revision (g s)"
  shows "db_inv t d' \<and> evolves K d d'"
  using inv
proof (rule db_invE)
  assume parts: "\<forall>r \<in> set (requests d). row_ok r" "keyed d" "linked d" "decided d"
    "pending_bound t d" "grants_disjoint t d" "revisions_ok d"
  have gid: "sv_id (g s) = sv_id s" "sv_revision s \<le> sv_revision (g s)" if "s \<in> set (services d)" for s
    using g [OF that] by auto
  then have ids: "map sv_id (services d') = map sv_id (services d)" by (simp add: sv)
  then have idset: "sv_id ` set (services d') = sv_id ` set (services d)" by (metis list.set_map)
  have "keyed d'" using parts(2) ids by (simp add: keyed_def same)
  moreover have "linked d'" using parts(3) idset by (simp add: linked_def same)
  moreover have "decided d'" using parts(4) by (simp add: decided_def approved_row_def asks_def same)
  moreover have "revisions_ok d'"
    using parts(7) gid by (fastforce simp: revisions_ok_def same sv)
  moreover have "evolves K d d'"
    using g by (fastforce simp: evolves_def same sv service_evolves_def intro!: grows_map grows_refl)
  ultimately show ?thesis
    using parts(1,5,6) by (simp add: db_inv_def same pending_bound_def pending_count_def
        grants_disjoint_def candidate_rows_def)
qed

theorem service_disabled_preserves:
  "db_inv t d \<Longrightarrow> db_inv t (service_disabled i d) \<and> evolves K d (service_disabled i d)"
  by (rule services_step [where g = "\<lambda>r. if sv_id r = i
      then r\<lparr>enabled := False, sv_revision := sv_revision r + 1\<rparr> else r"])
    (auto simp: service_disabled_def)

theorem saved_preserves:
  assumes inv: "db_inv t d" and n: "revises revise (sv_id row) (sv_revision row) d" and s: "saved row d d'"
  shows "db_inv t d' \<and> evolves K d d'"
proof (cases "sv_revision row = 1")
  case True
  with s have d': "d' = d\<lparr>services := services d @ [row]\<rparr>" and fresh: "sv_id row \<notin> sv_id ` set (services d)"
    by (simp_all add: saved_def insert_service_def split: if_splits)
  from inv show ?thesis
  proof (rule db_invE)
    assume parts: "\<forall>r \<in> set (requests d). row_ok r" "keyed d" "linked d" "decided d"
      "pending_bound t d" "grants_disjoint t d" "revisions_ok d"
    have "linked d'" using parts(3) by (simp add: linked_def d')
    moreover have "keyed d'" using parts(2) fresh by (auto simp: keyed_def d')
    moreover have "decided d'" using parts(4) by (simp add: decided_def approved_row_def asks_def d')
    moreover have "revisions_ok d'"
    proof -
      have "ServiceID p \<noteq> sv_id row" if "p \<in> set (permissions d)" for p
        using parts(3) fresh that unfolding linked_def by metis
      moreover have "rq_service r \<noteq> sv_id row" if "r \<in> set (requests d)" for r
        using parts(3) fresh that unfolding linked_def by metis
      ultimately show ?thesis
        using parts(7) True by (auto simp: revisions_ok_def d')
    qed
    moreover have "evolves K d d'"
      by (auto simp: evolves_def d' intro!: grows_append)
    ultimately show ?thesis
      using parts(1,5,6) by (simp add: db_inv_def d' pending_bound_def pending_count_def
          grants_disjoint_def candidate_rows_def)
  qed
next
  case False
  with n obtain q where q: "find (\<lambda>r. sv_id r = sv_id row) (services d) = Some q"
    "sv_revision row = sv_revision q + 1"
    by (auto simp: revises_def split: if_splits)
  have uniq: "s = q" if "s \<in> set (services d)" "sv_id s = sv_id row" for s
    using find_Some_in [OF q(1)] that inv unique_id [of sv_id "services d" s q] by (auto simp: db_inv_def keyed_def)
  from False s have d': "d' = update_services (\<lambda>x. sv_id x = sv_id row) (\<lambda>_. row) d"
    by (simp add: saved_def)
  show ?thesis
    by (rule services_step [OF inv, where g = "\<lambda>x. if sv_id x = sv_id row then row else x"])
      (use uniq q(2) in \<open>auto simp: d'\<close>)
qed

text \<open>Devices are only ever revoked.\<close>

lemma revoked_row_tables [simp]:
  "requests (revoked_row i d) = requests d" "approvals (revoked_row i d) = approvals d"
  "permissions (revoked_row i d) = permissions d" "services (revoked_row i d) = services d"
  "devices (revoked_row i d) = map (\<lambda>r. if dev_id r = i then r\<lparr>dev_revoked := True\<rparr> else r) (devices d)"
  by (simp_all add: revoked_row_def)

lemma devices_step:
  assumes inv: "db_inv t d"
    and same: "permissions d' = permissions d" "approvals d' = approvals d" "services d' = services d"
      "requests d' = requests d"
    and dev: "devices d' = map g (devices d) @ new"
    and g: "\<And>r. r \<in> set (devices d) \<Longrightarrow> device_evolves r (g r)"
    and fresh: "distinct (map dev_id new)" "dev_id ` set new \<inter> dev_id ` set (devices d) = {}"
  shows "db_inv t d' \<and> evolves K d d'"
  using inv
proof (rule db_invE)
  assume parts: "\<forall>r \<in> set (requests d). row_ok r" "keyed d" "linked d" "decided d"
    "pending_bound t d" "grants_disjoint t d" "revisions_ok d"
  have ids: "map dev_id (devices d') = map dev_id (devices d) @ map dev_id new"
    using g by (simp add: dev device_evolves_def)
  then have idset: "dev_id ` set (devices d') = dev_id ` set (devices d) \<union> dev_id ` set new"
    by (metis image_Un list.set_map set_append)
  have "keyed d'" using parts(2) ids fresh by (auto simp: keyed_def same)
  moreover have "linked d'" using parts(3) idset by (auto simp: linked_def same)
  moreover have "decided d'" using parts(4) by (simp add: decided_def approved_row_def asks_def same)
  moreover have "revisions_ok d'" using parts(7) by (simp add: revisions_ok_def same)
  moreover have "grows device_evolves (devices d) (devices d')"
    unfolding grows_def dev using g by (auto simp: list_all2_conv_all_nth)
  then have "evolves K d d'" by (simp add: evolves_def same)
  ultimately show ?thesis
    using parts(1,5,6) by (simp add: db_inv_def same pending_bound_def pending_count_def
        grants_disjoint_def candidate_rows_def)
qed

theorem revoked_row_preserves:
  "db_inv t d \<Longrightarrow> db_inv t (revoked_row i d) \<and> evolves K d (revoked_row i d)"
  by (rule devices_step [where g = "\<lambda>r. if dev_id r = i then r\<lparr>dev_revoked := True\<rparr> else r" and new = "[]"])
    (auto simp: device_evolves_def)

end
