(* ===== verification/Server_Facts.thy ===== *)
theory Server_Facts
  imports Server Evolution
begin

text \<open>
  What the transactions of \<open>Server\<close> do to the database, and that they keep it well-formed.
\<close>

section \<open>Executions of the server's transactions\<close>

lemma runs_exec_now [runs]: "runs (exec_now f) c w x c' w' \<Longrightarrow> f c = Some c' \<and> w' = w"
  by (auto simp: runs_def exec_now_def split: if_splits option.splits)

lemma reads_query_now [tx_rules]: "reads (query_now f)" "quiet (query_now f)"
  by (simp_all add: reads_def quiet_def query_now_def)

lemma runs_query_now [runs]: "runs (query_now f) c w x c' w' \<Longrightarrow> x = f c \<and> c' = c \<and> w' = w"
  by (auto simp: runs_def query_now_def split: if_splits)

lemma safe_exec_now [tx_rules]: "safe (exec_now f)"
  by (auto simp: safe_def exec_now_def split: if_splits option.splits)

lemma safe_exec_now_ret [tx_rules]: "safe (bind (or_err e (exec_now f)) (\<lambda>_. ret x))"
  by (auto simp: safe_def bind_def or_err_def exec_now_def ret_def split: prod.splits sum.splits
      if_splits option.splits)

lemma insert_device_fields:
  assumes "insert_device r d = Some d'"
  shows "d' = d\<lparr>devices := devices d @ [r]\<rparr>" "dev_id r \<notin> dev_id ` set (devices d)"
  using assms by (auto simp: insert_device_def split: if_splits)

lemma insert_invitation_fields:
  assumes "insert_invitation r d = Some d'"
  shows "d' = d\<lparr>invitations := invitations d @ [r]\<rparr>" "inv_hash r \<notin> inv_hash ` set (invitations d)"
  using assms by (auto simp: insert_invitation_def split: if_splits)

lemma insert_session_fields:
  assumes "insert_session r d = Some d'"
  shows "d' = d\<lparr>sessions := sessions d @ [r]\<rparr>" "ses_hash r \<notin> ses_hash ` set (sessions d)"
  using assms by (auto simp: insert_session_def split: if_splits)

lemma runs_Invitation:
  assumes "runs (Invitation E now random1 random2 owner label) c w x c' w'"
  shows "\<exists>d1 d2. insert_device \<lparr>dev_id = ID ''dev_'' random1, dev_label = label, dev_revoked = False,
          certificate_serial = [], certificate_expires = 0\<rparr> c = Some d1 \<and>
      insert_invitation \<lparr>inv_hash = Hash E (ID [] random2), inv_device = ID ''dev_'' random1,
          inv_expires = now + 5 * minute, inv_used = False\<rparr> d1 = Some d2 \<and>
      x = (ID ''dev_'' random1, ID [] random2) \<and>
      c' = audited owner (ID ''dev_'' random1) ''invitation_created'' (ID ''dev_'' random1) d2"
  using assms unfolding Invitation_def Let_def by (auto dest!: runs)

lemma runs_enroll_tx:
  assumes "runs (enroll_tx E issue parse now secret csr) c w x c' w'"
  shows "\<exists>i cert cl. invited_device E now secret c = Some i \<and> issue i csr = Some cert \<and>
      parse cert = Some cl \<and> x = (i, cert) \<and>
      c' = audited [] i ''enrolled'' i (set_certificate i cl (use_invitation E secret c))"
  using assms unfolding enroll_tx_def by (auto dest!: runs split: option.splits)

lemma runs_renew_tx:
  assumes "runs (renew_tx issue parse device csr) c w x c' w'"
  shows "\<exists>cert cl. active_device device c \<and> issue device csr = Some cert \<and> parse cert = Some cl \<and>
      x = (device, cert) \<and> c' = audited [] device ''certificate_renewed'' device (set_certificate device cl c)"
  using assms unfolding renew_tx_def by (auto dest!: runs split: option.splits if_splits)

lemma runs_login_tx:
  assumes "runs (login_tx E check now password random1 random2) c w x c' w'"
  shows "\<exists>ow rest. owners c = ow # rest \<and> check (password_hash ow) password \<and> x = ID [] random1 \<and>
      insert_session \<lparr>ses_hash = Hash E (ID [] random1), ses_owner = ow_id ow, ses_csrf = ID [] random2,
        ses_expires = now + 8 * hour\<rparr> c = Some c'"
  using assms unfolding login_tx_def by (auto dest!: runs split: option.splits if_splits list.splits)

lemma runs_http_claim:
  assumes "runs (http_claim E now device srv m path raw_query) c w x c' w'"
  shows "\<exists>svc p target. authorize E now c device srv m path = Some (svc, p) \<and> Mode p = standing \<and>
      Target (BaseURL svc) path raw_query = Inr target \<and> x = (svc, permission.truncate p, target) \<and>
      c' = audited [] device ''http_claim'' (perm_ID p) c"
  using assms unfolding http_claim_def by (auto dest!: runs split: sum.splits if_splits prod.splits)

lemma safe_server:
  "safe (Invitation E now random1 random2 owner label)"
  "safe (enroll_tx E issue parse now secret csr)" "safe (renew_tx issue parse device csr)"
  "safe (login_tx E check now password random1 random2)" "safe (logout_tx E cookie)"
  "safe (http_claim E now device srv m path raw_query)"
  unfolding Invitation_def enroll_tx_def renew_tx_def login_tx_def logout_tx_def http_claim_def Let_def
  by (intro tx_rules)+

lemma runs_create_owner [runs]:
  "runs (create_owner password i hash) c w x c' w' \<Longrightarrow>
     c' = c \<or> (owners c = [] \<and> 12 \<le> length password \<and>
       c' = c\<lparr>owners := [\<lparr>ow_id = ID ''owner_'' i, password_hash = hash\<rparr>]\<rparr>)"
  unfolding create_owner_def by (auto dest!: runs split: if_splits simp: insert_owner_def)

lemma runs_New_tx:
  assumes "runs (New_tx now password i hash) c w x c' w'"
  shows "\<exists>c1 ids. (c1 = c \<or> (\<exists>ow. c1 = c\<lparr>owners := ow\<rparr>)) \<and> cut_of ids (interrupted c1) \<and>
     c' = close_all outcome_unknown ''server_restarted_during_dispatch_check_provider'' now ids c1"
  using assms unfolding New_tx_def
  by (auto dest!: runs_bind runs_recoverDispatches runs_create_owner)

section \<open>Well-formedness is kept\<close>

lemma tables_more [simp]:
  "tables (d\<lparr>invitations := is\<rparr>) = tables d" "tables (d\<lparr>owners := ow\<rparr>) = tables d" "tables (use_invitation E secret d) = tables d"
  by (simp_all add: tables_def use_invitation_def)

lemmas db_inv_more [simp] = tables_cong(1) [OF tables_more(1)] tables_cong(1) [OF tables_more(2)]
  tables_cong(1) [OF tables_more(3)]
lemmas evolves_more [simp] = tables_cong(2) [OF tables_more(1)] tables_cong(2) [OF tables_more(2)]
  tables_cong(2) [OF tables_more(3)]

lemma insert_device_preserves:
  assumes "db_inv t d" "insert_device r d = Some d'"
  shows "db_inv t d' \<and> evolves K d d'"
  using insert_device_fields [OF assms(2)]
  by (intro devices_step [OF assms(1), where g = "\<lambda>r. r" and new = "[r]"]) (auto simp: device_evolves_def)

lemma set_certificate_preserves:
  assumes "db_inv t d"
  shows "db_inv t (set_certificate i cl d) \<and> evolves K d (set_certificate i cl d)"
  by (rule devices_step [OF assms, where new = "[]" and g = "\<lambda>r. if dev_id r = i
        then r\<lparr>certificate_serial := fst cl, certificate_expires := snd cl\<rparr> else r"])
    (auto simp: device_evolves_def set_certificate_def)

end
