(* ===== verification/System.thy ===== *)
theory System
  imports Server_Facts
begin

text \<open>
  The running server: the database, the requests that the worker has claimed but not yet sent, the
  direct requests whose claim is committed but which are not yet sent, the outcomes not yet
  recorded, and, as history, every request handed to a transport. A claim and the hand-over that
  follows it are steps of their own, since no transaction and no mutex spans them. The steps are the
  operations of the components in any order and interleaving, with any storage
  faults, and the process may stop at any point. A stopped server is started as \<open>main\<close> does:
  \<open>server.New\<close> recovers interrupted dispatches, \<open>--recover-restored\<close> may invalidate access, then
  the handlers and the worker run.

  The clock of the server is assumed not to run backwards.
\<close>

record environment = codec +
  issue :: "string \<Rightarrow> string \<Rightarrow> string option"
  parse_certificate :: "string \<Rightarrow> (string \<times> int) option"
  check_password :: "string \<Rightarrow> string \<Rightarrow> bool"

section \<open>Operations on the database\<close>

datatype command =
    C_submit string string string Submission
  | C_decide string string string string
  | C_maintain
  | C_service string string bool form
  | C_permission string string form
  | C_revoke_permission string string
  | C_disable_service string string
  | C_revoke_device string string
  | C_invite string string string string
  | C_enroll string string
  | C_renew string string
  | C_login string string string
  | C_logout string

fun perform :: "'a environment_scheme \<Rightarrow> int \<Rightarrow> command \<Rightarrow> unit tx" where
  "perform E now (C_submit random nonce device inp) =
     bind (Submit E now random nonce device inp) (\<lambda>_. ret ())"
| "perform E now (C_decide owner i digest dec) = Decide E now owner i digest dec"
| "perform E now C_maintain = maintenance now"
| "perform E now (C_service nonce owner revise f) = addService E now nonce owner revise f"
| "perform E now (C_permission random owner f) = addPermission E now random owner f"
| "perform E now (C_revoke_permission owner i) = revokePermission now owner i"
| "perform E now (C_disable_service owner i) = disableService now owner i"
| "perform E now (C_revoke_device owner i) = revoke now owner i"
| "perform E now (C_invite random1 random2 owner label) =
     bind (Invitation E now random1 random2 owner label) (\<lambda>_. ret ())"
| "perform E now (C_enroll secret csr) =
     bind (enroll_tx E (issue E) (parse_certificate E) now secret csr) (\<lambda>_. ret ())"
| "perform E now (C_renew device csr) =
     bind (renew_tx (issue E) (parse_certificate E) device csr) (\<lambda>_. ret ())"
| "perform E now (C_login password random1 random2) =
     bind (login_tx E (check_password E) now password random1 random2) (\<lambda>_. ret ())"
| "perform E now (C_logout cookie) = logout_tx E cookie"

definition perform_run :: "'a environment_scheme \<Rightarrow> int \<Rightarrow> fault list \<Rightarrow> command \<Rightarrow> db \<Rightarrow> db" where
  "perform_run E now fs cmd d = snd (run_tx fs (perform E now cmd) d)"

section \<open>The server as a transition system\<close>

datatype phase = Down | Ready | Serving

text \<open>A direct request between its claim and \<open>upstream.Send\<close>: what was asked, and what the claim fixed.\<close>

record direct_claim =
  dc_time :: int
  dc_device :: string
  dc_method :: string
  dc_path :: string
  dc_header :: header
  dc_body :: string
  dc_service :: service
  dc_permission :: permission
  dc_target :: string

definition direct_request :: "'a codec_scheme \<Rightarrow> direct_claim \<Rightarrow> outgoing option" where
  "direct_request E k =
     http_request E (dc_service k) (dc_method k) (dc_target k) (dc_header k) (dc_body k)"

record sys =
  database :: db
  clock :: int
  phase_of :: phase
  claims :: "(string \<times> Snapshot \<times> service) list"
  outcomes :: "(string \<times> status \<times> string \<times> Result option) list"
  sent_log :: "(string \<times> Snapshot \<times> service \<times> outgoing) list"
  http_claims :: "direct_claim list"
  http_log :: "(direct_claim \<times> outgoing) list"

inductive step :: "'a environment_scheme \<Rightarrow> sys \<Rightarrow> sys \<Rightarrow> bool" for E where
  step_command:
    "phase_of s = Serving \<Longrightarrow> clock s \<le> now \<Longrightarrow>
     step E s (s\<lparr>database := perform_run E now fs cmd (database s), clock := now\<rparr>)"
| step_claim:
    "phase_of s = Serving \<Longrightarrow> clock s \<le> now \<Longrightarrow>
     run_tx fs (dispatch_claim E now i) (database s) = (Inr (Some (snap, svc)), d') \<Longrightarrow>
     step E s (s\<lparr>database := d', clock := now, claims := claims s @ [(i, snap, svc)]\<rparr>)"
| step_no_claim:
    "phase_of s = Serving \<Longrightarrow> clock s \<le> now \<Longrightarrow>
     run_tx fs (dispatch_claim E now i) (database s) = (r, d') \<Longrightarrow> (\<And>x. r \<noteq> Inr (Some x)) \<Longrightarrow>
     step E s (s\<lparr>database := d', clock := now\<rparr>)"
| step_send:
    "phase_of s = Serving \<Longrightarrow> claims s = xs @ (i, snap, svc) # ys \<Longrightarrow>
     step E s (s\<lparr>claims := xs @ ys,
       outcomes := outcomes s @ [(i, dispatch_outcome E snap svc do_exchange)],
       sent_log := sent_log s @ (case dispatch_request E snap svc of
         None \<Rightarrow> [] | Some out \<Rightarrow> [(i, snap, svc, out)])\<rparr>)"
| step_record:
    "phase_of s = Serving \<Longrightarrow> clock s \<le> now \<Longrightarrow> outcomes s = xs @ (i, st, why, res) # ys \<Longrightarrow>
     run_tx fs (finish E now nonce i st why res) (database s) = (r, d') \<Longrightarrow>
     step E s (s\<lparr>database := d', clock := now, outcomes := xs @ ys\<rparr>)"
| step_http_claim:
    "phase_of s = Serving \<Longrightarrow> clock s \<le> now \<Longrightarrow>
     run_tx fs (http_claim E now device srv m path raw_query) (database s) = (Inr (svc, p, target), d') \<Longrightarrow>
     step E s (s\<lparr>database := d', clock := now, http_claims := http_claims s @
       [\<lparr>dc_time = now, dc_device = device, dc_method = m, dc_path = path, dc_header = h, dc_body = body,
         dc_service = svc, dc_permission = p, dc_target = target\<rparr>]\<rparr>)"
| step_http_refused:
    "phase_of s = Serving \<Longrightarrow> clock s \<le> now \<Longrightarrow>
     run_tx fs (http_claim E now device srv m path raw_query) (database s) = (Inl e, d') \<Longrightarrow>
     step E s (s\<lparr>database := d', clock := now\<rparr>)"
| step_http_send:
    "phase_of s = Serving \<Longrightarrow> http_claims s = xs @ k # ys \<Longrightarrow>
     step E s (s\<lparr>http_claims := xs @ ys, http_log := http_log s @ (case direct_request E k of
         None \<Rightarrow> [] | Some out \<Rightarrow> [(k, out)])\<rparr>)"
| step_stop:
    "step E s (s\<lparr>phase_of := Down, claims := [], outcomes := [], http_claims := []\<rparr>)"
| step_start:
    "phase_of s = Down \<Longrightarrow> clock s \<le> now \<Longrightarrow>
     run_tx fs (New_tx now password i hash) (database s) = (Inr (), d') \<Longrightarrow>
     step E s (s\<lparr>database := d', clock := now, phase_of := Ready\<rparr>)"
| step_start_fails:
    "phase_of s = Down \<Longrightarrow> clock s \<le> now \<Longrightarrow>
     run_tx fs (New_tx now password i hash) (database s) = (Inl e, d') \<Longrightarrow>
     step E s (s\<lparr>database := d', clock := now\<rparr>)"
| step_restored:
    "phase_of s = Ready \<Longrightarrow> clock s \<le> now \<Longrightarrow>
     run_tx fs (RecoverRestored now) (database s) = (Inr (), d') \<Longrightarrow>
     step E s (s\<lparr>database := d', clock := now\<rparr>)"
| step_serve:
    "phase_of s = Ready \<Longrightarrow> step E s (s\<lparr>phase_of := Serving\<rparr>)"

inductive_cases step_elim: "step E s s'"

text \<open>The state before the first start: a migrated database without rows.\<close>

definition empty_db :: db where
  "empty_db = \<lparr>owners = [], sessions = [], devices = [], invitations = [], services = [],
     permissions = [], audit = [], requests = [], approvals = []\<rparr>"

definition initial :: "sys \<Rightarrow> bool" where
  "initial s \<longleftrightarrow> phase_of s = Down \<and> claims s = [] \<and> outcomes s = [] \<and> sent_log s = [] \<and>
     http_claims s = [] \<and> http_log s = [] \<and> database s = empty_db"

section \<open>Invariants of transition systems\<close>

text \<open>
  A client of a transition system knows an invariant: it holds initially and every step keeps
  it. Everything proved of single steps under the invariant then carries over to runs.
\<close>

locale invariant =
  fixes init :: "'s \<Rightarrow> bool" and next_state :: "'s \<Rightarrow> 's \<Rightarrow> bool" and I :: "'s \<Rightarrow> bool"
  assumes base: "init s \<Longrightarrow> I s"
    and keeps: "I s \<Longrightarrow> next_state s s' \<Longrightarrow> I s'"
begin

lemma kept: "next_state\<^sup>*\<^sup>* s s' \<Longrightarrow> I s \<Longrightarrow> I s'"
  by (induction rule: rtranclp_induct) (auto intro: keeps)

lemma reachable: "init s \<Longrightarrow> next_state\<^sup>*\<^sup>* s s' \<Longrightarrow> I s'"
  by (rule kept) (auto intro: base)

lemma stable:
  assumes "next_state\<^sup>*\<^sup>* s s'" and "I s" and "P s"
    and "\<And>a b. I a \<Longrightarrow> next_state a b \<Longrightarrow> P a \<Longrightarrow> P b"
  shows "P s'"
  using assms(1,3)
proof (induction rule: rtranclp_induct)
  case (step a b)
  from kept [OF step.hyps(1) assms(2)] step.hyps(2) step.IH [OF step.prems] show ?case
    by (rule assms(4))
qed

lemma monotone:
  assumes "next_state\<^sup>*\<^sup>* s s'" and "I s" and "reflp R" and "transp R"
    and "\<And>a b. I a \<Longrightarrow> next_state a b \<Longrightarrow> R a b"
  shows "R s s'"
proof (rule stable [OF assms(1,2)])
  show "R s s" using assms(3) by (rule reflpD)
  fix a b assume "I a" "next_state a b" "R s a"
  with assms(4,5) show "R s b" by (blast dest: transpD)
qed

end

section \<open>Every operation refines the specification\<close>

definition refines :: "string set \<Rightarrow> int \<Rightarrow> int \<Rightarrow> db \<Rightarrow> db \<Rightarrow> bool" where
  "refines K t now d d' \<longleftrightarrow> (db_inv t d \<longrightarrow> db_inv now d' \<and> evolves K d d')"

lemma refines_refl: "t \<le> now \<Longrightarrow> refines K t now d d"
  by (auto simp: refines_def intro: db_inv_later)

lemma run_refines:
  assumes "safe m" and "t \<le> now" and "\<And>x w'. runs m d d x d' w' \<Longrightarrow> refines K t now d d'"
    and "run_tx fs m d = (r, d')"
  shows "refines K t now d d'"
proof (cases r)
  case (Inl e)
  with assms run_tx_error show ?thesis by (metis refines_refl)
next
  case (Inr x)
  with assms run_tx_runs show ?thesis by metis
qed

lemma refinesI:
  assumes "t \<le> now" and "db_inv t d \<Longrightarrow> db_inv t d' \<and> evolves K d d'"
  shows "refines K t now d d'"
  using assms by (auto simp: refines_def intro: db_inv_later)

lemma refines_trans:
  assumes "db_inv t a \<Longrightarrow> db_inv t b \<and> evolves K a b" and "db_inv t b \<Longrightarrow> db_inv t c \<and> evolves K b c"
  shows "db_inv t a \<Longrightarrow> db_inv t c \<and> evolves K a c"
  using assms evolves_trans by blast

lemma refines_Submit:
  assumes "runs (Submit E now random nonce device inp) c w i c' w'" "t \<le> now"
  shows "refines K t now c c'"
proof -
  from assms(1) consider "c' = c"
    | inp' r d k where "admitted E now random nonce device inp' c r" "insert_request r c = Some d"
      "c' = audited [] device k i d"
    by (elim runs_Submit) blast
  then show ?thesis
  proof cases
    case 1
    with assms(2) show ?thesis by (simp add: refines_refl)
  next
    case 2
    then show ?thesis
      using submitted_preserves [OF _ assms(2) 2(1,2)] by (simp add: refines_def)
  qed
qed

lemma refines_Decide:
  assumes "runs (Decide E now owner i digest dec) c w x c' w'" "t \<le> now"
  shows "refines K t now c c'"
  using assms(1)
proof (rule runs_Decide)
  fix r snap svc d
  let ?st = "if dec = ''deny'' then denied else queued" and ?fin = "if dec = ''deny'' then Some now else None"
  assume *: "dec = ''approve'' \<or> dec = ''deny''" "find_request i c = Some r"
    "digest = snapshot_digest r" "rq_status r = pending_approval"
    "insert_approval \<lparr>ap_request = i, decided_by = owner, ap_digest = digest, decision = dec\<rparr> c = Some d"
    "c' = audited owner (snap_DeviceID snap) (request_kind ?st) i
       (update_requests (\<lambda>x. rq_id x = i \<and> rq_status x = pending_approval) (set_decided ?st ?fin) d)"
  show ?thesis
  proof (rule refinesI [OF assms(2)])
    assume "db_inv t c"
    from decided_preserves [OF this *(2,4,5) _ _ _ refl, of ?st ?fin now] *(1,3)
    show "db_inv t c' \<and> evolves K c c'" by (auto simp: *(6))
  qed
qed

lemma refines_maintenance:
  assumes "runs (maintenance now) c w x c' w'" "t \<le> now"
  shows "refines K t now c c'"
  by (rule refinesI [OF assms(2)])
    (use runs_maintenance [OF assms(1)] maintained_preserves in \<open>auto\<close>)

lemma refines_addService:
  assumes "runs (addService E now nonce owner revise f) c w x c' w'" "t \<le> now"
  shows "refines K t now c c'"
  using assms(1)
proof (rule runs_addService)
  fix sf n row d ids
  assume *: "revises revise (sf_id sf) n c"
    "row = service_row_of sf n (Encrypt E nonce (credential_ref (sf_id sf) n) (sf_credential sf))"
    "saved row c d" "n \<le> 1 \<longrightarrow> ids = []" "1 < n \<longrightarrow> cut_of ids (cancellable service_id (sf_id sf) d)"
    "c' = audited owner [] (if revise then ''service_revised'' else ''service_created'') (sf_id sf)
       (close_all cancelled ''service_revised'' now ids d)"
  have row: "sv_id row = sf_id sf" "sv_revision row = n" by (simp_all add: *(2) service_row_of_def)
  have "cut_of ids (cancellable service_id (sf_id sf) d)"
    using *(4,5) by (cases "1 < n") (auto simp: cut_of_def intro: exI [of _ 0])
  then have "db_inv t d \<Longrightarrow> db_inv t c' \<and> evolves K d c'"
    by (simp add: *(6) cancelled_preserves)
  moreover have "db_inv t c \<Longrightarrow> db_inv t d \<and> evolves K c d"
    using saved_preserves [of t c revise row d] *(1,3) row by simp
  ultimately show ?thesis by (blast intro: refinesI [OF assms(2)] evolves_trans)
qed

lemma refines_addPermission:
  assumes "runs (addPermission E now random owner f) c w x c' w'" "t \<le> now"
  shows "refines K t now c c'"
  using assms(1)
proof (rule runs_addPermission)
  fix row d assume d: "grantable E now random owner f c row" "insert_permission row c = Some d"
    "c' = audited owner (f ''device'') ''permission_created'' (perm_ID row) d"
  show ?thesis
    using granted_preserves [OF _ assms(2) d(1,2)] by (auto simp: refines_def d(3))
qed

text \<open>A change followed by a cancellation.\<close>

lemma refines_cancel:
  assumes "t \<le> now" and "db_inv t c \<Longrightarrow> db_inv t d \<and> evolves K c d"
    and "cut_of ids (cancellable col i d)"
  shows "refines K t now c (audited owner dev kind i (close_all cancelled why now' ids d))"
proof (rule refinesI [OF assms(1)])
  assume "db_inv t c"
  with assms(2) have d: "db_inv t d" "evolves K c d" by auto
  with cancelled_preserves [OF d(1) assms(3), of why now']
  show "db_inv t (audited owner dev kind i (close_all cancelled why now' ids d)) \<and>
    evolves K c (audited owner dev kind i (close_all cancelled why now' ids d))"
    by (auto intro: evolves_trans)
qed

lemma cancellable_more [simp]:
  "cancellable col i (permission_revoked j d) = cancellable col i d"
  "cancellable col i (service_disabled j d) = cancellable col i d"
  "cancellable col i (revoked_row j d) = cancellable col i d"
  by (simp_all add: permission_revoked_def service_disabled_def revoked_row_def)

lemma refines_revocations:
  "runs (revokePermission now owner i) c w x c' w' \<Longrightarrow> t \<le> now \<Longrightarrow> refines K t now c c'"
  "runs (disableService now owner i) c w x c' w' \<Longrightarrow> t \<le> now \<Longrightarrow> refines K t now c c'"
  "runs (revoke now owner i) c w x c' w' \<Longrightarrow> t \<le> now \<Longrightarrow> refines K t now c c'"
  by (auto dest!: runs_revokePermission runs_disableService runs_revoke
      intro!: refines_cancel permission_revoked_preserves service_disabled_preserves revoked_row_preserves)

lemma refines_Invitation:
  assumes "runs (Invitation E now random1 random2 owner label) c w y c' w'" "t \<le> now"
  shows "refines K t now c c'"
proof -
  from runs_Invitation [OF assms(1)] obtain r d1 v d2 o' k where d: "insert_device r c = Some d1"
    "insert_invitation v d1 = Some d2" "c' = audited o' k ''invitation_created'' k d2"
    by blast
  show ?thesis
    by (rule refinesI [OF assms(2)])
      (use insert_device_preserves [OF _ d(1)] in \<open>simp add: d(3) insert_invitation_fields(1) [OF d(2)]\<close>)
qed

lemma refines_enroll:
  assumes "runs (enroll_tx E iss prs now secret csr) c w y c' w'" "t \<le> now"
  shows "refines K t now c c'"
proof -
  from runs_enroll_tx [OF assms(1)] obtain i cl where
    c': "c' = audited [] i ''enrolled'' i (set_certificate i cl (use_invitation E secret c))"
    by blast
  show ?thesis
  proof (rule refinesI [OF assms(2)])
    assume "db_inv t c"
    then have "db_inv t (use_invitation E secret c)" by simp
    note set_certificate_preserves [OF this, of i cl]
    moreover from this have "evolves K c (set_certificate i cl (use_invitation E secret c))"
      using evolves_trans [of K c "use_invitation E secret c"] by simp
    ultimately show "db_inv t c' \<and> evolves K c c'"
      by (simp add: c')
  qed
qed

lemma refines_renew:
  assumes "runs (renew_tx iss prs device csr) c w y c' w'" "t \<le> now"
  shows "refines K t now c c'"
  by (rule refinesI [OF assms(2)])
    (use runs_renew_tx [OF assms(1)] set_certificate_preserves in \<open>auto\<close>)

lemma refines_tables: "t \<le> now \<Longrightarrow> tables d' = tables d \<Longrightarrow> refines K t now d d'"
  using tables_cong [of d' d] by (intro refinesI) auto

lemma refines_sessions:
  "runs (login_tx E check now password random1 random2) c w z c' w' \<Longrightarrow> t \<le> now \<Longrightarrow> refines K t now c c'"
  "runs (logout_tx E cookie) c w u c' w' \<Longrightarrow> t \<le> now \<Longrightarrow> refines K t now c c'"
  by (auto dest!: runs_login_tx insert_session_fields(1) runs_exec_now simp: logout_tx_def
      intro!: refines_tables)

lemma refines_http_claim:
  "runs (http_claim E now device srv m path raw_query) c w v c' w' \<Longrightarrow> t \<le> now \<Longrightarrow> refines K t now c c'"
  by (auto dest!: runs_http_claim intro!: refines_tables)

lemma safe_then_ret:
  assumes "safe m"
  shows "safe (bind m (\<lambda>_. ret x))"
  unfolding safe_def
proof (intro allI impI)
  fix s e s' assume r: "bind m (\<lambda>_. ret x) s = (Inl e, s')"
  obtain y s1 where "m s = (y, s1)" by (metis prod.exhaust)
  with r assms show "committed s' = committed s"
    by (cases y) (auto simp: bind_def ret_def safe_def)
qed

lemma safe_Submit: "safe (Submit E now random nonce device inp)"
  unfolding Submit_def submit_new_def check_pending_def Let_def by (intro tx_rules)

lemma safe_perform: "safe (perform E now cmd)"
  by (cases cmd) (simp_all add: safe_then_ret safe_Submit safe_Decide safe_addService safe_addPermission
      safe_revokePermission safe_disableService safe_revoke safe_server maintenance_def safe_ignore)

lemma runs_then_ret: "runs (bind m (\<lambda>_. ret x)) c w y c' w' \<Longrightarrow> \<exists>z w1. runs m c w z c' w1"
  by (auto dest!: runs)

theorem perform_refines:
  assumes "t \<le> now"
  shows "refines K t now d (perform_run E now fs cmd d)"
proof -
  obtain r d' where run: "run_tx fs (perform E now cmd) d = (r, d')" by (metis prod.exhaust)
  have "refines K t now d d'"
  proof (rule run_refines [OF safe_perform assms _ run])
    fix x w' assume "runs (perform E now cmd) d d x d' w'"
    then show "refines K t now d d'"
      using assms
      by (cases cmd) (auto dest!: runs_then_ret dest: refines_Submit refines_Decide refines_maintenance
          refines_addService refines_addPermission refines_revocations refines_Invitation refines_enroll
          refines_renew refines_sessions)
  qed
  with run show ?thesis by (simp add: perform_run_def)
qed

lemma safe_dispatch_claim: "safe (dispatch_claim E now i)"
proof -
  have q: "quiet (attempt m)" if "reads m" for m :: "'c tx"
    unfolding quiet_def
  proof
    fix s show "committed (snd (attempt m s)) = committed s"
      using that by (cases "m s") (auto simp: attempt_def reads_def dest: spec [of _ s])
  qed
  have f: "safe (bind (finishTx E now [] i st why None) (\<lambda>_. ret None))" for st why
    unfolding finishTx_def by (intro safe_then_ret tx_rules)
  have "safe (claim_send E now i snap svc)" for snap svc
    unfolding claim_send_def by (intro tx_rules f reads_claim_approved [THEN reads_quiet])
  then have "safe (claim_snapshot E now i snap)" for snap
    unfolding claim_snapshot_def by (intro safe_bind q tx_rules f reads_validSnapshot) 
  then show ?thesis
    unfolding dispatch_claim_def by (intro safe_bind q tx_rules f reads_load_snapshot)
qed

lemma claim_refines:
  assumes "run_tx fs (dispatch_claim E now i) d = (r, d')" "t \<le> now"
  shows "refines K t now d d'"
proof (rule run_refines [OF safe_dispatch_claim assms(2) _ assms(1)])
  fix x w' assume run: "runs (dispatch_claim E now i) d d x d' w'"
  show "refines K t now d d'"
  proof (cases x)
    case None
    with runs_dispatch_claim [OF run] show ?thesis
      by (auto intro!: refinesI assms(2) dest: rejected_preserves)
  next
    case (Some y)
    with runs_dispatch_claim [OF run] show ?thesis
      by (cases y) (auto simp: claimable_def intro!: refinesI assms(2) dest: claimed_db_preserves)
  qed
qed

lemma finish_refines:
  assumes "run_tx fs (finish E now nonce i st why res) d = (r, d')" "t \<le> now"
    and "find_request i d = Some q" "rq_status q = dispatching"
    and "st \<in> {completed, failed, outcome_unknown}" "res \<noteq> None \<longrightarrow> st \<in> {completed, outcome_unknown}"
    and "i \<notin> K"
  shows "refines K t now d d'"
proof (rule run_refines [OF _ assms(2) _ assms(1)])
  show "safe (finish E now nonce i st why res)" by (simp add: finish_def safe_ignore)
  fix x w' assume "runs (finish E now nonce i st why res) d d x d' w'"
  from runs_finish [OF this] show "refines K t now d d'"
  proof
    assume d': "d' = finished_db E now nonce i st why res d"
    have m: "moves (rq_status q) st" using assms(4,5) by (auto intro: moves.intros)
    have "st \<notin> {queued, denied, dispatching}" using assms(5) by auto
    from finished_db_preserves [OF _ assms(3) m this assms(6)] assms(7) show ?thesis
      unfolding d' by (intro refinesI [OF assms(2)]) blast
  qed (simp add: refines_refl assms(2))
qed

lemma recover_refines:
  assumes "run_tx fs (New_tx now password i hash) d = (Inr (), d')" "t \<le> now"
  shows "refines {} t now d d'"
proof -
  from run_tx_runs [OF assms(1)] obtain w' where "runs (New_tx now password i hash) d d () d' w'" by blast
  from runs_New_tx [OF this] obtain c1 ids where c1: "c1 = d \<or> (\<exists>ow. c1 = d\<lparr>owners := ow\<rparr>)"
    and ids: "cut_of ids (interrupted c1)"
    and d': "d' = close_all outcome_unknown ''server_restarted_during_dispatch_check_provider'' now ids c1"
    by blast
  show ?thesis
  proof (rule refinesI [OF assms(2)])
    assume "db_inv t d"
    with c1 have "db_inv t c1" "evolves {} d c1" by auto
    with interrupted_preserves [OF _ ids] evolves_trans show "db_inv t d' \<and> evolves {} d d'"
      unfolding d' by blast
  qed
qed

text \<open>A start that fails may leave the new owner behind.\<close>

lemma create_owner_committed:
  "create_owner password i hash s = (r, s') \<Longrightarrow>
     committed s' = committed s \<or> (\<exists>ow. committed s' = committed s\<lparr>owners := ow\<rparr>)"
  by (auto simp: create_owner_def bind_def query_now_def ret_def fail_def exec_now_def insert_owner_def
      split: if_splits prod.splits sum.splits option.splits)

lemma start_fails:
  assumes "run_tx fs (New_tx now password i hash) d = (Inl e, d')"
  shows "d' = d \<or> (\<exists>ow. d' = d\<lparr>owners := ow\<rparr>)"
proof -
  let ?s = "\<lparr>committed = d, working = d, faults = fs\<rparr>"
  obtain r s1 where c: "create_owner password i hash ?s = (r, s1)" by (metis prod.exhaust)
  from create_owner_committed [OF c] have s1: "committed s1 = d \<or> (\<exists>ow. committed s1 = d\<lparr>owners := ow\<rparr>)" by simp
  show ?thesis
  proof (cases r)
    case (Inl x)
    with assms c s1 show ?thesis by (simp add: run_tx_def New_tx_def bind_def)
  next
    case (Inr x)
    obtain y s2 where "recoverDispatches now s1 = (y, s2)" by (metis prod.exhaust)
    with assms c Inr have "y = Inl e" "d' = committed s2" "recoverDispatches now s1 = (Inl e, s2)"
      by (simp_all add: run_tx_def New_tx_def bind_def)
    with safe_recoverDispatches s1 show ?thesis by (simp add: safe_def)
  qed
qed

lemma start_fails_refines:
  assumes "run_tx fs (New_tx now password i hash) d = (Inl e, d')" "t \<le> now"
  shows "refines K t now d d'"
proof -
  from start_fails [OF assms(1)] have "tables d' = tables d" by (auto simp: tables_def)
  with assms(2) show ?thesis by (rule refines_tables)
qed

lemma restored_refines:
  assumes "run_tx fs (RecoverRestored now) d = (Inr (), d')" "t \<le> now"
  shows "refines K t now d d'"
proof (rule refinesI [OF assms(2)])
  assume inv: "db_inv t d"
  from run_tx_runs [OF assms(1)] obtain w' where "runs (RecoverRestored now) d d () d' w'" by blast
  then have "\<exists>v. (db_inv t v \<and> evolves K d v) \<and>
      d' = audited [] [] ''restored_database_access_invalidated'' [] (v\<lparr>sessions := []\<rparr>)"
  proof (rule runs_RecoverRestored)
    show "db_inv t d \<and> evolves K d d" using inv by simp
  next
    fix i v assume "db_inv t v \<and> evolves K d v"
    then show "db_inv t (revoked_row i v) \<and> evolves K d (revoked_row i v)"
      using revoked_row_preserves evolves_trans by blast
  next
    fix i v ids assume "db_inv t v \<and> evolves K d v" "cut_of ids (cancellable device_id i v)"
    then show "db_inv t (close_all cancelled ''restored_database_recovery'' now ids v) \<and>
        evolves K d (close_all cancelled ''restored_database_recovery'' now ids v)"
      using cancelled_preserves evolves_trans by blast
  qed
  then show "db_inv t d' \<and> evolves K d d'" by auto
qed

section \<open>The invariant of the server\<close>

text \<open>The snapshot a row was opened to, and what it is bound to.\<close>

definition bound :: "'a codec_scheme \<Rightarrow> request_row \<Rightarrow> Snapshot \<Rightarrow> bool" where
  "bound E r snap \<longleftrightarrow>
     (\<exists>b. Digest E b = snapshot_digest r \<and> unmarshal_snapshot E b = Some snap) \<and>
     snap_DeviceID snap = rq_device r \<and> snap_ServiceID snap = rq_service r \<and>
     PermissionID snap = rq_permission r \<and> snap_Revision snap = rq_revision r \<and>
     snap_Expires snap = rq_expires r"

lemma open_snapshot_bound: "open_snapshot E r = Inr snap \<Longrightarrow> bound E r snap"
  by (auto simp: open_snapshot_def bound_def split: sum.splits if_splits option.splits)

lemma bound_same: "same_request r r' \<Longrightarrow> bound E r' snap = bound E r snap"
  by (simp add: bound_def same_request_def)

definition holds_row :: "'a codec_scheme \<Rightarrow> db \<Rightarrow> status set \<Rightarrow> string \<Rightarrow> Snapshot \<Rightarrow> bool" where
  "holds_row E d S i snap \<longleftrightarrow>
     (\<exists>r \<in> set (requests d). rq_id r = i \<and> rq_status r \<in> S \<and> bound E r snap)"

definition begun :: "status set" where
  "begun = {dispatching, completed, failed, outcome_unknown}"

definition outcome_ok :: "status \<times> string \<times> Result option \<Rightarrow> bool" where
  "outcome_ok x \<longleftrightarrow> (case x of (st, why, res) \<Rightarrow> st \<in> {completed, failed, outcome_unknown} \<and>
     (res \<noteq> None \<longrightarrow> st \<in> {completed, outcome_unknown}))"

definition sys_inv :: "'a environment_scheme \<Rightarrow> sys \<Rightarrow> bool" where
  "sys_inv E s \<longleftrightarrow>
     db_inv (clock s) (database s) \<and>
     (\<forall>(i, snap, svc) \<in> set (claims s). holds_row E (database s) {dispatching} i snap) \<and>
     (\<forall>(i, x) \<in> set (outcomes s). outcome_ok x \<and>
        (\<exists>r \<in> set (requests (database s)). rq_id r = i \<and> rq_status r = dispatching)) \<and>
     (\<forall>(i, snap, svc, out) \<in> set (sent_log s). holds_row E (database s) begun i snap \<and>
        dispatch_request E snap svc = Some out \<and> recheck_target svc snap = Inr ()) \<and>
     (\<forall>(i, snap, svc) \<in> set (claims s). recheck_target svc snap = Inr ()) \<and>
     distinct (map fst (claims s) @ map fst (outcomes s)) \<and>
     distinct (map fst (sent_log s)) \<and>
     fst ` set (claims s) \<inter> fst ` set (sent_log s) = {} \<and>
     (phase_of s \<noteq> Serving \<longrightarrow> claims s = [] \<and> outcomes s = [])"

lemma outcome_ok_dispatch: "outcome_ok (dispatch_outcome E snap svc ex)"
  by (auto simp: outcome_ok_def dispatch_outcome_def outcome_of_def split: sum.splits sent.splits if_splits)

lemma leads_to_begun: "leads_to st st' \<Longrightarrow> st \<in> begun \<Longrightarrow> st' \<in> begun"
  by (induction rule: rtranclp_induct) (auto simp: begun_def elim: moves.cases)

definition running :: "db \<Rightarrow> string \<Rightarrow> bool" where
  "running d i \<longleftrightarrow> (\<exists>r \<in> set (requests d). rq_id r = i \<and> rq_status r = dispatching)"

lemma holds_row_running: "holds_row E d {dispatching} i snap \<Longrightarrow> running d i"
  by (auto simp: holds_row_def running_def)

lemma evolves_in:
  assumes "evolves K d d'" "r \<in> set (requests d)"
  obtains r' where "r' \<in> set (requests d')" "request_evolves K r r'"
  using assms grows_in by (metis evolves_def)

lemma running_kept:
  assumes "evolves K d d'" "i \<in> K" "running d i"
  shows "running d' i"
proof -
  from assms(3) obtain r where r: "r \<in> set (requests d)" "rq_id r = i" "rq_status r = dispatching"
    by (auto simp: running_def)
  from evolves_in [OF assms(1) r(1)] obtain r' where "r' \<in> set (requests d')" "request_evolves K r r'" .
  with r assms(2) show ?thesis by (auto simp: running_def request_evolves_def)
qed

lemma claim_kept:
  assumes "evolves K d d'" "i \<in> K" "holds_row E d {dispatching} i snap"
  shows "holds_row E d' {dispatching} i snap"
proof -
  from assms(3) obtain r where r: "r \<in> set (requests d)" "rq_id r = i" "rq_status r = dispatching" "bound E r snap"
    by (auto simp: holds_row_def)
  from evolves_in [OF assms(1) r(1)] obtain r' where "r' \<in> set (requests d')" "request_evolves K r r'" .
  with r assms(2) show ?thesis by (auto simp: holds_row_def request_evolves_def)
qed

lemma sent_kept:
  assumes "evolves K d d'" "holds_row E d begun i snap"
  shows "holds_row E d' begun i snap"
proof -
  from assms(2) obtain r where r: "r \<in> set (requests d)" "rq_id r = i" "rq_status r \<in> begun" "bound E r snap"
    by (auto simp: holds_row_def)
  from evolves_in [OF assms(1) r(1)] obtain r' where r': "r' \<in> set (requests d')" "request_evolves K r r'" .
  then have same: "same_request r r'" "leads_to (rq_status r) (rq_status r')"
    by (simp_all add: request_evolves_def)
  then have "bound E r' snap" "rq_id r' = i" "rq_status r' \<in> begun"
    using r bound_same [OF same(1), of E snap] leads_to_begun by (auto simp: same_request_def)
  with r'(1) show ?thesis by (auto simp: holds_row_def)
qed

text \<open>The parts of the invariant that speak of the claimed, sent and recorded requests.\<close>

definition inflight_inv :: "'a environment_scheme \<Rightarrow> db \<Rightarrow> (string \<times> Snapshot \<times> service) list \<Rightarrow>
    (string \<times> status \<times> string \<times> Result option) list \<Rightarrow>
    (string \<times> Snapshot \<times> service \<times> outgoing) list \<Rightarrow> bool" where
  "inflight_inv E d cs os ss \<longleftrightarrow>
     (\<forall>(i, snap, svc) \<in> set cs. holds_row E d {dispatching} i snap \<and> recheck_target svc snap = Inr ()) \<and>
     (\<forall>(i, x) \<in> set os. outcome_ok x \<and> running d i) \<and>
     (\<forall>(i, snap, svc, out) \<in> set ss. holds_row E d begun i snap \<and>
        dispatch_request E snap svc = Some out \<and> recheck_target svc snap = Inr ()) \<and>
     distinct (map fst cs @ map fst os) \<and> distinct (map fst ss) \<and>
     fst ` set cs \<inter> fst ` set ss = {}"

lemma sys_inv_parts:
  "sys_inv E s \<longleftrightarrow> db_inv (clock s) (database s) \<and>
     inflight_inv E (database s) (claims s) (outcomes s) (sent_log s) \<and>
     (phase_of s \<noteq> Serving \<longrightarrow> claims s = [] \<and> outcomes s = [])"
  unfolding sys_inv_def inflight_inv_def running_def by fast

lemma inflight_evolves:
  assumes "evolves K d d'" "fst ` set cs \<union> fst ` set os \<subseteq> K" "inflight_inv E d cs os ss"
  shows "inflight_inv E d' cs os ss"
  unfolding inflight_inv_def
proof (intro conjI ballI)
  fix x assume x: "x \<in> set cs"
  obtain i snap svc where [simp]: "x = (i, snap, svc)" by (cases x)
  have "i \<in> K" using assms(2) x by force
  moreover have "holds_row E d {dispatching} i snap" "recheck_target svc snap = Inr ()"
    using assms(3) x by (auto simp: inflight_inv_def)
  ultimately show "case x of (i, snap, svc) \<Rightarrow>
      holds_row E d' {dispatching} i snap \<and> recheck_target svc snap = Inr ()"
    using claim_kept [OF assms(1)] by simp
next
  fix x assume x: "x \<in> set os"
  obtain i y where [simp]: "x = (i, y)" by (cases x)
  have "i \<in> K" using assms(2) x by force
  moreover have "outcome_ok y" "running d i"
    using assms(3) x by (auto simp: inflight_inv_def)
  ultimately show "case x of (i, y) \<Rightarrow> outcome_ok y \<and> running d' i"
    using running_kept [OF assms(1)] by simp
next
  fix x assume x: "x \<in> set ss"
  obtain i snap svc out where [simp]: "x = (i, snap, svc, out)" by (cases x)
  have "holds_row E d begun i snap" "dispatch_request E snap svc = Some out" "recheck_target svc snap = Inr ()"
    using assms(3) x by (auto simp: inflight_inv_def)
  then show "case x of (i, snap, svc, out) \<Rightarrow> holds_row E d' begun i snap \<and>
        dispatch_request E snap svc = Some out \<and> recheck_target svc snap = Inr ()"
    using sent_kept [OF assms(1)] by simp
qed (use assms(3) in \<open>simp_all add: inflight_inv_def\<close>)

lemma claim_inflight:
  assumes claim: "claimable E now i snap svc d" and inv: "db_inv t d" "inflight_inv E d cs os ss"
  shows "inflight_inv E (claimed_db i snap d) (cs @ [(i, snap, svc)]) os ss"
proof -
  let ?d = "claimed_db i snap d"
  from claim obtain r where r: "find_request i d = Some r" "rq_status r = queued" "open_snapshot E r = Inr snap"
    and valid: "valid_snapshot E now d snap svc"
    by (auto simp: claimable_def)
  have ev: "evolves UNIV d ?d" using claimed_db_preserves [OF inv(1) r(1,2)] by blast
  have keyed: "keyed d" using inv(1) by (simp add: db_inv_def)
  have rin: "r \<in> set (requests d)" "rq_id r = i" using find_request_in [OF r(1)] by auto
  have other: "rq_status x = queued" if "x \<in> set (requests d)" "rq_id x = i" for x
    using find_request_unique [OF keyed r(1) that(1)] that(2) r(2) by simp
  then have "\<not> running d i" by (auto simp: running_def)
  moreover have "\<not> holds_row E d {dispatching} i y" "\<not> holds_row E d begun i y" for y
    using other by (auto simp: holds_row_def begun_def)
  ultimately have fresh: "i \<notin> fst ` set cs" "i \<notin> fst ` set os" "i \<notin> fst ` set ss"
    using inv(2) by (auto simp: inflight_inv_def)
  have "r\<lparr>rq_status := dispatching\<rparr> \<in> set (requests ?d)"
    unfolding claimed_db_status [OF keyed r(1,2)] using rin(1) by force
  moreover have "bound E (r\<lparr>rq_status := dispatching\<rparr>) snap"
    using open_snapshot_bound [OF r(3)] bound_same [OF same_request_simps(1) [of r dispatching], of E snap]
    by simp
  ultimately have "holds_row E ?d {dispatching} i snap"
    using rin(2) unfolding holds_row_def by (intro bexI [of _ "r\<lparr>rq_status := dispatching\<rparr>"]) simp_all
  moreover have "inflight_inv E ?d cs os ss"
    by (rule inflight_evolves [OF ev _ inv(2)]) simp
  moreover have "recheck_target svc snap = Inr ()"
    using valid by (simp add: valid_snapshot_def)
  ultimately show ?thesis
    using fresh by (auto simp: inflight_inv_def)
qed

lemma send_inflight:
  assumes "inflight_inv E d (xs @ (i, snap, svc) # ys) os ss"
  shows "inflight_inv E d (xs @ ys) (os @ [(i, dispatch_outcome E snap svc ex)])
    (ss @ (case dispatch_request E snap svc of None \<Rightarrow> [] | Some out \<Rightarrow> [(i, snap, svc, out)]))"
proof -
  from assms have c: "holds_row E d {dispatching} i snap" "recheck_target svc snap = Inr ()"
    by (auto simp: inflight_inv_def)
  then have "running d i" "holds_row E d begun i snap"
    by (auto simp: holds_row_def running_def begun_def)
  with assms c(2) show ?thesis
    using outcome_ok_dispatch [of E snap svc ex]
    by (cases "dispatch_request E snap svc") (auto simp: inflight_inv_def)
qed

lemma record_inflight:
  assumes "inflight_inv E d cs (xs @ (i, x) # ys) ss" and "evolves (- {i}) d d'"
  shows "inflight_inv E d' cs (xs @ ys) ss"
proof (rule inflight_evolves [OF assms(2)])
  show "fst ` set cs \<union> fst ` set (xs @ ys) \<subseteq> - {i}"
    using assms(1) by (auto simp: inflight_inv_def)
  show "inflight_inv E d cs (xs @ ys) ss"
    using assms(1) by (auto simp: inflight_inv_def)
qed

lemma runs_claim_Some:
  assumes "run_tx fs (dispatch_claim E now i) d = (Inr (Some (snap, svc)), d')"
  shows "claimable E now i snap svc d \<and> d' = claimed_db i snap d"
proof -
  from run_tx_runs [OF assms] obtain w' where "runs (dispatch_claim E now i) d d (Some (snap, svc)) d' w'" ..
  from runs_dispatch_claim [OF this] show ?thesis by simp
qed

lemma db_change:
  assumes "sys_inv E s" and "refines K (clock s) now (database s) d'"
    and "fst ` set (claims s) \<union> fst ` set (outcomes s) \<subseteq> K"
  shows "db_inv now d' \<and> evolves K (database s) d' \<and>
    inflight_inv E d' (claims s) (outcomes s) (sent_log s)"
proof -
  from assms(1) have i: "db_inv (clock s) (database s)"
    "inflight_inv E (database s) (claims s) (outcomes s) (sent_log s)"
    by (simp_all add: sys_inv_parts)
  with assms(2) have "db_inv now d'" "evolves K (database s) d'" by (simp_all add: refines_def)
  with inflight_evolves [OF this(2) assms(3) i(2)] show ?thesis by blast
qed

lemma http_claim_refines:
  assumes "run_tx fs (http_claim E now device srv m path raw_query) d = (r, d')" "t \<le> now"
  shows "refines K t now d d'"
  by (rule run_refines [OF safe_server(6) assms(2) _ assms(1)]) (rule refines_http_claim, assumption, rule assms(2))

theorem sys_inv_step:
  assumes "step E s s'" and inv: "sys_inv E s"
  shows "sys_inv E s'"
  using assms(1)
proof cases
  case (step_command now fs cmd)
  then show ?thesis
    using db_change [OF inv perform_refines [OF step_command(3), of UNIV _ E fs cmd]]
    by (simp add: sys_inv_parts)
next
  case (step_claim now fs i snap svc d')
  then have c: "claimable E now i snap svc (database s)" "d' = claimed_db i snap (database s)"
    using runs_claim_Some by blast+
  have parts: "db_inv (clock s) (database s)" "inflight_inv E (database s) (claims s) (outcomes s) (sent_log s)"
    using inv by (simp_all add: sys_inv_parts)
  note db_change [OF inv claim_refines [OF step_claim(4,3), where K = UNIV]]
  with claim_inflight [OF c(1) parts] step_claim c(2) show ?thesis
    by (simp add: sys_inv_parts)
next
  case (step_no_claim now fs i r d')
  note db_change [OF inv claim_refines [OF step_no_claim(4,3), where K = UNIV]]
  with step_no_claim show ?thesis by (simp add: sys_inv_parts)
next
  case (step_send xs i snap svc ys ex)
  with inv have "inflight_inv E (database s) (xs @ (i, snap, svc) # ys) (outcomes s) (sent_log s)"
    by (simp add: sys_inv_parts)
  from send_inflight [OF this, of ex] step_send inv show ?thesis by (simp add: sys_inv_parts)
next
  case (step_record now xs i st why res ys fs nonce r d')
  have f: "inflight_inv E (database s) (claims s) (xs @ (i, st, why, res) # ys) (sent_log s)"
    and d: "db_inv (clock s) (database s)"
    using inv step_record(4) by (simp_all add: sys_inv_parts)
  then have ok: "outcome_ok (st, why, res)" "running (database s) i"
    by (auto simp: inflight_inv_def)
  then obtain q where q: "q \<in> set (requests (database s))" "rq_id q = i" "rq_status q = dispatching"
    by (auto simp: running_def)
  have "find_request i (database s) = Some q"
    using q d find_request_iff by (simp add: db_inv_def)
  from finish_refines [OF step_record(5,3) this q(3), of "- {i}"] ok(1)
  have "refines (- {i}) (clock s) now (database s) d'" by (simp add: outcome_ok_def)
  with d have "db_inv now d'" "evolves (- {i}) (database s) d'" by (auto simp: refines_def)
  with record_inflight [OF f] step_record inv show ?thesis by (simp add: sys_inv_parts)
next
  case (step_http_claim now fs device srv m path raw_query svc p target d' h body)
  note db_change [OF inv http_claim_refines [OF step_http_claim(4,3), where K = UNIV]]
  with step_http_claim show ?thesis by (simp add: sys_inv_parts)
next
  case (step_http_refused now fs device srv m path raw_query e d')
  note db_change [OF inv http_claim_refines [OF step_http_refused(4,3), where K = UNIV]]
  with step_http_refused show ?thesis by (simp add: sys_inv_parts)
next
  case (step_http_send xs k ys)
  with inv show ?thesis by (simp add: sys_inv_parts)
next
  case step_stop
  with inv show ?thesis by (auto simp: sys_inv_parts inflight_inv_def)
next
  case (step_start now fs password i hash d')
  with inv have "claims s = []" "outcomes s = []" by (simp_all add: sys_inv_parts)
  with db_change [OF inv recover_refines [OF step_start(4,3)]] step_start show ?thesis
    by (simp add: sys_inv_parts)
next
  case (step_start_fails now fs password i hash e d')
  with db_change [OF inv start_fails_refines [OF step_start_fails(4,3), where K = UNIV]] inv show ?thesis
    by (simp add: sys_inv_parts)
next
  case (step_restored now fs d')
  with db_change [OF inv restored_refines [OF step_restored(4,3), where K = UNIV]] inv show ?thesis
    by (simp add: sys_inv_parts)
next
  case step_serve
  with inv have "claims s = []" "outcomes s = []" by (simp_all add: sys_inv_parts)
  with inv step_serve show ?thesis by (simp add: sys_inv_parts)
qed

lemma initial_inv: "initial s \<Longrightarrow> sys_inv E s"
  by (auto simp: initial_def sys_inv_parts inflight_inv_def db_inv_def empty_db_def keyed_def linked_def
      decided_def pending_bound_def pending_count_def grants_disjoint_def candidate_rows_def
      perms.disjoint_def revisions_ok_def)

interpretation sys: invariant initial "step E" "sys_inv E" for E
  by unfold_locales (auto intro: initial_inv sys_inv_step)

section \<open>Runs\<close>

lemma evolves_weaken: "evolves K d d' \<Longrightarrow> evolves {} d d'"
proof -
  have "grows (request_evolves K) xs ys \<Longrightarrow> grows (request_evolves {}) xs ys" for xs ys
    unfolding grows_def request_evolves_def
    by (elim exE conjE, intro exI conjI, assumption) (erule list.rel_mono_strong, blast)
  then show "evolves K d d' \<Longrightarrow> evolves {} d d'"
    unfolding evolves_def by blast
qed

lemma refines_evolves: "sys_inv E s \<Longrightarrow> refines K (clock s) now (database s) d' \<Longrightarrow> evolves {} (database s) d'"
  by (auto simp: refines_def sys_inv_parts intro: evolves_weaken)

lemma step_evolves:
  assumes "step E s s'" and inv: "sys_inv E s"
  shows "evolves {} (database s) (database s')"
  using assms(1)
proof cases
  case (step_command now fs cmd)
  then show ?thesis
    using refines_evolves [OF inv perform_refines [OF step_command(3), of UNIV _ E fs cmd]] by simp
next
  case (step_claim now fs i snap svc d')
  with refines_evolves [OF inv claim_refines [OF step_claim(4,3), where K = UNIV]] show ?thesis by simp
next
  case (step_no_claim now fs i r d')
  with refines_evolves [OF inv claim_refines [OF step_no_claim(4,3), where K = UNIV]] show ?thesis by simp
next
  case (step_record now xs i st why res ys fs nonce r d')
  from inv have "outcome_ok (st, why, res)" "running (database s) i" and d: "keyed (database s)"
    using step_record(4) by (auto simp: sys_inv_parts inflight_inv_def db_inv_def)
  then obtain q where q: "q \<in> set (requests (database s))" "rq_id q = i" "rq_status q = dispatching"
    by (auto simp: running_def)
  have "find_request i (database s) = Some q"
    using q d find_request_iff by simp
  from finish_refines [OF step_record(5,3) this q(3), of "- {i}"] \<open>outcome_ok _\<close>
  have "refines (- {i}) (clock s) now (database s) d'" by (simp add: outcome_ok_def)
  from refines_evolves [OF inv this] step_record show ?thesis by simp
next
  case (step_http_claim now fs device srv m path raw_query svc p target d' h body)
  with refines_evolves [OF inv http_claim_refines [OF step_http_claim(4,3), where K = UNIV]] show ?thesis by simp
next
  case (step_http_refused now fs device srv m path raw_query e d')
  with refines_evolves [OF inv http_claim_refines [OF step_http_refused(4,3), where K = UNIV]] show ?thesis by simp
next
  case (step_start now fs password i hash d')
  with refines_evolves [OF inv recover_refines [OF step_start(4,3)]] show ?thesis by simp
next
  case (step_start_fails now fs password i hash e d')
  with refines_evolves [OF inv start_fails_refines [OF step_start_fails(4,3), where K = UNIV]] show ?thesis by simp
next
  case (step_restored now fs d')
  with refines_evolves [OF inv restored_refines [OF step_restored(4,3), where K = UNIV]] show ?thesis by simp
qed simp_all

lemma run_evolves:
  assumes "(step E)\<^sup>*\<^sup>* s s'" and "sys_inv E s"
  shows "evolves {} (database s) (database s')"
proof (rule sys.monotone [OF assms, where R = "\<lambda>a b. evolves {} (database a) (database b)"])
  show "reflp (\<lambda>a b. evolves {} (database a) (database b))" by (simp add: reflp_def)
  show "transp (\<lambda>a b. evolves {} (database a) (database b))" by (auto simp: transp_def intro: evolves_trans)
qed (rule step_evolves)

lemma sent_facts:
  assumes "sys_inv E s" "(i, snap, svc, out) \<in> set (sent_log s)"
  shows "holds_row E (database s) begun i snap" "dispatch_request E snap svc = Some out"
    "recheck_target svc snap = Inr ()"
proof -
  from assms(1) have "\<forall>(i, snap, svc, out) \<in> set (sent_log s). holds_row E (database s) begun i snap \<and>
        dispatch_request E snap svc = Some out \<and> recheck_target svc snap = Inr ()"
    by (simp add: sys_inv_def)
  with assms(2) show "holds_row E (database s) begun i snap" "dispatch_request E snap svc = Some out"
    "recheck_target svc snap = Inr ()" by blast+
qed

section \<open>Devices\<close>

lemma revoked_inactive:
  assumes "sys_inv E s" "evolves {} d (database s)" "v \<in> set (devices d)" "dev_revoked v"
  shows "\<not> active_device (dev_id v) (database s)"
proof -
  from assms(2,3) obtain v' where v': "v' \<in> set (devices (database s))" "device_evolves v v'"
    using grows_in unfolding evolves_def by metis
  have "distinct (map dev_id (devices (database s)))"
    using assms(1) by (simp add: sys_inv_parts db_inv_def keyed_def)
  from unique_id [OF this _ v'(1)] v'(2) assms(4) show ?thesis
    by (auto simp: active_device_def list_ex_iff device_evolves_def)
qed

lemma claim_active: "claimable E now i snap svc d \<Longrightarrow> active_device (snap_DeviceID snap) d"
  by (auto simp: claimable_def valid_snapshot_def elim: authorize_SomeE)

lemma http_claim_runs:
  assumes "run_tx fs (http_claim E now device srv m path raw_query) d = (Inr (svc, p, target), d')"
  shows "\<exists>row. authorize E now d device srv m path = Some (svc, row) \<and> Mode row = standing \<and>
      Target (BaseURL svc) path raw_query = Inr target \<and> p = permission.truncate row \<and>
      d' = audited [] device ''http_claim'' (perm_ID row) d"
proof -
  from run_tx_runs [OF assms] obtain w' where
    "runs (http_claim E now device srv m path raw_query) d d (svc, p, target) d' w'" ..
  from runs_http_claim [OF this] show ?thesis by auto
qed

lemma http_claim_active:
  assumes "run_tx fs (http_claim E now device srv m path raw_query) d = (Inr (svc, p, target), d')"
  shows "active_device device d"
  using http_claim_runs [OF assms] by (auto elim: authorize_SomeE)

section \<open>After a revocation\<close>

text \<open>
  What is on its way for a device: the durable requests claimed or sent, and the direct ones. Once
  the device is revoked a step adds nothing to it: a request that is sent then was claimed before.
\<close>

definition directs :: "string \<Rightarrow> sys \<Rightarrow> direct_claim multiset" where
  "directs dev s = filter_mset (\<lambda>k. dc_device k = dev) (mset (http_claims s) + mset (map fst (http_log s)))"

definition durables :: "string \<Rightarrow> sys \<Rightarrow> (string \<times> Snapshot \<times> service) set" where
  "durables dev s = {(i, snap, svc). snap_DeviceID snap = dev \<and>
     ((i, snap, svc) \<in> set (claims s) \<or> (\<exists>out. (i, snap, svc, out) \<in> set (sent_log s)))}"

lemma step_adds_nothing:
  assumes "step E s s'" "\<not> active_device dev (database s)"
  shows "directs dev s' \<subseteq># directs dev s \<and> durables dev s' \<subseteq> durables dev s"
  using assms(1)
proof cases
  case (step_claim now fs i snap svc d')
  then have "active_device (snap_DeviceID snap) (database s)"
    using runs_claim_Some claim_active by blast
  with assms(2) have "snap_DeviceID snap \<noteq> dev" by auto
  with step_claim show ?thesis by (auto simp: directs_def durables_def)
next
  case (step_http_claim now fs device srv m path raw_query svc p target d' h body)
  with http_claim_active assms(2) have "device \<noteq> dev" by blast
  with step_http_claim show ?thesis by (simp add: directs_def durables_def)
next
  case (step_http_send xs k ys)
  then show ?thesis
    by (cases "direct_request E k") (auto simp: directs_def durables_def intro: multiset_filter_mono)
qed (auto simp: directs_def durables_def split: option.splits)

lemma run_adds_nothing:
  assumes "(step E)\<^sup>*\<^sup>* s s'" "sys_inv E s" "v \<in> set (devices (database s))" "dev_revoked v"
  shows "directs (dev_id v) s' \<subseteq># directs (dev_id v) s \<and> durables (dev_id v) s' \<subseteq> durables (dev_id v) s"
  using assms(1)
proof (induction rule: rtranclp_induct)
  case (step a b)
  have "\<not> active_device (dev_id v) (database a)"
    by (rule revoked_inactive [OF sys.kept [OF step.hyps(1) assms(2)] run_evolves [OF step.hyps(1) assms(2)] assms(3,4)])
  from step_adds_nothing [OF step.hyps(2) this] step.IH show ?case
    by (meson subset_mset.order_trans subset_trans)
qed simp

end
