(* ===== verification/Audit_Log.thy ===== *)
theory Audit_Log
  imports System
begin

text \<open>
  The audit log: no operation removes or rewrites an entry, and what leaves the server is on
  record before it leaves. And the origin of direct requests: each was claimed, and the state in
  which it was claimed authorized it.
\<close>

section \<open>Operations that only append to the audit log\<close>

definition logs :: "'a tx \<Rightarrow> bool" where
  "logs m \<longleftrightarrow> (\<forall>s r s'. prefix (audit (committed s)) (audit (working s)) \<longrightarrow> m s = (r, s') \<longrightarrow>
     prefix (audit (committed s)) (audit (committed s')) \<and> prefix (audit (committed s')) (audit (working s')))"

interpretation growth: passage "\<lambda>s s'. prefix (audit (committed s)) (audit (working s)) \<longrightarrow>
    prefix (audit (committed s)) (audit (committed s')) \<and> prefix (audit (committed s')) (audit (working s'))"
  by unfold_locales (auto intro: prefix_order.trans)

lemma logs_follows: "logs m \<longleftrightarrow> follows (\<lambda>s s'. prefix (audit (committed s)) (audit (working s)) \<longrightarrow>
    prefix (audit (committed s)) (audit (committed s')) \<and> prefix (audit (committed s')) (audit (working s'))) m"
  unfolding logs_def follows_def by (metis prod.collapse snd_conv)

named_theorems log_rules

lemma logs_reads: "reads m \<Longrightarrow> logs m"
  by (auto simp: reads_def logs_def) (metis prefix_order.refl snd_conv)+

lemmas logs_leaves [log_rules] = reads_ret [THEN logs_reads] reads_fail [THEN logs_reads]
  reads_query [THEN logs_reads] reads_query_rows [THEN logs_reads] reads_ActiveDevice [THEN logs_reads]
  reads_GetService [THEN logs_reads] reads_Authorize [THEN logs_reads] reads_load_snapshot [THEN logs_reads]
  reads_validSnapshot [THEN logs_reads] reads_query_now(1) [THEN logs_reads] reads_next_revision [THEN logs_reads]
  reads_claim_approved [THEN logs_reads]

lemma logsD: "logs m \<Longrightarrow> m s = (r, s') \<Longrightarrow> prefix (audit (committed s)) (audit (working s)) \<Longrightarrow>
    prefix (audit (committed s)) (audit (committed s')) \<and> prefix (audit (committed s')) (audit (working s'))"
  unfolding logs_def by blast

lemma logs_bind [log_rules]: "logs m \<Longrightarrow> (\<And>x. logs (f x)) \<Longrightarrow> logs (bind m f)"
  unfolding logs_follows by (rule growth.binds)

lemma logs_wrap [log_rules]: "logs m \<Longrightarrow> logs (or_err e m)" "logs m \<Longrightarrow> logs (ignore m)" "logs m \<Longrightarrow> logs (attempt m)"
  by (auto simp: logs_def or_err_def ignore_def attempt_def split: prod.splits sum.splits)

lemma logs_begin_commit [log_rules]: "logs begin_tx" "logs commit"
  by (auto simp: logs_def begin_tx_def commit_def split: if_splits)

lemma logs_exec [log_rules]: "(\<And>d d'. f d = Some d' \<Longrightarrow> prefix (audit d) (audit d')) \<Longrightarrow> logs (exec f)"
  by (auto simp: logs_def exec_def split: if_splits option.splits intro: prefix_order.trans)

lemma logs_exec_now [log_rules]: "(\<And>d d'. f d = Some d' \<Longrightarrow> audit d' = audit d) \<Longrightarrow> logs (exec_now f)"
  by (auto simp: logs_def exec_now_def split: if_splits option.splits)

lemma logs_exec_count [log_rules]: "(\<And>d. audit (f d) = audit d) \<Longrightarrow> logs (exec_count n f)"
  by (auto simp: logs_def exec_count_def split: if_splits)

lemma logs_Audit [log_rules]: "logs (Audit owner device kind entity)"
  unfolding Audit_def by (rule logs_exec) auto

lemma logs_for_each [log_rules]: "(\<And>i. logs (f i)) \<Longrightarrow> logs (for_each f ids)"
  by (induction ids) (auto intro!: log_rules)

lemmas logs_splits [log_rules] = tx_split [where P = logs]

lemma insert_audit:
  "insert_request r d = Some d' \<Longrightarrow> audit d' = audit d" "insert_approval a d = Some d' \<Longrightarrow> audit d' = audit d"
  "insert_permission p d = Some d' \<Longrightarrow> audit d' = audit d" "insert_service sv d = Some d' \<Longrightarrow> audit d' = audit d"
  "insert_device v d = Some d' \<Longrightarrow> audit d' = audit d" "insert_invitation n d = Some d' \<Longrightarrow> audit d' = audit d"
  "insert_session ss d = Some d' \<Longrightarrow> audit d' = audit d" "insert_owner ow d = Some d' \<Longrightarrow> audit d' = audit d"
  by (auto simp: insert_request_def insert_approval_def insert_permission_def insert_service_def insert_device_def
      insert_invitation_def insert_session_def insert_owner_def split: if_splits)

lemma update_audit [simp]:
  "audit (update_requests P f d) = audit d" "audit (update_devices Q g d) = audit d"
  "audit (update_services R h d) = audit d" "audit (update_permissions S k d) = audit d"
  "audit (mark_dispatching i d) = audit d" "audit (use_invitation E secret d) = audit d"
  "audit (set_certificate i c d) = audit d"
  by (simp_all add: update_requests_def update_devices_def update_services_def update_permissions_def
      mark_dispatching_def use_invitation_def set_certificate_def)

lemma logs_close [log_rules]: "logs (close_request st why now i)" "logs (cancelRequests now col j why')"
  "logs (finishTx E now nonce i st why res)" "logs (finish E now nonce i st why res)"
  unfolding close_request_def cancelRequests_def finish_def finishTx_def
  by (intro log_rules; simp add: close_request_def)+

lemma logs_Submit [log_rules]: "logs (Submit E now random nonce device inp)"
  unfolding Submit_def submit_new_def check_pending_def Let_def
  by (intro log_rules; drule insert_audit; simp)

lemma logs_Decide [log_rules]: "logs (Decide E now owner i digest dec)"
  unfolding Decide_def Let_def
  by (intro log_rules; (drule insert_audit)?; auto)

lemma logs_maintenance [log_rules]: "logs (maintenance now)"
  unfolding maintenance_def by (intro log_rules; auto)

lemma logs_owner [log_rules]: "logs (addService E now nonce owner revise f)" "logs (addPermission E now random owner g)"
  "logs (revokePermission now owner i)" "logs (disableService now owner j)" "logs (revoke now owner k)"
  unfolding addService_def save_service_def addPermission_def revokePermission_def disableService_def revoke_def Let_def
  by (intro log_rules; (drule insert_audit)?; auto)+

lemma logs_server [log_rules]: "logs (Invitation E now random1 random2 owner label)"
  "logs (enroll_tx E iss prs now secret csr)" "logs (renew_tx iss prs device csr)"
  "logs (login_tx E check now password random3 random4)" "logs (logout_tx E cookie)"
  "logs (http_claim E now device srv m path raw_query)" "logs (New_tx now password i hash)"
  "logs (RecoverRestored now)"
  unfolding Invitation_def enroll_tx_def renew_tx_def login_tx_def logout_tx_def http_claim_def New_tx_def
    create_owner_def recoverDispatches_def RecoverRestored_def revoke_device_row_def Let_def
  by (intro log_rules; (drule insert_audit)?; auto)+

lemma logs_dispatch [log_rules]: "logs (dispatch_claim E now i)"
  unfolding dispatch_claim_def claim_snapshot_def claim_send_def
  by (intro log_rules; (drule insert_audit)?; auto)

lemma logs_perform: "logs (perform E now cmd)"
  by (cases cmd) (auto intro!: log_rules)

lemma logs_run: "logs m \<Longrightarrow> run_tx fs m d = (r, d') \<Longrightarrow> prefix (audit d) (audit d')"
  by (auto simp: run_tx_def split: prod.splits dest: logsD)

lemma step_logs: "step E s s' \<Longrightarrow> prefix (audit (database s)) (audit (database s'))"
  by (induction rule: step.induct)
    (auto simp: perform_run_def intro: logs_run [OF logs_perform surjective_pairing] logs_run log_rules)

section \<open>What is sent is on record\<close>

definition recorded :: "string \<Rightarrow> string \<Rightarrow> string \<Rightarrow> db \<Rightarrow> bool" where
  "recorded kind device entity d \<longleftrightarrow>
     \<lparr>aud_owner = [], aud_device = device, aud_kind = kind, aud_entity = entity\<rparr> \<in> set (audit d)"

lemma recorded_later: "recorded kind device entity d \<Longrightarrow> prefix (audit d) (audit d') \<Longrightarrow> recorded kind device entity d'"
  by (auto simp: recorded_def prefix_def)

lemma recorded_now [simp]: "recorded kind device entity (audited [] device kind entity d)"
  by (simp add: recorded_def audited_def)

definition dispatches_recorded :: "sys \<Rightarrow> bool" where
  "dispatches_recorded s \<longleftrightarrow>
     (\<forall>(i, snap, svc) \<in> set (claims s). recorded ''request_dispatching'' (snap_DeviceID snap) i (database s)) \<and>
     (\<forall>(i, snap, svc, out) \<in> set (sent_log s). recorded ''request_dispatching'' (snap_DeviceID snap) i (database s))"

lemma dispatches_recorded_step:
  assumes "step E s s'" "dispatches_recorded s"
  shows "dispatches_recorded s'"
proof -
  have later: "recorded kind device i (database s')" if "recorded kind device i (database s)" for kind device i
    using that step_logs [OF assms(1)] by (rule recorded_later)
  have c: "recorded ''request_dispatching'' (snap_DeviceID snap) i (database s')" if "(i, snap, svc) \<in> set (claims s)" for i snap svc
    using assms(2) that later by (auto simp: dispatches_recorded_def)
  have l: "recorded ''request_dispatching'' (snap_DeviceID snap) i (database s')"
    if "(i, snap, svc, out) \<in> set (sent_log s)" for i snap svc out
    using assms(2) that later by (auto simp: dispatches_recorded_def)
  have n: "recorded ''request_dispatching'' (snap_DeviceID snap) i (claimed_db i snap d)" for i snap d
    by (simp add: claimed_db_def)
  from assms(1) show ?thesis
  proof cases
    case (step_claim now fs i snap svc d')
    then have "d' = claimed_db i snap (database s)" using runs_claim_Some by blast
    with step_claim c l n show ?thesis unfolding dispatches_recorded_def by auto
  next
    case (step_send xs i snap svc ys ex)
    with c l show ?thesis unfolding dispatches_recorded_def by (auto split: option.splits)
  qed (use c l in \<open>auto simp: dispatches_recorded_def\<close>)
qed

text \<open>
  What a direct request rests on: the state in which its claim was made authorized it, by a standing
  permission, and fixed its target; and the claim is in the log.
\<close>

definition granted :: "'a environment_scheme \<Rightarrow> sys \<Rightarrow> direct_claim \<Rightarrow> bool" where
  "granted E s k \<longleftrightarrow> phase_of s = Serving \<and> clock s \<le> dc_time k \<and>
     (\<exists>row. authorize E (dc_time k) (database s) (dc_device k) (svc_ID (dc_service k)) (dc_method k) (dc_path k) =
         Some (dc_service k, row) \<and> Mode row = standing \<and> dc_permission k = permission.truncate row \<and>
       (\<exists>q. Target (BaseURL (dc_service k)) (dc_path k) q = Inr (dc_target k)))"

definition claimed_before :: "'a environment_scheme \<Rightarrow> sys \<Rightarrow> sys \<Rightarrow> direct_claim \<Rightarrow> bool" where
  "claimed_before E s s' k \<longleftrightarrow> (\<exists>s1. (step E)\<^sup>*\<^sup>* s s1 \<and> granted E s1 k \<and> (step E)\<^sup>*\<^sup>* s1 s') \<and>
     recorded ''http_claim'' (dc_device k) (perm_ID (dc_permission k)) (database s')"

lemma claimed_before_step:
  assumes "claimed_before E s s' k" "step E s' s''"
  shows "claimed_before E s s'' k"
  using assms step_logs [OF assms(2)] unfolding claimed_before_def
  by (meson recorded_later rtranclp.rtrancl_into_rtrancl)

lemma http_claim_granted:
  assumes "phase_of s = Serving" "clock s \<le> now"
    and "run_tx fs (http_claim E now device srv m path raw_query) (database s) = (Inr (svc, p, target), d')"
    and k: "k = \<lparr>dc_time = now, dc_device = device, dc_method = m, dc_path = path, dc_header = h, dc_body = body,
      dc_service = svc, dc_permission = p, dc_target = target\<rparr>"
  shows "granted E s k \<and> recorded ''http_claim'' device (perm_ID p) d'"
proof -
  from http_claim_runs [OF assms(3)] obtain row where row:
    "authorize E now (database s) device srv m path = Some (svc, row)" "Mode row = standing"
    "Target (BaseURL svc) path raw_query = Inr target" "p = permission.truncate row"
    "d' = audited [] device ''http_claim'' (perm_ID row) (database s)"
    by blast
  have "svc_ID svc = srv" using row(1) by (auto elim!: authorize_SomeE elim: enabled_serviceE)
  with row assms(1,2) show ?thesis by (auto simp: granted_def k recorded_def audited_def permission.truncate_def)
qed

lemma direct_origin:
  assumes "(step E)\<^sup>*\<^sup>* s s'" "http_claims s = []" "http_log s = []"
  shows "(\<forall>k \<in> set (http_claims s'). claimed_before E s s' k) \<and>
    (\<forall>(k, out) \<in> set (http_log s'). claimed_before E s s' k \<and> direct_request E k = Some out)"
  using assms(1)
proof (induction rule: rtranclp_induct)
  case (step a b)
  have old: "claimed_before E s b k" if "claimed_before E s a k" for k
    by (rule claimed_before_step [OF that step.hyps(2)])
  from step.hyps(2) show ?case
  proof cases
    case (step_http_claim now fs device srv m path raw_query svc p target d' h body)
    let ?k = "\<lparr>dc_time = now, dc_device = device, dc_method = m, dc_path = path, dc_header = h, dc_body = body,
      dc_service = svc, dc_permission = p, dc_target = target\<rparr>"
    have "granted E a ?k" "recorded ''http_claim'' device (perm_ID p) d'"
      using http_claim_granted [OF step_http_claim(2-4) refl] by auto
    with step.hyps step_http_claim(1) have "claimed_before E s b ?k"
      unfolding claimed_before_def by (auto intro!: exI [of _ a])
    with step.IH old step_http_claim(1) show ?thesis by auto
  next
    case (step_http_send xs k ys)
    with step.IH old show ?thesis by (auto split: option.splits)
  qed (use step.IH old in auto)
qed (use assms(2,3) in simp)

end
