(* ===== verification/Fault_Free.thy ===== *)
theory Fault_Free
  imports Server_Facts
begin

text \<open>
  The operations when no storage statement fails: what each returns and leaves behind, as
  equations. With the rules for arbitrary faults, which bound what can go wrong, they say what
  goes right.
\<close>

abbreviation clear :: "db \<Rightarrow> db \<Rightarrow> txst" where
  "clear c w \<equiv> \<lparr>committed = c, working = w, faults = []\<rparr>"

section \<open>Bulk updates\<close>

lemma plain_close_request:
  "close_request st why now i (clear c w) = (Inr (), clear c (close_one st why now i w))"
  by (simp add: close_request_def plain_run Audit_def close_one_def audited_def closed_def [abs_def])

lemma plain_close_all:
  "for_each (close_request st why now) ids (clear c w) = (Inr (), clear c (close_all st why now ids w))"
  by (induction ids arbitrary: w) (simp_all add: plain_run plain_close_request close_all_def)

lemma plain_cancelRequests:
  "cancelRequests now col i why (clear c w) =
     (Inr (), clear c (close_all cancelled why now (cancellable col i w) w))"
  by (simp add: cancelRequests_alt plain_run plain_close_all)

lemma requests_closed_scope:
  assumes "distinct (map rq_id (requests d))"
  shows "requests (close_all st why now (map rq_id (filter P (requests d))) d) =
    map (\<lambda>r. if P r then closed st why now r else r) (requests d)"
proof -
  have "rq_id r \<in> set (map rq_id (filter P (requests d))) \<longleftrightarrow> P r" if "r \<in> set (requests d)" for r
    using that unique_id [OF assms] by auto
  then show ?thesis by simp
qed

lemma plain_revoke:
  "run_tx [] (revoke now owner i) d =
     (if i \<in> dev_id ` set (devices d)
      then (Inr (), audited owner i ''device_revoked'' i
        (close_all cancelled ''device_revoked'' now (cancellable device_id i d) (revoked_row i d)))
      else (Inl DriverErr, d))"
  by (auto simp: run_tx_def revoke_def plain_run exec_count_def plain_cancelRequests Audit_def audited_def
      revoked_row_def filter_empty_conv)

lemma plain_revokePermission:
  "run_tx [] (revokePermission now owner i) d =
     (if i \<in> perm_ID ` set (permissions d)
      then (Inr (), audited owner [] ''permission_revoked'' i
        (close_all cancelled ''permission_revoked'' now (cancellable permission_id i d) (permission_revoked i d)))
      else (Inl (Err ''permission not found''), d))"
  by (auto simp: run_tx_def revokePermission_def plain_run exec_count_def plain_cancelRequests Audit_def
      audited_def permission_revoked_def filter_empty_conv)

lemma plain_disableService:
  "run_tx [] (disableService now owner i) d =
     (if i \<in> sv_id ` set (services d)
      then (Inr (), audited owner [] ''service_disabled'' i
        (close_all cancelled ''service_disabled'' now (cancellable service_id i d) (service_disabled i d)))
      else (Inl (Err ''service not found''), d))"
  by (auto simp: run_tx_def disableService_def plain_run exec_count_def plain_cancelRequests Audit_def
      audited_def service_disabled_def filter_empty_conv)

lemma plain_recoverDispatches:
  "run_tx [] (recoverDispatches now) d = (Inr (), close_all outcome_unknown
     ''server_restarted_during_dispatch_check_provider'' now (interrupted d) d)"
  by (simp add: run_tx_def recoverDispatches_def plain_run plain_close_all interrupted_def)

lemma plain_New_tx:
  assumes "owners d \<noteq> []"
  shows "run_tx [] (New_tx now password i hash) d = (Inr (), close_all outcome_unknown
     ''server_restarted_during_dispatch_check_provider'' now (interrupted d) d)"
  using plain_recoverDispatches [of now d] assms
  by (auto simp: run_tx_def New_tx_def create_owner_def query_now_def plain_run recoverDispatches_def
      plain_close_all interrupted_def)

lemma plain_maintenance:
  "run_tx [] (maintenance now) d =
     (Inr (), without_sessions (\<lambda>s. ses_expires s \<le> now) (maintained now (overdue now d) d))"
  by (simp add: run_tx_def maintenance_def plain_run plain_close_all maintained_def without_sessions_def not_le)

section \<open>Requests\<close>

lemma plain_load_snapshot:
  "load_snapshot E i (clear c w) =
     (case find_request i w of None \<Rightarrow> Inl DriverErr | Some r \<Rightarrow> open_snapshot E r, clear c w)"
  by (auto simp: load_snapshot_def plain_run split: option.splits sum.splits)

lemma plain_valid_Inr:
  "valid_snapshot E now w snap svc \<Longrightarrow> validSnapshot E now snap (clear c w) = (Inr svc, clear c w)"
  by (auto simp: valid_snapshot_def validSnapshot_def plain_run plain_Authorize)

lemma plain_Decide:
  assumes "dec = ''approve'' \<or> dec = ''deny''" "find_request i d = Some r" "digest = snapshot_digest r"
    "rq_status r = pending_approval" "open_snapshot E r = Inr snap" "valid_snapshot E now d snap svc"
    "insert_approval \<lparr>ap_request = i, decided_by = owner, ap_digest = digest, decision = dec\<rparr> d = Some d1"
  shows "run_tx [] (Decide E now owner i digest dec) d = (Inr (),
     audited owner (snap_DeviceID snap) (request_kind (if dec = ''deny'' then denied else queued)) i
       (update_requests (\<lambda>x. rq_id x = i \<and> rq_status x = pending_approval)
          (set_decided (if dec = ''deny'' then denied else queued) (if dec = ''deny'' then Some now else None)) d1))"
  using assms
  by (auto simp: run_tx_def Decide_def plain_run plain_load_snapshot plain_valid_Inr Let_def Audit_def audited_def)

lemma plain_finish:
  "finish E now nonce i st why res (clear c w) =
     (Inr (), clear (finished_db E now nonce i st why res c) (finished_db E now nonce i st why res c))"
  by (simp add: finish_def finishTx_def plain_run Audit_def audited_def finished_db_def)

lemma plain_claim:
  assumes "claimable E now i snap svc d"
  shows "dispatch_claim E now i (clear d w) =
    (Inr (Some (snap, svc)), clear (claimed_db i snap d) (claimed_db i snap d))"
proof -
  from assms obtain r where "find_request i d = Some r" "rq_status r = queued" "open_snapshot E r = Inr snap"
    and v: "valid_snapshot E now d snap svc" and a: "approved i snap d"
    by (auto simp: claimable_def)
  moreover have "claim_approved E now i snap (clear d d) = (Inr True, clear d d)"
    using a by (auto simp: claim_approved_def approved_def plain_run)
  ultimately show ?thesis
    using plain_valid_Inr [OF v]
    by (simp add: dispatch_claim_def plain_run plain_load_snapshot attempt_def claim_snapshot_def
        claim_send_def Audit_def audited_def claimed_db_def)
qed

lemma plain_dispatch:
  assumes "claimable E now i snap svc d" "dispatch_outcome E snap svc ex = (st, why, res)"
  shows "run_tx [] (dispatch E now now' nonce i ex) d =
    (Inr (), finished_db E now' nonce i st why res (claimed_db i snap d))"
  using assms(2) by (simp add: run_tx_def dispatch_def plain_run plain_claim [OF assms(1)] plain_finish dispatch_record_def)

lemma plain_ActiveDevice: "ActiveDevice i (clear c w) = (Inr (active_device i w), clear c w)"
  by (simp add: ActiveDevice_def plain_run)

lemma plain_Submit_again:
  assumes "Normalize inp = Inr n" "active_device device d"
    and "find (\<lambda>r. rq_device r = device \<and> key_hash r = Hash E (IdempotencyKey n)) (requests d) = Some r"
  shows "run_tx [] (Submit E now random nonce device inp) d =
    (if SubmissionDigest E n = submission_digest r then Inr (rq_id r) else Inl (Err ''idempotency_conflict''), d)"
  using assms by (simp add: run_tx_def Submit_def plain_run plain_ActiveDevice)

lemma plain_check_pending:
  "check_pending device now m (clear c w) =
     (if m = approval_required then
        (if 20 \<le> pending_count device now w then Inl (Err ''pending_limit'')
         else Inr (pending_approval, now + 10 * minute))
      else Inr (queued, now + minute), clear c w)"
  by (simp add: check_pending_def plain_run)

lemma plain_submit_new:
  assumes "admitted E now random nonce device inp w r" "insert_request r w = Some d"
  shows "submit_new E now random nonce device inp (clear c w) =
    (Inr (ID ''req_'' random), clear (audited [] device (request_kind (rq_status r)) (ID ''req_'' random) d)
       (audited [] device (request_kind (rq_status r)) (ID ''req_'' random) d))"
proof -
  from assms(1) obtain svc p headers target st expiry where
    a: "authorize E now w device (sub_Service inp) (sub_Method inp) (sub_Path inp) = Some (svc, p)"
      "ApplicationHeaders inp svc = Inr headers"
      "Target (BaseURL svc) (sub_Path inp) (sub_Query inp) = Inr target"
      "if Mode p = approval_required
       then pending_count device now w < 20 \<and> st = pending_approval \<and> expiry = now + 10 * minute
       else st = queued \<and> expiry = now + minute"
      "r = new_row E now (ID ''req_'' random) nonce device inp
              (submit_snapshot device inp svc (permission.truncate p) target headers expiry) st"
    unfolding admitted_def by blast
  have "check_pending device now (Mode p) (clear c w) = (Inr (st, expiry), clear c w)"
    using a(4) by (auto simp: plain_check_pending)
  with a(1-3,5) assms(2) show ?thesis
    by (simp add: submit_new_def plain_run plain_Authorize Let_def Audit_def audited_def)
qed

lemma plain_Submit_new:
  assumes "Normalize inp = Inr n" "active_device device d"
    and "find (\<lambda>r. rq_device r = device \<and> key_hash r = Hash E (IdempotencyKey n)) (requests d) = None"
    and "admitted E now random nonce device n d r" "insert_request r d = Some d1"
  shows "run_tx [] (Submit E now random nonce device inp) d = (Inr (ID ''req_'' random),
    audited [] device (request_kind (rq_status r)) (ID ''req_'' random) d1)"
  using assms(1-3) plain_submit_new [OF assms(4,5)]
  by (simp add: run_tx_def Submit_def plain_run plain_ActiveDevice)

lemma plain_claim_run:
  "claimable E now i snap svc d \<Longrightarrow>
     run_tx [] (dispatch_claim E now i) d = (Inr (Some (snap, svc)), claimed_db i snap d)"
  by (simp add: run_tx_def plain_claim)

section \<open>The loop of a restore\<close>

lemma plain_restore_loop:
  "for_each (\<lambda>i. bind (revoke_device_row i) (\<lambda>_. cancelRequests now device_id i why)) ids (clear c w) =
     (Inr (), clear c (fold (\<lambda>i v. close_all cancelled why now (cancellable device_id i v) (revoked_row i v)) ids w))"
  by (induction ids arbitrary: w)
    (simp_all add: plain_run plain_cancelRequests revoke_device_row_def revoked_row_def)

lemma restore_fold:
  assumes "distinct (map rq_id (requests d))"
  shows "devices (fold (\<lambda>i v. close_all cancelled why now (cancellable device_id i v) (revoked_row i v)) ids d) =
      map (\<lambda>r. if dev_id r \<in> set ids then r\<lparr>dev_revoked := True\<rparr> else r) (devices d) \<and>
    requests (fold (\<lambda>i v. close_all cancelled why now (cancellable device_id i v) (revoked_row i v)) ids d) =
      map (\<lambda>r. if rq_device r \<in> set ids \<and> rq_status r \<in> {pending_approval, queued}
        then closed cancelled why now r else r) (requests d)"
  using assms
proof (induction ids arbitrary: d)
  case (Cons i ids)
  let ?v = "revoked_row i d" and ?w = "close_all cancelled why now (cancellable device_id i d) (revoked_row i d)"
  have r: "requests ?w = map (\<lambda>r. if rq_device r = i \<and> rq_status r \<in> {pending_approval, queued}
      then closed cancelled why now r else r) (requests d)"
    using requests_closed_scope [where d = ?v and P = "\<lambda>r. in_scope device_id i r \<and> rq_status r \<in> {pending_approval, queued}"
        and st = cancelled and why = why and now = now] Cons.prems
    by (simp add: cancellable_def del: requests_close_all)
  have ids: "map rq_id (requests ?w) = map rq_id (requests d)" unfolding r by (simp add: o_def if_distrib cong: if_cong)
  have "distinct (map rq_id (requests ?w))" unfolding ids by (rule Cons.prems)
  from Cons.IH [OF this] show ?case
    unfolding r by (simp add: closed_def) blast
qed simp


lemma plain_RecoverRestored:
  assumes "distinct (map rq_id (requests d))"
  shows "\<exists>d'. run_tx [] (RecoverRestored now) d = (Inr (), d') \<and> sessions d' = [] \<and>
    devices d' = map (\<lambda>r. r\<lparr>dev_revoked := True\<rparr>) (devices d) \<and>
    requests d' = map (\<lambda>r. if rq_device r \<in> dev_id ` set (devices d) \<and> rq_status r \<in> {pending_approval, queued}
        then closed cancelled ''restored_database_recovery'' now r else r) (requests d)"
proof -
  note f = restore_fold [OF assms, of "''restored_database_recovery''" now "map dev_id (devices d)"]
  have "map (\<lambda>r. if dev_id r \<in> set (map dev_id (devices d)) then r\<lparr>dev_revoked := True\<rparr> else r) (devices d) =
      map (\<lambda>r. r\<lparr>dev_revoked := True\<rparr>) (devices d)" by simp
  with f show ?thesis
    by (simp add: run_tx_def RecoverRestored_def plain_run plain_restore_loop Audit_def)
qed

end
