(* ===== verification/Scenario.thy ===== *)
theory Scenario
  imports System
begin

text \<open>
  A run of the server from an empty database to a recorded result: the first start, a service, a
  device, a permission that asks for approval, a submission, its approval, the claim, the exchange
  and the record. It shows that the hypotheses of the theorems on the server can hold together.
\<close>

definition demo_snapshot :: Snapshot where
  "demo_snapshot = \<lparr>Version = 1, snap_DeviceID = ID ''dev_'' ''d'', snap_ServiceID = ''crm'',
     ServiceLabel = ''CRM'', snap_Revision = 1, PermissionID = ID ''perm_'' ''p'',
     CredentialRef = ''service:crm:1'', snap_URL = ''https://crm.example.com/contacts'',
     snap_Method = ''GET'', snap_Path = ''/contacts'', snap_Headers = [], snap_Body = [],
     snap_Expires = 1605, snap_PrivateCIDR = []\<rparr>"

definition demo_result :: Result where
  "demo_result = \<lparr>HTTPStatus = 200, res_Headers = [], res_Body = ''ok'', Encoding = ''utf-8'',
     Truncated = False, Incomplete = False\<rparr>"

text \<open>
  An environment to run the server in: the identity for a hash, sealing that prepends the
  purpose, and an encoding of the one snapshot and the one
  result of the scenario.
\<close>

definition demo :: environment where
  "demo = \<lparr>sha256 = (\<lambda>s. s), aead_seal = (\<lambda>n b ad. ad @ ''|'' @ b),
     aead_open = (\<lambda>n c ad. if prefix (ad @ ''|'') c then Some (drop (length ad + 1) c) else None),
     marshal_submission = sub_Path, marshal_snapshot = snap_URL,
     unmarshal_snapshot = (\<lambda>b. if b = ''https://crm.example.com/contacts'' then Some demo_snapshot else None),
     marshal_result = res_Body, unmarshal_result = (\<lambda>b. if b = ''ok'' then Some demo_result else None),
     marshal_strings = Join '','', unmarshal_strings = (\<lambda>s. Some (Split CHR '','' s)),
     parse_rfc3339 = (\<lambda>s. None), issue = (\<lambda>i csr. Some (i @ csr)),
     parse_certificate = (\<lambda>c. Some (c, 5000)), check_password = (=)\<rparr>"

definition nonce0 :: string where "nonce0 = ''012345678901''"

definition owner0 :: string where "owner0 = ID ''owner_'' ''o''"
definition device0 :: string where "device0 = ID ''dev_'' ''d''"
definition request0 :: string where "request0 = ID ''req_'' ''r''"

definition crm_form :: form where
  "crm_form k = (if k = ''id'' then ''crm'' else if k = ''label'' then ''CRM''
     else if k = ''base_url'' then ''https://crm.example.com'' else if k = ''auth'' then ''bearer''
     else if k = ''credential'' then ''t0ken'' else [])"

definition grant_form :: form where
  "grant_form k = (if k = ''method'' then ''GET'' else if k = ''path'' then ''/contacts''
     else if k = ''mode'' then ''approval_required'' else if k = ''service'' then ''crm''
     else if k = ''device'' then device0 else [])"

definition submission0 :: Submission where
  "submission0 = \<lparr>sub_Service = ''crm'', sub_Method = ''GET'', sub_Path = ''/contacts'', sub_Query = [],
     sub_Headers = [], sub_Body = [], IdempotencyKey = ''k1''\<rparr>"

definition crm_row :: service_row where
  "crm_row = \<lparr>sv_id = ''crm'', sv_label = ''CRM'', base_url = ''https://crm.example.com'',
     sv_revision = 1, enabled = True, sv_auth = ''bearer'',
     sv_credential = nonce0 @ ''service:crm:1|t0ken'', auth_header_col = [],
     request_headers = ''Accept,Content-Type'',
     response_headers = ''Content-Type,Content-Encoding,Retry-After'', private_cidr = []\<rparr>"

definition grant_row :: permission_row where
  "grant_row = \<lparr>perm_ID = ID ''perm_'' ''p'', DeviceID = device0, ServiceID = ''crm'', PMethod = ''GET'',
     PPath = ''/contacts'', Kind = exact, Mode = approval_required, Owner = owner0,
     perm_Revision = 1, Expires = None, perm_revoked = False\<rparr>"

definition device_row0 :: device_row where
  "device_row0 = \<lparr>dev_id = device0, dev_label = ''laptop'', dev_revoked = False,
     certificate_serial = [], certificate_expires = 0\<rparr>"

definition invitation0 :: invitation_row where
  "invitation0 = \<lparr>inv_hash = Hash demo (ID [] ''s''), inv_device = device0, inv_expires = 1303,
     inv_used = False\<rparr>"

definition request_row0 :: request_row where
  "request_row0 = new_row demo 1005 request0 nonce0 device0 submission0 demo_snapshot pending_approval"

text \<open>The database after each step.\<close>

definition db1 :: db where "db1 = empty_db\<lparr>owners := [\<lparr>ow_id = owner0, password_hash = ''hash''\<rparr>]\<rparr>"
definition db2 :: db where "db2 = audited owner0 [] ''service_created'' ''crm'' (db1\<lparr>services := [crm_row]\<rparr>)"
definition db3 :: db where "db3 = audited owner0 device0 ''invitation_created'' device0
  (db2\<lparr>devices := [device_row0], invitations := [invitation0]\<rparr>)"
definition db4 :: db where "db4 = audited owner0 device0 ''permission_created'' (perm_ID grant_row)
  (db3\<lparr>permissions := [grant_row]\<rparr>)"
definition db5 :: db where "db5 = audited [] device0 ''request_pending_approval'' request0
  (db4\<lparr>requests := [request_row0]\<rparr>)"
definition db6 :: db where "db6 = audited owner0 device0 ''request_queued'' request0
  (db5\<lparr>requests := [request_row0\<lparr>rq_status := queued\<rparr>],
   approvals := [\<lparr>ap_request = request0, decided_by = owner0,
     ap_digest = snapshot_digest request_row0, decision = ''approve''\<rparr>]\<rparr>)"
definition db7 :: db where "db7 = audited [] device0 ''request_dispatching'' request0
  (db6\<lparr>requests := [request_row0\<lparr>rq_status := dispatching\<rparr>]\<rparr>)"

lemma demo1: "run_tx [] (New_tx 1000 ''owner password'' ''o'' ''hash'') empty_db = (Inr (), db1)"
  by code_simp


definition crm_input :: service_form where
  "crm_input = \<lparr>sf_id = ''crm'', sf_label = ''CRM'', sf_base_url = ''https://crm.example.com'',
     sf_auth = ''bearer'', sf_credential = ''t0ken'', sf_header = [],
     sf_request_headers = ''Accept,Content-Type'',
     sf_response_headers = ''Content-Type,Content-Encoding,Retry-After'', sf_private_cidr = []\<rparr>"



lemma default_names: "list_all (\<lambda>n. list_all token_byte n \<and> CanonicalHeaderKey n = n \<and> HeaderName n \<and> \<not> Reserved n \<and> n \<noteq> [])
   [''Accept'', ''Content-Type'', ''Content-Encoding'', ''Retry-After'']"
  by code_simp

lemma headerList_crm: "headerList demo [] [''Accept'', ''Content-Type''] [] = Inr ''Accept,Content-Type''"
 "headerList demo [] [''Content-Type'', ''Content-Encoding'', ''Retry-After''] [] =
    Inr ''Content-Type,Content-Encoding,Retry-After''"
 using default_names
 by (simp_all add: headerList_def TrimSpace_token Let_def EqualFold_def ToLower_def demo_def)

lemma crm_base: "\<exists>u. Base ''https://crm.example.com'' = Inr u"
proof -
  have "Base ''https://crm.example.com'' = Inr (the (Parse ''https://crm.example.com''))" by code_simp
  then show ?thesis by blast
qed

lemma crm_misc: "Slug ''crm''" "HeaderValue ''t0ken''" "CIDR [] = Inr ()" by code_simp+

lemma crm_input: "service_input demo crm_form = Inr crm_input"
proof -
  from crm_base obtain u where "Base ''https://crm.example.com'' = Inr u" ..
  with crm_misc headerList_crm show ?thesis
  by (simp add: service_input_def crm_form_def check_auth_def crm_input_def)
qed

lemma crm_row: "service_row_of crm_input 1 (Encrypt demo nonce0 (credential_ref ''crm'' 1) ''t0ken'') = crm_row"
  by code_simp

lemmas demo_run = plain_run run_tx_def Audit_def audited_def Let_def

lemma demo2: "run_tx [] (perform demo 1002 (C_service nonce0 owner0 False crm_form)) db1 = (Inr (), db2)"
  using crm_row
  by (simp add: demo_run addService_def crm_input next_revision_def save_service_def insert_service_def
    db1_def db2_def empty_db_def crm_row_def) (simp add: crm_input_def service_row_of_def)

lemma demo3: "run_tx [] (perform demo 1003 (C_invite ''d'' ''s'' owner0 ''laptop'')) db2 = (Inr (), db3)"
  by (simp add: demo_run Invitation_def Let_def insert_device_def insert_invitation_def db1_def db2_def db3_def
    empty_db_def device_row0_def invitation0_def device0_def minute_def)

lemma grant_input: "permission_input demo 1004 grant_form =
    Inr \<lparr>pf_methods = ''GET'', pf_path = ''/contacts'', pf_kind = exact, pf_mode = approval_required, pf_expiry = None\<rparr>"
proof -
  have "Methods ''GET'' = Inr ''GET''" "Path ''/contacts''" by code_simp+
  then show ?thesis
    by (simp add: permission_input_def grant_form_def kind_of_def mode_of_def expiry_of_def)
qed

definition crm :: service where
  "crm = \<lparr>svc_ID = ''crm'', Label = ''CRM'', BaseURL = ''https://crm.example.com'', Auth = ''bearer'',
     AuthHeader = [], PrivateCIDR = [], svc_Revision = 1, Credential = nonce0 @ ''service:crm:1|t0ken'',
     RequestHeaders = [''Accept'', ''Content-Type''],
     ResponseHeaders = [''Content-Type'', ''Content-Encoding'', ''Retry-After'']\<rparr>"

lemma crm_of_row: "service_of_row demo crm_row = Some crm"
  by (simp add: service_of_row_def crm_row_def crm_def demo_def)

lemma crm_row_simps [simp]: "sv_id crm_row = ''crm''" "enabled crm_row"
  by (simp_all add: crm_row_def)

lemma demo4: "run_tx [] (perform demo 1004 (C_permission ''p'' owner0 grant_form)) db3 = (Inr (), db4)"
proof -
  have "enabled_service demo ''crm'' db3 = Some crm"
    by (simp add: enabled_service_def db3_def db2_def db1_def audited_def crm_of_row)
  moreover have "active_device device0 db3"
    by (simp add: active_device_def db3_def device_row0_def audited_def)
  moreover have "candidate_rows x y z t db3 = []" for x y z t
    by (simp add: candidate_rows_def db3_def db2_def db1_def audited_def empty_db_def)
  moreover have "permission_row_of \<lparr>pf_methods = ''GET'', pf_path = ''/contacts'', pf_kind = exact,
      pf_mode = approval_required, pf_expiry = None\<rparr> (ID ''perm_'' ''p'') device0 ''crm'' 1 owner0 = grant_row"
    by (simp add: permission_row_of_def grant_row_def)
  moreover have "insert_permission grant_row db3 = Some (db3\<lparr>permissions := [grant_row]\<rparr>)"
    by (simp add: insert_permission_def db3_def db2_def db1_def audited_def empty_db_def grant_row_def device_row0_def)
  moreover have "grant_form ''service'' = ''crm''" "grant_form ''device'' = device0" 
    by (simp_all add: grant_form_def)
  moreover have "svc_ID crm = ''crm''" "svc_Revision crm = 1" by (simp_all add: crm_def)
  ultimately show ?thesis
    by (simp add: demo_run addPermission_def grant_input plain_GetService ActiveDevice_def db4_def)
qed

lemma submission0_normal: "Normalize submission0 = Inr submission0"
proof -
  have "Slug ''crm''" "Method ''GET''" "Path ''/contacts''" "list_all key_byte ''k1''"
     by code_simp+
   moreover have "\<exists>t. Target ''https://example.invalid'' ''/contacts'' [] = Inr t"
   proof -
     have "Target ''https://example.invalid'' ''/contacts'' [] = Inr ''https://example.invalid/contacts''" by code_simp
     then show ?thesis by blast
   qed
   ultimately show ?thesis
     by (auto simp: Normalize_def submission0_def)
qed

lemma crm_target: "Target ''https://crm.example.com'' ''/contacts'' [] = Inr ''https://crm.example.com/contacts''"
  by code_simp

lemma demo_db_simps:
  "owners db1 = [\<lparr>ow_id = owner0, password_hash = ''hash''\<rparr>]" "requests db1 = []" "approvals db1 = []"
  "owners db2 = owners db1" "services db2 = [crm_row]" "requests db2 = []" "approvals db2 = []"
  "owners db3 = owners db1" "services db3 = [crm_row]" "devices db3 = [device_row0]" "requests db3 = []" "approvals db3 = []"
  "owners db4 = owners db1" "services db4 = [crm_row]" "devices db4 = [device_row0]"
  "permissions db4 = [grant_row]" "requests db4 = []" "approvals db4 = []"
  by (simp_all add: db4_def db3_def db2_def db1_def audited_def empty_db_def)

lemma demo_more_simps:
  "owners db5 = owners db1" "services db5 = [crm_row]" "devices db5 = [device_row0]"
  "permissions db5 = [grant_row]" "requests db5 = [request_row0]" "approvals db5 = []"
  "services db6 = [crm_row]" "devices db6 = [device_row0]"
  "permissions db6 = [grant_row]" "requests db6 = [request_row0\<lparr>rq_status := queued\<rparr>]"
  "approvals db6 = [\<lparr>ap_request = request0, decided_by = owner0,
     ap_digest = snapshot_digest request_row0, decision = ''approve''\<rparr>]"
  by (simp_all add: db6_def db5_def audited_def demo_db_simps)

lemmas demo_simps = demo_db_simps demo_more_simps

lemma grant_matches: "Match grant_row ''GET'' ''/contacts''"
  by (simp add: Match_def HasMethod_iff grant_row_def)

lemma demo_authorize:
  assumes "services d = [crm_row]" "devices d = [device_row0]" "permissions d = [grant_row]"
  shows "authorize demo now d device0 ''crm'' ''GET'' ''/contacts'' = Some (crm, grant_row)"
proof -
  have "enabled_service demo ''crm'' d = Some crm"
    using assms by (simp add: enabled_service_def crm_of_row)
  moreover have "active_device device0 d" using assms by (simp add: active_device_def device_row0_def)
  moreover have "candidate_rows device0 ''crm'' 1 now d = [grant_row]"
    using assms by (simp add: candidate_rows_def grant_row_def live_def)
  ultimately show ?thesis
    using grant_matches by (simp add: authorize_def crm_def)
qed

lemma grant_simps: "Mode grant_row = approval_required" "perm_ID grant_row = ID ''perm_'' ''p''"
  by (simp_all add: grant_row_def)

lemma submission0_simps: "sub_Service submission0 = ''crm''" "sub_Method submission0 = ''GET''"
  "sub_Path submission0 = ''/contacts''" "sub_Query submission0 = []" "sub_Headers submission0 = []"
  "sub_Body submission0 = []"
  by (simp_all add: submission0_def)

lemma submit_snapshot0:
  "submit_snapshot device0 submission0 crm (permission.truncate grant_row) ''https://crm.example.com/contacts'' [] 1605 = demo_snapshot"
proof -
  have "credential_ref ''crm'' 1 = ''service:crm:1''" by code_simp
  then show ?thesis
  by (simp add: submit_snapshot_def submission0_simps grant_row_def demo_snapshot_def crm_def device0_def)
qed

lemma demo5_submit: "run_tx [] (Submit demo 1005 ''r'' nonce0 device0 submission0) db4 = (Inr request0, db5)"
proof -
  have "active_device device0 db4" by (simp add: active_device_def device_row0_def demo_simps)
  moreover have "authorize demo 1005 db4 device0 ''crm'' ''GET'' ''/contacts'' = Some (crm, grant_row)"
    by (rule demo_authorize) (simp_all add: demo_simps)
  moreover have "BaseURL crm = ''https://crm.example.com''" by (simp add: crm_def)
  moreover have "pending_count device0 1005 db4 = 0" by (simp add: pending_count_def demo_simps)
  moreover have "insert_request request_row0 db4 = Some (db4\<lparr>requests := [request_row0]\<rparr>)"
    by (simp add: insert_request_def demo_simps request_row0_def new_row_def Let_def demo_snapshot_def device_row0_def
      crm_row_def grant_row_def)
  moreover have "ID ''req_'' ''r'' = request0" by (simp add: request0_def)
  moreover have "request_kind pending_approval = ''request_pending_approval''"
    by (simp add: request_kind_def)
  ultimately show ?thesis
    using crm_target submission0_normal submit_snapshot0
    by (simp add: demo_run Submit_def submit_new_def submission0_simps ActiveDevice_def demo_simps
      plain_Authorize ApplicationHeaders_def grant_simps check_pending_def minute_def db5_def
      request_row0_def [symmetric])
qed

lemma demo5: "run_tx [] (perform demo 1005 (C_submit ''r'' nonce0 device0 submission0)) db4 = (Inr (), db5)"
  using demo5_submit by (auto simp: run_tx_def bind_def ret_def split: prod.splits sum.splits)

lemma request_row0_simps: "rq_id request_row0 = request0" "rq_status request_row0 = pending_approval"
  "rq_device request_row0 = device0" "rq_service request_row0 = ''crm''"
  "rq_permission request_row0 = ID ''perm_'' ''p''" "rq_revision request_row0 = 1" "rq_expires request_row0 = 1605"
  by (simp_all add: request_row0_def new_row_def Let_def demo_snapshot_def device0_def)

lemma open_row0: "open_snapshot demo (request_row0\<lparr>rq_status := st\<rparr>) = Inr demo_snapshot"
proof -
  have "credential_ref ''crm'' 1 = CredentialRef demo_snapshot" by code_simp
  moreover have "length nonce0 = nonce_size" by code_simp
  ultimately show ?thesis
    by (simp add: open_snapshot_def request_row0_def new_row_def Let_def demo_def Encrypt_def Decrypt_def
      Seal_def Unseal_def) (simp add: demo_snapshot_def device0_def)
qed

lemma request_row0_pending: "request_row0\<lparr>rq_status := pending_approval\<rparr> = request_row0"
  by (simp add: request_row0_def new_row_def Let_def)

lemma recheck0: "recheck_target crm demo_snapshot = Inr ()"
proof -
  have u: "snap_URL demo_snapshot = ''https://crm.example.com/contacts''" "snap_Path demo_snapshot = ''/contacts''"
    "snap_PrivateCIDR demo_snapshot = []" "BaseURL crm = ''https://crm.example.com''" "PrivateCIDR crm = []"
    by (simp_all add: demo_snapshot_def crm_def)
  have "Parse ''https://crm.example.com/contacts'' = Some (the (Parse ''https://crm.example.com/contacts'')) \<and>
    RawQuery (the (Parse ''https://crm.example.com/contacts'')) = []" by code_simp
  then obtain v where "Parse ''https://crm.example.com/contacts'' = Some v" "RawQuery v = []" by blast
  with u crm_target show ?thesis by (simp add: recheck_target_def)
qed

lemma valid0:
  assumes "services d = [crm_row]" "devices d = [device_row0]" "permissions d = [grant_row]" "now < 1605"
  shows "authorize demo now d (snap_DeviceID demo_snapshot) (snap_ServiceID demo_snapshot)
      (snap_Method demo_snapshot) (snap_Path demo_snapshot) = Some (crm, grant_row) \<and>
    svc_Revision crm = snap_Revision demo_snapshot \<and> perm_ID grant_row = PermissionID demo_snapshot \<and>
    now < snap_Expires demo_snapshot"
  using demo_authorize [OF assms(1-3)] assms(4)
  by (simp add: demo_snapshot_def device0_def crm_def grant_row_def)

lemma plain_validSnapshot0:
  assumes "services w = [crm_row]" "devices w = [device_row0]" "permissions w = [grant_row]" "now < 1605"
  shows "validSnapshot demo now demo_snapshot \<lparr>committed = c, working = w, faults = []\<rparr> =
    (Inr crm, \<lparr>committed = c, working = w, faults = []\<rparr>)"
  using valid0 [OF assms] by (simp add: validSnapshot_def plain_run plain_Authorize recheck0)

lemma demo6: "run_tx [] (perform demo 1006 (C_decide owner0 request0 (snapshot_digest request_row0) ''approve'')) db5 =
    (Inr (), db6)"
proof -
  have "find_request request0 db5 = Some request_row0"
    by (simp add: find_request_def demo_simps request_row0_simps)
  moreover have "open_snapshot demo request_row0 = Inr demo_snapshot"
    using open_row0 [of pending_approval] by (simp add: request_row0_pending)
  moreover have "snap_DeviceID demo_snapshot = device0" by (simp add: demo_snapshot_def device0_def)
  moreover have "request_row0\<lparr>rq_status := queued, finished := None\<rparr> = request_row0\<lparr>rq_status := queued\<rparr>"
    by (simp add: request_row0_def new_row_def Let_def)
  moreover have "request_kind queued = ''request_queued''"
    by (simp add: request_kind_def)
  ultimately show ?thesis
    by (simp add: demo_run Decide_def load_snapshot_def plain_validSnapshot0 demo_simps request_row0_simps
      insert_approval_def update_requests_def set_decided_def db6_def)
qed

lemma demo7: "run_tx [] (dispatch_claim demo 1007 request0) db6 = (Inr (Some (demo_snapshot, crm)), db7)"
proof -
  have "find_request request0 db6 = Some (request_row0\<lparr>rq_status := queued\<rparr>)"
    by (simp add: find_request_def demo_simps request_row0_simps)
  moreover have "snap_DeviceID demo_snapshot = device0" by (simp add: demo_snapshot_def device0_def)
  moreover have "find (\<lambda>p. perm_ID p = PermissionID demo_snapshot) (permissions db6) = Some grant_row"
    using valid0 [of db6 1007] by (simp add: demo_simps)
  moreover have "approval_count request0 db6 = 1"
    by (simp add: approval_count_def demo_simps request_row0_simps) 
  ultimately show ?thesis
    by (simp add: demo_run dispatch_claim_def load_snapshot_def open_row0 attempt_def claim_snapshot_def
      plain_validSnapshot0 demo_simps request_row0_simps claim_send_def claim_approved_def grant_simps
      mark_dispatching_def update_requests_def db7_def)
qed

section \<open>The exchange and its record\<close>

definition outgoing0 :: outgoing where
  "outgoing0 = \<lparr>out_Method = ''GET'', out_URL = ''https://crm.example.com/contacts'',
     out_Header = [(''Authorization'', [''Bearer t0ken''])], out_Body = []\<rparr>"

definition response0 :: response where
  "response0 = \<lparr>StatusCode = 200, ResHeader = [], ResBody = (''ok'', True)\<rparr>"

lemma sent0: "dispatch_request demo demo_snapshot crm = Some outgoing0"
proof -
  have "Decrypt demo (CredentialRef demo_snapshot) (Credential crm) = Inr ''t0ken''" by code_simp
  moreover have "Headers [] (RequestHeaders crm) (AuthHeader crm) = []"
    using default_names by (simp add: Headers_def crm_def connection_def add_values_def Let_def)
  moreover have "list_all token_byte ''GET''" by code_simp
  moreover have "Parse ''https://crm.example.com/contacts'' \<noteq> None"
    using recheck0 by (auto simp: recheck_target_def demo_snapshot_def split: option.splits)
  ultimately show ?thesis
    unfolding dispatch_request_def
    by (simp add: build_request_iff) (simp add: demo_snapshot_def crm_def auth_header_def outgoing0_def Set_def)
qed

definition outcome0 :: "status \<times> string \<times> Result option" where
  "outcome0 = (completed, [], Some (make_result crm response0))"

lemma outcome0: "dispatch_outcome demo demo_snapshot crm (\<lambda>_. DoOk response0) = outcome0"
proof -
  have d: "Decrypt demo (CredentialRef demo_snapshot) (Credential crm) = Inr ''t0ken''" by code_simp
  with sent0 have "build_request crm (snap_Method demo_snapshot) (snap_URL demo_snapshot)
      (snap_Headers demo_snapshot) (snap_Body demo_snapshot) ''t0ken'' = Some outgoing0"
    by (simp add: dispatch_request_def)
  with d show ?thesis
    by (simp add: dispatch_outcome_def Send_def outcome_of_def outcome0_def read_failed_def response0_def)
qed

definition db8 :: db where
  "db8 = finished_db demo 1008 nonce0 request0 completed [] (Some (make_result crm response0)) db7"

lemma demo8: "run_tx [] (finish demo 1008 nonce0 request0 completed [] (Some (make_result crm response0))) db7 =
    (Inr (), db8)"
  by (simp add: demo_run finish_def finishTx_def db8_def finished_db_def)

section \<open>A direct request\<close>

definition status_form :: form where
  "status_form k = (if k = ''method'' then ''GET'' else if k = ''path'' then ''/status''
     else if k = ''service'' then ''crm'' else if k = ''device'' then device0 else [])"

definition status_grant :: permission_row where
  "status_grant = \<lparr>perm_ID = ID ''perm_'' ''q'', DeviceID = device0, ServiceID = ''crm'', PMethod = ''GET'',
     PPath = ''/status'', Kind = exact, Mode = standing, Owner = owner0,
     perm_Revision = 1, Expires = None, perm_revoked = False\<rparr>"

definition db9 :: db where
  "db9 = audited owner0 device0 ''permission_created'' (perm_ID status_grant)
     (db8\<lparr>permissions := [grant_row, status_grant]\<rparr>)"

lemma db8_simps:
  "owners db8 = owners db1" "services db8 = [crm_row]" "devices db8 = [device_row0]" "permissions db8 = [grant_row]"
  by (simp_all add: db8_def db7_def db6_def db5_def finished_db_def audited_def demo_simps)

lemma status_input: "permission_input demo 1009 status_form =
    Inr \<lparr>pf_methods = ''GET'', pf_path = ''/status'', pf_kind = exact, pf_mode = standing, pf_expiry = None\<rparr>"
proof -
  have "Methods ''GET'' = Inr ''GET''" "Path ''/status''" by code_simp+
  then show ?thesis
    by (simp add: permission_input_def status_form_def kind_of_def mode_of_def expiry_of_def)
qed

lemma demo9: "run_tx [] (perform demo 1009 (C_permission ''q'' owner0 status_form)) db8 = (Inr (), db9)"
proof -
  have "enabled_service demo ''crm'' db8 = Some crm"
    by (simp add: enabled_service_def db8_simps crm_of_row)
  moreover have "active_device device0 db8"
    by (simp add: active_device_def db8_simps device_row0_def)
  moreover have "candidate_rows device0 ''crm'' 1 1009 db8 = [grant_row]"
    by (simp add: candidate_rows_def db8_simps grant_row_def live_def)
  moreover have "\<not> Overlap status_grant grant_row"
    by (simp add: status_grant_def grant_row_def Overlap_def Match_def)
  moreover have "permission_row_of \<lparr>pf_methods = ''GET'', pf_path = ''/status'', pf_kind = exact,
      pf_mode = standing, pf_expiry = None\<rparr> (ID ''perm_'' ''q'') device0 ''crm'' 1 owner0 = status_grant"
    by (simp add: permission_row_of_def status_grant_def)
  moreover have "ID ''perm_'' ''q'' \<noteq> ID ''perm_'' ''p''" by code_simp
  then have "insert_permission status_grant db8 = Some (db8\<lparr>permissions := [grant_row, status_grant]\<rparr>)"
    by (simp add: insert_permission_def db8_simps demo_simps status_grant_def device_row0_def grant_row_def)
  moreover have "status_form ''service'' = ''crm''" "status_form ''device'' = device0" 
    by (simp_all add: status_form_def)
  moreover have "svc_ID crm = ''crm''" "svc_Revision crm = 1" by (simp_all add: crm_def)
  ultimately show ?thesis
    by (simp add: demo_run addPermission_def status_input plain_GetService ActiveDevice_def db9_def)
qed

definition db10 :: db where
  "db10 = audited [] device0 ''http_claim'' (perm_ID status_grant) db9"

definition outgoing1 :: outgoing where
  "outgoing1 = outgoing0\<lparr>out_URL := ''https://crm.example.com/status''\<rparr>"

lemma demo10: "run_tx [] (http_claim demo 1010 device0 ''crm'' ''GET'' ''/status'' []) db9 =
    (Inr (crm, permission.truncate status_grant, ''https://crm.example.com/status''), db10)"
proof -
  have db9: "services db9 = [crm_row]" "devices db9 = [device_row0]" "permissions db9 = [grant_row, status_grant]"
    by (simp_all add: db9_def audited_def db8_simps)
  have "enabled_service demo ''crm'' db9 = Some crm"
    using db9 by (simp add: enabled_service_def crm_of_row)
  moreover have "active_device device0 db9" using db9 by (simp add: active_device_def device_row0_def)
  moreover have "candidate_rows device0 ''crm'' 1 1010 db9 = [grant_row, status_grant]"
    using db9 by (simp add: candidate_rows_def grant_row_def status_grant_def live_def)
  moreover have "\<not> Match grant_row ''GET'' ''/status''" "Match status_grant ''GET'' ''/status''"
    by (simp_all add: Match_def HasMethod_iff grant_row_def status_grant_def)
  ultimately have "authorize demo 1010 db9 device0 ''crm'' ''GET'' ''/status'' = Some (crm, status_grant)"
    by (simp add: authorize_def crm_def)
  moreover have "Target (BaseURL crm) ''/status'' [] = Inr ''https://crm.example.com/status''"
    by code_simp
  moreover have "Mode status_grant = standing" by (simp add: status_grant_def)
  ultimately show ?thesis
    by (simp add: demo_run http_claim_def plain_Authorize db10_def)
qed

lemma sent1: "http_request demo crm ''GET'' ''https://crm.example.com/status'' [] [] = Some outgoing1"
proof -
  have "Decrypt demo (credential_ref (svc_ID crm) (svc_Revision crm)) (Credential crm) = Inr ''t0ken''" by code_simp
  moreover have "Headers [] (RequestHeaders crm) (AuthHeader crm) = []"
    using default_names by (simp add: Headers_def crm_def connection_def add_values_def Let_def)
  moreover have "list_all token_byte ''GET''" by code_simp
  moreover have "Parse ''https://crm.example.com/status'' \<noteq> None"
    by code_simp
  ultimately show ?thesis
    unfolding http_request_def
    by (simp add: build_request_iff) (simp add: crm_def auth_header_def outgoing0_def outgoing1_def Set_def)
qed

section \<open>The run\<close>

definition demo_start :: sys where
  "demo_start = \<lparr>database = empty_db, clock = 0, phase_of = Down, claims = [], outcomes = [],
     sent_log = [], http_claims = [], http_log = []\<rparr>"

definition demo_serving :: "int \<Rightarrow> db \<Rightarrow> sys" where
  "demo_serving t d = \<lparr>database = d, clock = t, phase_of = Serving, claims = [], outcomes = [],
     sent_log = [], http_claims = [], http_log = []\<rparr>"

definition demo_sent :: sys where
  "demo_sent = demo_serving 1008 db8\<lparr>sent_log := [(request0, demo_snapshot, crm, outgoing0)]\<rparr>"

definition demo_direct :: direct_claim where
  "demo_direct = \<lparr>dc_time = 1010, dc_device = device0, dc_method = ''GET'', dc_path = ''/status'', dc_header = [],
     dc_body = [], dc_service = crm, dc_permission = permission.truncate status_grant,
     dc_target = ''https://crm.example.com/status''\<rparr>"

definition demo_asked :: sys where
  "demo_asked = demo_sent\<lparr>database := db10, clock := 1010, http_claims := [demo_direct]\<rparr>"

definition demo_end :: sys where
  "demo_end = demo_asked\<lparr>http_claims := [], http_log := [(demo_direct, outgoing1)]\<rparr>"

lemma demo_command:
  assumes "run_tx [] (perform demo now cmd) (database s) = (Inr (), d')" "clock s \<le> now" "phase_of s = Serving"
  shows "step demo s (s\<lparr>database := d', clock := now\<rparr>)"
  using step_command [of s now demo "[]" cmd] assms by (simp add: perform_run_def)

lemma demo_initial: "initial demo_start"
  by (simp add: initial_def demo_start_def)

lemmas one_more = rtranclp.rtrancl_into_rtrancl [where r = "step demo"]

lemma demo_up: "(step demo)\<^sup>*\<^sup>* demo_start (demo_serving 1000 db1)"
proof -
  let ?r = "demo_start\<lparr>database := db1, clock := 1000, phase_of := Ready\<rparr>"
  have "step demo demo_start ?r"
    using step_start [of demo_start 1000 "[]" "''owner password''" "''o''" "''hash''" db1 demo] demo1
    by (simp add: demo_start_def)
  moreover have "step demo ?r (demo_serving 1000 db1)"
    using step_serve [of ?r demo] by (simp add: demo_serving_def demo_start_def)
  ultimately show ?thesis by (meson one_more rtranclp.rtrancl_refl)
qed

lemma demo_serve:
  assumes "run_tx [] (perform demo now cmd) d = (Inr (), d')" "t \<le> now"
  shows "step demo (demo_serving t d) (demo_serving now d')"
  using demo_command [of now cmd "demo_serving t d" d'] assms by (simp add: demo_serving_def)

lemma demo_pending: "(step demo)\<^sup>*\<^sup>* demo_start (demo_serving 1005 db5)"
proof -
  note demo_up
  also have "step demo (demo_serving 1000 db1) (demo_serving 1002 db2)" by (rule demo_serve [OF demo2]) simp
  also have "step demo (demo_serving 1002 db2) (demo_serving 1003 db3)" by (rule demo_serve [OF demo3]) simp
  also have "step demo (demo_serving 1003 db3) (demo_serving 1004 db4)" by (rule demo_serve [OF demo4]) simp
  also have "step demo (demo_serving 1004 db4) (demo_serving 1005 db5)" by (rule demo_serve [OF demo5]) simp
  finally show ?thesis .
qed

lemma demo_queued: "(step demo)\<^sup>*\<^sup>* demo_start (demo_serving 1006 db6)"
  using demo_pending by (rule one_more) (rule demo_serve [OF demo6], simp)

definition demo_claimed :: sys where
  "demo_claimed = demo_serving 1007 db7\<lparr>claims := [(request0, demo_snapshot, crm)]\<rparr>"

lemma demo_claim: "step demo (demo_serving 1006 db6) demo_claimed"
  using step_claim [of "demo_serving 1006 db6" 1007 "[]" demo request0 demo_snapshot crm db7] demo7
  by (simp add: demo_serving_def demo_claimed_def)

lemma demo_recorded: "(step demo)\<^sup>*\<^sup>* demo_claimed demo_sent"
proof -
  let ?s = "demo_serving 1007 db7\<lparr>outcomes := [(request0, outcome0)],
    sent_log := [(request0, demo_snapshot, crm, outgoing0)]\<rparr>"
  have "step demo demo_claimed ?s"
    using step_send [of demo_claimed "[]" request0 demo_snapshot crm "[]" demo "\<lambda>_. DoOk response0"] sent0 outcome0
    by (simp add: demo_claimed_def demo_serving_def)
  moreover have "step demo ?s demo_sent"
    using step_record [of ?s 1008 "[]" request0 completed "[]" "Some (make_result crm response0)" "[]" "[]" demo nonce0
        "Inr ()" db8] demo8
    by (simp add: outcome0_def demo_sent_def demo_serving_def)
  ultimately show ?thesis by (meson one_more rtranclp.rtrancl_refl)
qed

lemma demo_asks: "(step demo)\<^sup>*\<^sup>* demo_sent demo_asked"
proof -
  let ?s = "demo_sent\<lparr>database := db9, clock := 1009\<rparr>"
  have "step demo demo_sent ?s"
    by (rule demo_command [where cmd = "C_permission ''q'' owner0 status_form"])
      (simp_all add: demo_sent_def demo_serving_def demo9 del: perform.simps)
  moreover have "step demo ?s demo_asked"
    using step_http_claim [of ?s 1010 "[]" demo device0 "''crm''" "''GET''" "''/status''" "[]" crm
        "permission.truncate status_grant" "''https://crm.example.com/status''" db10 "[]" "[]"] demo10
    by (simp add: demo_asked_def demo_direct_def demo_sent_def demo_serving_def)
  ultimately show ?thesis by (meson one_more rtranclp.rtrancl_refl)
qed

lemma demo_direct_request: "direct_request demo demo_direct = Some outgoing1"
  using sent1 by (simp add: direct_request_def demo_direct_def)

lemma demo_http: "(step demo)\<^sup>*\<^sup>* demo_sent demo_end"
proof -
  have "step demo demo_asked demo_end"
    using step_http_send [of demo_asked "[]" demo_direct "[]" demo] demo_direct_request
    by (simp add: demo_end_def demo_asked_def demo_sent_def demo_serving_def)
  with demo_asks show ?thesis by (rule one_more)
qed

lemma demo_reaches: "(step demo)\<^sup>*\<^sup>* demo_start demo_end"
  using demo_queued demo_claim demo_recorded demo_http
  by (meson one_more rtranclp_trans)

lemma demo_end_simps: "sent_log demo_end = [(request0, demo_snapshot, crm, outgoing0)]" "database demo_end = db10"
  "clock demo_end = 1010"
  "http_log demo_end = [(demo_direct, outgoing1)]"
  by (simp_all add: demo_end_def demo_asked_def demo_sent_def demo_serving_def)

text \<open>The same run with the request denied.\<close>

definition db_denied :: db where
  "db_denied = audited owner0 device0 ''request_denied'' request0
     (db5\<lparr>requests := [request_row0\<lparr>rq_status := denied, finished := Some 1006\<rparr>],
      approvals := [\<lparr>ap_request = request0, decided_by = owner0,
        ap_digest = snapshot_digest request_row0, decision = ''deny''\<rparr>]\<rparr>)"

lemma demo_denies: "run_tx [] (perform demo 1006 (C_decide owner0 request0 (snapshot_digest request_row0) ''deny'')) db5 =
    (Inr (), db_denied)"
proof -
  have "find_request request0 db5 = Some request_row0"
    by (simp add: find_request_def demo_simps request_row0_simps)
  moreover have "open_snapshot demo request_row0 = Inr demo_snapshot"
    using open_row0 [of pending_approval] by (simp add: request_row0_pending)
  moreover have "snap_DeviceID demo_snapshot = device0" by (simp add: demo_snapshot_def device0_def)
  moreover have "request_kind denied = ''request_denied''"
    by (simp add: request_kind_def)
  ultimately show ?thesis
    by (simp add: demo_run Decide_def load_snapshot_def plain_validSnapshot0 demo_simps request_row0_simps
      insert_approval_def update_requests_def set_decided_def db_denied_def)
qed

lemma demo_denied: "(step demo)\<^sup>*\<^sup>* demo_start (demo_serving 1006 db_denied)"
  using demo_pending by (rule one_more) (rule demo_serve [OF demo_denies], simp)

lemma demo_finishes: "(step demo)\<^sup>*\<^sup>* (demo_serving 1006 db6) demo_end"
  using demo_claim demo_recorded demo_http by (meson converse_rtranclp_into_rtranclp rtranclp_trans)

text \<open>The device is revoked.\<close>

definition db_revoked :: db where
  "db_revoked = audited owner0 device0 ''device_revoked'' device0
     (db10\<lparr>devices := [device_row0\<lparr>dev_revoked := True\<rparr>]\<rparr>)"

lemma db10_simps: "devices db10 = [device_row0]" "requests db10 =
    [request_row0\<lparr>rq_status := completed, reason := [],
       rq_result := encrypt_result demo nonce0 request0 (Some (make_result crm response0)), finished := Some 1008\<rparr>]"
  by (simp_all add: db10_def db9_def db8_def db7_def finished_db_def audited_def db6_def db5_def demo_simps
      update_requests_def set_finished_def request_row0_simps)

lemma demo_revokes: "run_tx [] (perform demo 1011 (C_revoke_device owner0 device0)) db10 = (Inr (), db_revoked)"
  by (simp add: demo_run revoke_def exec_count_def cancelRequests_def db10_simps device_row0_def update_devices_def
    request_row0_simps db_revoked_def)

text \<open>The revocation comes between the claim of the direct request and its hand-over, which follows.\<close>

definition demo_cut :: sys where
  "demo_cut = demo_asked\<lparr>database := db_revoked, clock := 1011\<rparr>"

definition demo_late :: sys where
  "demo_late = demo_cut\<lparr>http_claims := [], http_log := [(demo_direct, outgoing1)]\<rparr>"

lemma demo_revoked: "(step demo)\<^sup>*\<^sup>* demo_start demo_cut"
proof -
  have "step demo demo_asked demo_cut"
    unfolding demo_cut_def
    by (rule demo_command [where cmd = "C_revoke_device owner0 device0"])
      (simp_all add: demo_asked_def demo_sent_def demo_serving_def demo_revokes del: perform.simps)
  moreover have "(step demo)\<^sup>*\<^sup>* demo_start demo_asked"
    using demo_queued demo_claim demo_recorded demo_asks by (meson one_more rtranclp_trans)
  ultimately show ?thesis by (rule one_more [rotated])
qed

lemma demo_sends_late: "step demo demo_cut demo_late"
  using step_http_send [of demo_cut "[]" demo_direct "[]" demo] demo_direct_request
  by (simp add: demo_late_def demo_cut_def demo_asked_def demo_sent_def demo_serving_def)

definition other_submission :: Submission where
  "other_submission = submission0\<lparr>sub_Path := ''/other''\<rparr>"

lemma other_normal: "Normalize other_submission = Inr other_submission"
proof -
  have "Slug ''crm''" "Method ''GET''" "Path ''/other''" "list_all key_byte ''k1''"
    by code_simp+
  moreover have "Target ''https://example.invalid'' ''/other'' [] = Inr ''https://example.invalid/other''"
    by code_simp
  ultimately show ?thesis
    by (auto simp: Normalize_def other_submission_def submission0_def)
qed

lemma demo_issues: "issue demo i csr = Some (i @ csr)" "parse_certificate demo c = Some (c, 5000)"
  by (simp_all add: demo_def)

end
