(* ===== verification/Operations.thy ===== *)
theory Operations
  imports Fault_Free Scenario
begin

text \<open>
  What the operations on the database guarantee one by one: submissions, decisions, claims,
  dispatches, revocations, expiry, recovery, grants, services and invitations.
\<close>

section \<open>Submitting\<close>

text \<open>Submitting is idempotent: for a key that the device has used, the same submission gets the
  id of the stored request, another one is refused, and nothing is written.\<close>

lemma submit_again:
  assumes "Normalize inp = Inr n" "active_device device d" "r \<in> set (requests d)"
    and "rq_device r = device" "key_hash r = Hash E (IdempotencyKey n)"
    and "distinct (map (\<lambda>r. (rq_device r, key_hash r)) (requests d))"
  shows "run_tx [] (Submit E now random nonce device inp) d =
    (if SubmissionDigest E n = submission_digest r then Inr (rq_id r)
     else Inl (Err ''idempotency_conflict''), d)"
proof (rule plain_Submit_again [OF assms(1,2)])
  show "find (\<lambda>r. rq_device r = device \<and> key_hash r = Hash E (IdempotencyKey n)) (requests d) = Some r"
    using assms(3-5) by (intro find_unique) (auto intro: unique_id [OF assms(6)])
qed

theorem submit_again_witness:
  "run_tx [] (Submit demo 1006 ''again'' nonce0 device0 submission0) db5 = (Inr request0, db5) \<and>
   run_tx [] (Submit demo 1006 ''other'' nonce0 device0 other_submission) db5 =
     (Inl (Err ''idempotency_conflict''), db5)"
proof -
  have r: "active_device device0 db5" "request_row0 \<in> set (requests db5)" "rq_device request_row0 = device0"
    "distinct (map (\<lambda>r. (rq_device r, key_hash r)) (requests db5))"
    by (simp_all add: demo_simps active_device_def device_row0_def request_row0_simps)
  have k: "key_hash request_row0 = Hash demo (IdempotencyKey submission0)"
     "key_hash request_row0 = Hash demo (IdempotencyKey other_submission)"
     "SubmissionDigest demo submission0 = submission_digest request_row0"
    by (simp_all add: request_row0_def new_row_def Let_def other_submission_def)
  have "SubmissionDigest demo other_submission \<noteq> SubmissionDigest demo submission0"
    by (simp add: RawURLEncoding_inject SubmissionDigest_def Digest_def Hash_def demo_def other_submission_def submission0_def)
  then have o: "SubmissionDigest demo other_submission \<noteq> submission_digest request_row0" by (simp add: k(3))
  show ?thesis
    using submit_again [OF submission0_normal r(1-3) k(1) r(4)] submit_again [OF other_normal r(1-3) k(2) r(4)] k(3) o
    by (simp add: request_row0_simps)
qed

text \<open>A new submission succeeds exactly when it is admitted: the device is active, a live grant
  covers it, its headers and target are allowed and, where approval is asked, fewer than twenty
  requests wait. It then adds one row with the snapshot, its digest and its deadline.\<close>

lemma submit_new_exact:
  assumes "Normalize inp = Inr n" "active_device device d"
    and "list_all (\<lambda>r. rq_device r \<noteq> device \<or> key_hash r \<noteq> Hash E (IdempotencyKey n)) (requests d)"
  shows "run_tx [] (Submit E now random nonce device inp) d = (Inr i, d') \<longleftrightarrow>
    (\<exists>r d1. admitted E now random nonce device n d r \<and> insert_request r d = Some d1 \<and>
       i = ID ''req_'' random \<and> d' = audited [] device (request_kind (rq_status r)) i d1)"
proof
  have none: "find (\<lambda>r. rq_device r = device \<and> key_hash r = Hash E (IdempotencyKey n)) (requests d) = None"
    using assms(3) by (auto simp: find_None_iff list_all_iff)
  {
    assume "run_tx [] (Submit E now random nonce device inp) d = (Inr i, d')"
    from run_tx_runs [OF this] obtain w' where "runs (Submit E now random nonce device inp) d d i d' w'" ..
    then show "\<exists>r d1. admitted E now random nonce device n d r \<and> insert_request r d = Some d1 \<and>
       i = ID ''req_'' random \<and> d' = audited [] device (request_kind (rq_status r)) i d1"
      by (rule runs_Submit) (use assms(1) none in auto)
  next
    assume "\<exists>r d1. admitted E now random nonce device n d r \<and> insert_request r d = Some d1 \<and>
       i = ID ''req_'' random \<and> d' = audited [] device (request_kind (rq_status r)) i d1"
    then show "run_tx [] (Submit E now random nonce device inp) d = (Inr i, d')"
      using plain_Submit_new [OF assms(1,2) none] by auto
  }
qed

theorem submit_new_exact_witness:
  "\<exists>r. admitted demo 1005 ''r'' nonce0 device0 submission0 db4 r \<and>
     insert_request r db4 = Some (db4\<lparr>requests := [r]\<rparr>)"
proof -
  have a: "active_device device0 db4"
    "list_all (\<lambda>r. rq_device r \<noteq> device0 \<or> key_hash r \<noteq> Hash demo (IdempotencyKey submission0)) (requests db4)"
    by (simp_all add: demo_simps active_device_def device_row0_def)
  from submit_new_exact [OF submission0_normal a, of 1005 "''r''" nonce0 request0 db5] demo5_submit
  obtain r d1 where "admitted demo 1005 ''r'' nonce0 device0 submission0 db4 r" "insert_request r db4 = Some d1"
    by blast
  moreover from this(2) have "d1 = db4\<lparr>requests := [r]\<rparr>"
    by (simp add: insert_request_def demo_simps split: if_splits)
  ultimately show ?thesis by blast
qed

section \<open>Deciding\<close>

text \<open>C12. A decision takes effect exactly when it names the digest of the stored snapshot of a
  pending request whose grant is still good and which nobody has decided; approving queues the
  request, denying ends it, and every other attempt is an error.\<close>

theorem decide_exact:
  "run_tx [] (Decide E now owner i digest dec) d = (Inr (), d') \<longleftrightarrow>
    (dec = ''approve'' \<or> dec = ''deny'') \<and>
    (\<exists>r snap svc d1. find_request i d = Some r \<and> digest = snapshot_digest r \<and>
       rq_status r = pending_approval \<and> open_snapshot E r = Inr snap \<and> valid_snapshot E now d snap svc \<and>
       insert_approval \<lparr>ap_request = i, decided_by = owner, ap_digest = digest, decision = dec\<rparr> d = Some d1 \<and>
       d' = audited owner (snap_DeviceID snap) (request_kind (if dec = ''deny'' then denied else queued)) i
         (update_requests (\<lambda>x. rq_id x = i \<and> rq_status x = pending_approval)
            (\<lambda>x. x\<lparr>rq_status := (if dec = ''deny'' then denied else queued),
               finished := (if dec = ''deny'' then Some now else None)\<rparr>) d1))"
  (is "?run \<longleftrightarrow> ?ok")
proof
  assume ?run
  from run_tx_runs [OF this] obtain w' where "runs (Decide E now owner i digest dec) d d () d' w'" ..
  then show ?ok
    by (rule runs_Decide) (unfold set_decided_def [abs_def], blast)
next
  assume ?ok
  then show ?run
    using plain_Decide [of dec i d _ digest E _ now _ owner] unfolding set_decided_def [abs_def] by auto
qed

section \<open>Dispatching\<close>

text \<open>C11. A worker claims a request exactly when it is queued, its stored snapshot opens, its grant is
  still good and, where approval is asked, exactly one approval names its digest. The claim is one
  committed transaction that moves the row to \<open>dispatching\<close>.\<close>

theorem claim_exact:
  "run_tx [] (dispatch_claim E now i) d = (Inr (Some (snap, svc)), d') \<longleftrightarrow>
    (\<exists>r. find_request i d = Some r \<and> rq_status r = queued \<and> open_snapshot E r = Inr snap) \<and>
    valid_snapshot E now d snap svc \<and>
    (\<exists>p. find (\<lambda>p. perm_ID p = PermissionID snap) (permissions d) = Some p \<and>
       (Mode p = standing \<or> approval_count i d = 1)) \<and>
    d' = audited [] (snap_DeviceID snap) ''request_dispatching'' i
      (update_requests (\<lambda>x. rq_id x = i \<and> rq_status x = queued) (\<lambda>r. r\<lparr>rq_status := dispatching\<rparr>) d)"
proof -
  have m: "m = standing \<longleftrightarrow> m \<noteq> approval_required" for m by (cases m) auto
  have "run_tx [] (dispatch_claim E now i) d = (Inr (Some (snap, svc)), d') \<longleftrightarrow>
      claimable E now i snap svc d \<and> d' = claimed_db i snap d"
    using runs_claim_Some plain_claim_run by blast
  then show ?thesis
    by (auto simp: claimable_def approved_def claimed_db_def mark_dispatching_def m)
qed

text \<open>Dispatching ends: a claimable request is, whatever the exchange answers, left completed,
  failed or with an unknown outcome, with its end time and result, and no other row is touched.\<close>

lemma dispatch_ends:
  assumes "claimable E now i snap svc d"
  shows "\<exists>d' st why res. run_tx [] (dispatch E now now' nonce i ex) d = (Inr (), d') \<and>
    dispatch_outcome E snap svc ex = (st, why, res) \<and> st \<in> {completed, failed, outcome_unknown} \<and>
    requests d' = map (\<lambda>r. if rq_id r = i then r\<lparr>rq_status := st, reason := why,
        rq_result := encrypt_result E nonce i res, finished := Some now'\<rparr> else r) (requests d)"
proof -
  obtain st why res where o: "dispatch_outcome E snap svc ex = (st, why, res)" by (metis prod.exhaust)
  with outcome_ok_dispatch [of E snap svc ex] have "st \<in> {completed, failed, outcome_unknown}"
    by (simp add: outcome_ok_def)
  moreover have "requests (finished_db E now' nonce i st why res (claimed_db i snap d)) =
      map (\<lambda>r. if rq_id r = i then r\<lparr>rq_status := st, reason := why,
        rq_result := encrypt_result E nonce i res, finished := Some now'\<rparr> else r) (requests d)"
    by (simp add: finished_db_def claimed_db_def mark_dispatching_def set_finished_def)
  ultimately show ?thesis
    using plain_dispatch [OF assms o] o by blast
qed

theorem dispatch_ends_witness:
  "\<exists>d' r. run_tx [] (dispatch demo 1007 1008 nonce0 request0 (\<lambda>_. DoErr True)) db6 = (Inr (), d') \<and>
     requests d' = [r] \<and> finished r = Some 1008 \<and> terminal (rq_status r)"
proof -
  have "claimable demo 1007 request0 demo_snapshot crm db6"
    using runs_claim_Some [OF demo7] by blast
  from dispatch_ends [OF this, of 1008 nonce0 "\<lambda>_. DoErr True"] show ?thesis
    by (auto simp: demo_simps request_row0_simps terminal_def)
qed

section \<open>Revoking, expiring and recovering\<close>

text \<open>Revoking a device: it is inactive at once, and exactly its waiting requests are cancelled;
  running and finished ones, and those of other devices, keep their rows.\<close>

lemma revoke_exact:
  assumes "i \<in> dev_id ` set (devices d)" "distinct (map rq_id (requests d))"
  shows "\<exists>d'. run_tx [] (revoke now owner i) d = (Inr (), d') \<and> \<not> active_device i d' \<and>
    requests d' = map (\<lambda>r. if rq_device r = i \<and> rq_status r \<in> {pending_approval, queued}
      then r\<lparr>rq_status := cancelled, reason := ''device_revoked'', finished := Some now\<rparr> else r) (requests d)"
proof -
  let ?d = "revoked_row i d"
  have "requests (close_all cancelled ''device_revoked'' now (cancellable device_id i ?d) ?d) =
    map (\<lambda>r. if in_scope device_id i r \<and> rq_status r \<in> {pending_approval, queued}
      then closed cancelled ''device_revoked'' now r else r) (requests ?d)"
    unfolding cancellable_def by (rule requests_closed_scope [where d = "revoked_row i d"]) (simp add: revoked_row_def, rule assms(2))
  moreover have "\<not> active_device i ?d"
    by (simp add: active_device_def list_ex_iff ball_Un)
  ultimately show ?thesis
    using assms(1) unfolding plain_revoke closed_def
    by (simp add: active_device_def revoked_row_def)
qed

theorem revoke_exact_witness:
  "\<exists>d'. run_tx [] (revoke 1006 owner0 device0) db5 = (Inr (), d') \<and>
     map rq_status (requests d') = [cancelled]"
proof -
  have "device0 \<in> dev_id ` set (devices db5)" "distinct (map rq_id (requests db5))"
    by (simp_all add: demo_simps device_row0_def)
  from revoke_exact [OF this, of 1006 owner0] show ?thesis by (auto simp: demo_simps request_row0_simps)
qed

text \<open>A restart leaves nothing running: starting on a database with an owner marks exactly the
  interrupted requests as having an unknown outcome, so that they are neither lost nor resent.\<close>

lemma restart_recovers:
  assumes "owners d \<noteq> []" "distinct (map rq_id (requests d))"
  shows "\<exists>d'. run_tx [] (New_tx now password i hash) d = (Inr (), d') \<and>
    requests d' = map (\<lambda>r. if rq_status r = dispatching
      then r\<lparr>rq_status := outcome_unknown, reason := ''server_restarted_during_dispatch_check_provider'',
        finished := Some now\<rparr> else r) (requests d) \<and>
    list_all (\<lambda>r. rq_status r \<noteq> dispatching) (requests d')"
  using assms(1) requests_closed_scope [OF assms(2)]
  by (auto simp add: plain_New_tx interrupted_def closed_def [abs_def] list_all_iff del: requests_close_all)

theorem restart_recovers_witness:
  "\<exists>d'. run_tx [] (New_tx 1009 [] [] []) db7 = (Inr (), d') \<and> map rq_status (requests d') = [outcome_unknown]"
proof -
  have r: "requests db7 = [request_row0\<lparr>rq_status := dispatching\<rparr>]" by (simp add: db7_def audited_def)
  have "owners db7 \<noteq> []" "distinct (map rq_id (requests db7))"
    by (simp_all add: r) (simp add: db7_def db6_def db5_def audited_def demo_simps)
  from restart_recovers [OF this, of 1009 "[]" "[]" "[]"] show ?thesis by (auto simp: r)
qed

text \<open>Maintenance expires exactly the waiting requests whose deadline has passed, purges the
  payload and result of those that ended more than a day ago, and drops expired sessions.\<close>

lemma maintenance_exact:
  assumes "distinct (map rq_id (requests d))"
  shows "\<exists>d'. run_tx [] (maintenance now) d = (Inr (), d') \<and>
    requests d' = map (\<lambda>r.
      if rq_status r \<in> {pending_approval, queued} \<and> rq_expires r \<le> now
      then r\<lparr>rq_status := expired, reason := ''deadline_elapsed'', finished := Some now\<rparr>
      else if purgeable now r then r\<lparr>rq_snapshot := None, rq_result := None\<rparr> else r) (requests d) \<and>
    sessions d' = filter (\<lambda>s. now < ses_expires s) (sessions d)"
proof -
  have p: "\<not> purgeable now (closed expired why now r)" for why r
    by (simp add: purgeable_def closed_def hour_def)
  let ?d = "close_all expired ''deadline_elapsed'' now (overdue now d) d"
  have r: "requests ?d = map (\<lambda>r. if rq_status r \<in> {pending_approval, queued} \<and> rq_expires r \<le> now
      then closed expired ''deadline_elapsed'' now r else r) (requests d)"
    unfolding overdue_def by (rule requests_closed_scope [OF assms])
  have "requests (maintained now (overdue now d) d) = map (\<lambda>r.
      if rq_status r \<in> {pending_approval, queued} \<and> rq_expires r \<le> now
      then closed expired ''deadline_elapsed'' now r
      else if purgeable now r then purge r else r) (requests d)"
    unfolding maintained_def update_requests_simps r by (simp add: p)
  moreover have "sessions (maintained now (overdue now d) d) = sessions d"
    by (simp add: maintained_def)
  ultimately show ?thesis
    unfolding plain_maintenance closed_def purge_def
    by (simp add: without_sessions_def not_le)
qed

theorem maintenance_exact_witness:
  "\<exists>d'. run_tx [] (maintenance 1605) db5 = (Inr (), d') \<and> map rq_status (requests d') = [expired]"
proof -
  have "distinct (map rq_id (requests db5))" by (simp add: demo_simps)
  from maintenance_exact [OF this, of 1605] show ?thesis by (auto simp: demo_simps request_row0_simps)
qed

section \<open>Services, invitations and sealed records\<close>

text \<open>Revising a service drops every grant: in any reachable state, whatever statements fail, once
  a revision is saved no device is authorized for the service until the owner grants again.\<close>

lemma revision_drops_grants:
  assumes "initial s" "(step E)\<^sup>*\<^sup>* s s'"
    and "run_tx fs (addService E now nonce owner True f) (database s') = (Inr (), d')"
  shows "authorize E t d' device (f ''id'') m path = None"
proof (rule ccontr)
  assume "authorize E t d' device (f ''id'') m path \<noteq> None"
  then obtain svc p where a: "authorize E t d' device (f ''id'') m path = Some (svc, p)" by auto
  from run_tx_runs [OF assms(3)] obtain w' where
    "runs (addService E now nonce owner True f) (database s') (database s') () d' w'" ..
  then obtain sf n row d ids where r: "service_input E f = Inr sf" "revises True (sf_id sf) n (database s')"
    "row = service_row_of sf n (Encrypt E nonce (credential_ref (sf_id sf) n) (sf_credential sf))"
    "saved row (database s') d" and d': "d' = audited owner [] ''service_revised'' (sf_id sf)
       (close_all cancelled ''service_revised'' now ids d)"
    by (rule runs_addService) simp
  have sf: "sf_id sf = f ''id''"
    using r(1) by (auto simp: service_input_def Let_def split: if_splits sum.splits)
  from r(2) obtain old where old: "find (\<lambda>r. sv_id r = sf_id sf) (services (database s')) = Some old"
    "n = sv_revision old + 1"
    by (auto simp: revises_def)
  have inv: "revisions_ok (database s')"
    using sys.reachable [OF assms(1,2)] by (simp add: sys_inv_parts db_inv_def)
  have o: "old \<in> set (services (database s'))" "sv_id old = sf_id sf" using find_Some_in [OF old(1)] by auto
  with inv old(2) have n: "n \<noteq> 1" by (auto simp: revisions_ok_def)
  have rows: "sv_id row = sf_id sf" "sv_revision row = n" by (simp_all add: r(3) service_row_of_def)
  with r(4) n have d: "d = update_services (\<lambda>x. sv_id x = sf_id sf) (\<lambda>_. row) (database s')"
    by (simp add: saved_def)
  from a obtain v where v: "v \<in> set (services d')" "sv_id v = sf_id sf" "service_of_row E v = Some svc"
    by (auto simp: sf elim!: authorize_SomeE elim: enabled_serviceE)
  then have "sv_revision v = n" using rows by (auto simp: d' d)
  with v(3) have "svc_Revision svc = n" by (auto simp: service_of_row_def split: option.splits)
  moreover from a have "p \<in> set (permissions (database s'))" "ServiceID p = sf_id sf" "perm_Revision p = svc_Revision svc"
    by (auto simp: d' d sf elim!: authorize_SomeE)
  moreover have "perm_Revision p \<le> sv_revision old" if "p \<in> set (permissions (database s'))" "ServiceID p = sf_id sf" for p
    using inv o that by (simp add: revisions_ok_def)
  ultimately show False using old(2) by force
qed

theorem revision_drops_grants_witness:
  "\<exists>d'. run_tx [] (addService demo 1011 nonce0 owner0 True crm_form) (database demo_end) = (Inr (), d') \<and>
     authorize demo 1012 d' device0 ''crm'' ''GET'' ''/status'' = None"
proof -
  have s: "services db10 = [crm_row]"
    by (simp add: db10_def db9_def audited_def db8_simps)
  have "\<exists>d'. run_tx [] (addService demo 1011 nonce0 owner0 True crm_form) (database demo_end) = (Inr (), d')"
    by (simp add: demo_run addService_def crm_input next_revision_def save_service_def demo_end_simps s
        plain_cancelRequests) (simp add: crm_input_def crm_row_def service_row_of_def)
  then obtain d' where d': "run_tx [] (addService demo 1011 nonce0 owner0 True crm_form) (database demo_end) = (Inr (), d')" ..
  have i: "crm_form ''id'' = ''crm''" by (simp add: crm_form_def)
  from revision_drops_grants [OF demo_initial demo_reaches d', of 1012 device0 "''GET''" "''/status''"] d'
  show ?thesis unfolding i by blast
qed

text \<open>C36. An invitation is good for one enrolment: once a certificate has been issued for its secret,
  every later enrolment with it fails and changes nothing, at any time and under any faults.\<close>

theorem invitation_single_use:
  fixes E :: "'a codec_scheme"
  assumes "run_tx fs (enroll_tx E iss prs now secret csr) d = (Inr x, d')"
  shows "\<exists>e. run_tx fs' (enroll_tx E iss' prs' now' secret csr') d' = (Inl e, d')"
proof -
  from run_tx_runs [OF assms] obtain w' where "runs (enroll_tx E iss prs now secret csr) d d x d' w'" ..
  from runs_enroll_tx [OF this] obtain i cl where
    "d' = audited [] i ''enrolled'' i (set_certificate i cl (use_invitation E secret d))" by blast
  then have "invitations d' = invitations (use_invitation E secret d)"
    by (simp add: set_certificate_def)
  then have none: "invited_device E now' secret d' = None"
    by (auto simp: invited_device_def use_invitation_def find_None_iff)
  obtain r d'' where r: "run_tx fs' (enroll_tx E iss' prs' now' secret csr') d' = (r, d'')" by (metis prod.exhaust)
  show ?thesis
  proof (cases r)
    case (Inl e)
    from run_tx_error [OF r [unfolded Inl] safe_server(2)] r Inl show ?thesis by simp
  next
    case (Inr y)
    from run_tx_runs [OF r [unfolded Inr]] obtain w where
      "runs (enroll_tx E iss' prs' now' secret csr') d' d' y d'' w" ..
    from runs_enroll_tx [OF this] none show ?thesis by simp
  qed
qed

theorem invitation_single_use_witness:
  "\<exists>e d'. run_tx [] (enroll_tx demo (issue demo) (parse_certificate demo) 1004 (ID [] ''s'') ''csr'') db3 =
      (Inr (device0, device0 @ ''csr''), d') \<and>
    run_tx [] (enroll_tx demo (issue demo) (parse_certificate demo) 1005 (ID [] ''s'') ''csr'') d' = (Inl e, d')"
proof -
  have "invited_device demo 1004 (ID [] ''s'') db3 = Some device0"
    by (simp add: invited_device_def db3_def audited_def invitation0_def active_device_def device_row0_def)
  then have "\<exists>d'. run_tx [] (enroll_tx demo (issue demo) (parse_certificate demo) 1004 (ID [] ''s'') ''csr'') db3 =
      (Inr (device0, device0 @ ''csr''), d')"
    by (simp add: demo_run enroll_tx_def demo_issues)
  then show ?thesis using invitation_single_use by blast
qed

text \<open>What the server seals it can open: with an authenticated cipher, the snapshot stored with a
  new request is read back as it was, and so is a stored result.\<close>

lemma sealed_roundtrip:
  assumes "aead_ok E" "length nonce = nonce_size"
    and "unmarshal_snapshot E (marshal_snapshot E snap) = Some snap"
    and "unmarshal_result E (marshal_result E res) = Some res"
    and "snap = submit_snapshot device inp svc p target headers expiry"
  shows "open_snapshot E (new_row E now i nonce device inp snap st) = Inr snap \<and>
    decode_result E i (encrypt_result E nonce i (Some res)) = Inr (Some res)"
proof -
  have "Unseal E purpose (Seal E nonce purpose b) = Inr b" for purpose b
    using assms(1,2) by (simp add: Seal_def Unseal_def aead_ok_def)
  moreover have "Seal E nonce purpose b \<noteq> []" for purpose b
    using assms(2) by (auto simp: Seal_def nonce_size_def)
  ultimately show ?thesis
    using assms(3,4)
    by (simp add: open_snapshot_def new_row_def Let_def Encrypt_def Decrypt_def decode_result_def
        encrypt_result_def assms(5) submit_snapshot_def)
qed

theorem sealed_roundtrip_witness:
  "open_snapshot demo (new_row demo 1005 request0 nonce0 device0 submission0 demo_snapshot queued) = Inr demo_snapshot \<and>
   decode_result demo request0 (encrypt_result demo nonce0 request0 (Some demo_result)) = Inr (Some demo_result)"
proof -
  have e: "aead_ok demo" "length nonce0 = nonce_size"
    by (simp add: aead_ok_def demo_def) code_simp
  have c: "unmarshal_snapshot demo (marshal_snapshot demo demo_snapshot) = Some demo_snapshot"
    "unmarshal_result demo (marshal_result demo demo_result) = Some demo_result"
    by (simp_all add: demo_def demo_snapshot_def demo_result_def)
  show ?thesis
    using sealed_roundtrip [OF e c submit_snapshot0 [symmetric], where now = 1005 and i = request0 and st = queued] by blast
qed

section \<open>After a restore\<close>

text \<open>\<open>--recover-restored\<close> invalidates all access when no statement fails: in any reachable state
  it revokes every device, leaves no session and no request that waits.\<close>

lemma restore_invalidates:
  assumes "initial s" "(step E)\<^sup>*\<^sup>* s s'"
  shows "\<exists>d'. run_tx [] (RecoverRestored now) (database s') = (Inr (), d') \<and> sessions d' = [] \<and>
    list_all dev_revoked (devices d') \<and> list_all (\<lambda>r. rq_status r \<notin> {pending_approval, queued}) (requests d')"
proof -
  have "keyed (database s')" "linked (database s')"
    using sys.reachable [OF assms] by (simp_all add: sys_inv_parts db_inv_def)
  then show ?thesis
    using plain_RecoverRestored [of "database s'" now]
    by (auto simp: keyed_def linked_def list_all_iff closed_def)
qed

theorem restore_invalidates_witness:
  "\<exists>d'. run_tx [] (RecoverRestored 1007) db6 = (Inr (), d') \<and> list_all dev_revoked (devices d')"
  using restore_invalidates [OF demo_initial demo_queued, of 1007] by (auto simp: demo_serving_def)

text \<open>C37. A row iteration that ends early is not noticed: with the listing of the devices cut short
  before its first row, \<open>--recover-restored\<close> still commits and reports success, and every device
  and every waiting request keeps its access.\<close>

theorem restore_cut_short:
  "\<exists>d'. run_tx [NoFault, CutAfter 0] (RecoverRestored now) d = (Inr (), d') \<and>
     devices d' = devices d \<and> requests d' = requests d \<and> permissions d' = permissions d"
  by (simp add: run_tx_def RecoverRestored_def bind_def begin_tx_def query_rows_def exec_def Audit_def commit_def
      ret_def next_fault_def tick_def)

end
