(* ===== verification/Handlers.thy ===== *)
theory Handlers
  imports System
begin

text \<open>
  The device side of the HTTP server: \<open>DeviceHandler\<close> of \<open>internal/server/server.go\<close> with \<open>device\<close>,
  \<open>enroll\<close>, \<open>services\<close>, \<open>httpAudit\<close>, \<open>decode\<close> and \<open>Error\<close>, \<open>renew\<close> of \<open>renewal.go\<close>, and \<open>submit\<close> and
  \<open>status\<close> of \<open>requests.go\<close>. A handler takes the request, the state of the server (slots,
  throttles, audit of direct requests, database) and what the outside does during the call, and
  gives the reply and the state after it.

  The JSON decoder is a parameter: for a byte sequence it gives the first value, read into the
  structure with unknown fields refused, and the bytes that follow. Instants are nanoseconds.
\<close>

section \<open>Requests and replies\<close>

text \<open>The client certificate of a verified connection (\<open>VerifiedChains[0][0]\<close>); times in seconds.\<close>

record peer =
  CommonName :: string
  NotBefore :: int
  NotAfter :: int

text \<open>A body is the bytes it delivers and whether it ends properly.\<close>

record device_request = request +
  Peer :: "peer option"
  Body :: "string \<times> bool"

record listed =
  ls_service :: string
  ls_label :: string
  ls_permission :: string
  ls_methods :: "string list"
  ls_path :: string
  ls_kind :: path_kind
  ls_mode :: perm_mode
  ls_expires :: "int option"

text \<open>
  \<open>Fault\<close> is a reply of \<open>Error\<close>, the next four are the \<open>JSON\<close> replies, \<open>Streamed\<close> is the answer of
  an upstream, \<open>Aborted\<close> the same cut short by \<open>panic(http.ErrAbortHandler)\<close>, and \<open>Gone\<close> a return
  without a reply because the client has left.
\<close>

datatype reply = Fault int string | Enrolled string string | Scopes "listed list" |
  StatusReply Status | Streamed int header string | Aborted int header string | Gone

definition error_detail :: "string \<Rightarrow> (string \<times> string) list" where
  "error_detail code =
     (''code'', code) # (if code = ''approval_required''
       then [(''message'', ''Use budge_request through MCP to ask for individual approval.'')] else [])"

definition code_of :: "error \<Rightarrow> string" where
  "code_of e = (case e of Err c \<Rightarrow> c | DriverErr \<Rightarrow> [])"

text \<open>The JSON readers.\<close>

record json =
  read_enrollment :: "string \<Rightarrow> ((string \<times> string) \<times> string) option"
  read_csr :: "string \<Rightarrow> (string \<times> string) option"
  read_submission :: "string \<Rightarrow> (Submission \<times> string) option"
  read_status :: "string \<Rightarrow> (StatusInput \<times> string) option"

definition json_space :: "char \<Rightarrow> bool" where
  "json_space c \<longleftrightarrow> c \<in> {CHR 0x20, CHR 0x09, CHR 0x0A, CHR 0x0D}"

text \<open>
  \<open>decode\<close>: a body over the limit or with a read error never reaches the end of input that the
  second \<open>Decode\<close> has to find.
\<close>

definition decode :: "(string \<Rightarrow> ('v \<times> string) option) \<Rightarrow> nat \<Rightarrow> string \<times> bool \<Rightarrow> 'v option" where
  "decode first limit body =
     (if limit < length (fst body) \<or> \<not> snd body then None
      else (case first (fst body) of
          None \<Rightarrow> None
        | Some (v, rest) \<Rightarrow> if list_all json_space rest then Some v else None))"

text \<open>\<open>io.ReadAll(http.MaxBytesReader(..))\<close>.\<close>

definition read_all :: "nat \<Rightarrow> string \<times> bool \<Rightarrow> string option" where
  "read_all limit body = (if limit < length (fst body) \<or> \<not> snd body then None else Some (fst body))"

section \<open>The state of the server\<close>

record http_event =
  ev_device :: string
  ev_service :: string
  ev_permission :: string
  ev_method :: string
  ev_status :: int
  ev_duration :: int
  ev_request_bytes :: nat
  ev_response_bytes :: nat

record srv =
  limits :: slots
  windows :: throttles
  http_events :: "http_event list"
  store :: txst

definition on_store :: "'a tx \<Rightarrow> srv \<Rightarrow> (error + 'a) \<times> srv" where
  "on_store m s = (case m (store s) of (r, t) \<Rightarrow> (r, s\<lparr>store := t\<rparr>))"

definition throttled_call :: "string \<Rightarrow> nat \<Rightarrow> int \<Rightarrow> srv \<Rightarrow> bool \<times> srv" where
  "throttled_call key limit t s =
     (case throttle key limit t (windows s) of (ok, w) \<Rightarrow> (ok, s\<lparr>windows := w\<rparr>))"

definition unix :: "int \<Rightarrow> int" where
  "unix t = t div second"

text \<open>What the outside does during a call: the clock, the random bytes, the upstream, the client.\<close>

record moment =
  at :: int
  state :: txst
  left :: bool

record call =
  at_time :: int
  random_bytes :: string
  nonce_bytes :: string
  upstream_answer :: "outgoing \<Rightarrow> exchange"
  body_reads :: "(string \<times> read_end) list"
  client_writes :: "(nat \<times> bool) list"
  took :: int
  moments :: "nat \<Rightarrow> moment"

section \<open>Authentication\<close>

definition active_now :: "string \<Rightarrow> bool tx" where
  "active_now i s = (case query_now (active_device i) s of
     (Inl _, s') \<Rightarrow> (Inr False, s') | (Inr b, s') \<Rightarrow> (Inr b, s'))"

definition device :: "int \<Rightarrow> peer option \<Rightarrow> string tx" where
  "device t p =
     (case p of
        None \<Rightarrow> fail (Err ''device_unauthenticated'')
      | Some c \<Rightarrow>
          if t < NotBefore c * second \<or> \<not> t < NotAfter c * second then fail (Err ''device_revoked'')
          else bind (active_now (CommonName c)) (\<lambda>ok.
            if \<not> ok then fail (Err ''device_revoked'') else ret (CommonName c)))"

section \<open>Enrolment and renewal\<close>

definition enroll :: "'a environment_scheme \<Rightarrow> json \<Rightarrow> call \<Rightarrow> device_request \<Rightarrow> srv \<Rightarrow> reply \<times> srv" where
  "enroll E J c r s =
     (case throttled_call ''enroll'' 20 (at_time c) s of (ok, s) \<Rightarrow>
      if \<not> ok then (Fault 429 ''throttled'', s)
      else (case decode (read_enrollment J) (32 * 1024) (Body r) of
          None \<Rightarrow> (Fault 400 ''invalid_enrollment'', s)
        | Some (secret, csr) \<Rightarrow>
            (case on_store (enroll_tx E (issue E) (parse_certificate E) (unix (at_time c)) secret csr) s of
               (Inl e, s) \<Rightarrow> (Fault (enroll_code (code_of e)) (code_of e), s)
             | (Inr (i, cert), s) \<Rightarrow> (Enrolled i cert, s))))"

definition renew_code :: "string \<Rightarrow> int" where
  "renew_code e =
     (if e = ''device_revoked'' then 401 else if e = ''invalid_csr'' then 400
      else if e = ''certificate_failed'' then 500 else 503)"

definition renew :: "'a environment_scheme \<Rightarrow> json \<Rightarrow> call \<Rightarrow> peer \<Rightarrow> device_request \<Rightarrow> string \<Rightarrow> srv \<Rightarrow> reply \<times> srv" where
  "renew E J c p r dev s =
     (case throttled_call (''renew:'' @ dev) 5 (at_time c) s of (ok, s) \<Rightarrow>
      if \<not> ok then (Fault 429 ''throttled'', s)
      else if renewal_window < NotAfter p * second - at_time c then (Fault 409 ''renewal_not_due'', s)
      else (case decode (read_csr J) (32 * 1024) (Body r) of
          None \<Rightarrow> (Fault 400 ''invalid_csr'', s)
        | Some csr \<Rightarrow>
            (case on_store (renew_tx (issue E) (parse_certificate E) dev csr) s of
               (Inl e, s) \<Rightarrow> (Fault (renew_code (code_of e)) (code_of e), s)
             | (Inr (i, cert), s) \<Rightarrow> (Enrolled i cert, s))))"

section \<open>Durable requests\<close>

definition submit :: "'a environment_scheme \<Rightarrow> json \<Rightarrow> call \<Rightarrow> device_request \<Rightarrow> string \<Rightarrow> srv \<Rightarrow> reply \<times> srv" where
  "submit E J c r dev s =
     (case throttled_call (''submit:'' @ dev) 30 (at_time c) s of (ok, s) \<Rightarrow>
      if \<not> ok then (Fault 429 ''throttled'', s)
      else (case decode (read_submission J) (512 * 1024) (Body r) of
          None \<Rightarrow> (Fault 400 ''invalid_submission'', s)
        | Some inp0 \<Rightarrow>
            (case Normalize inp0 of
               Inl e \<Rightarrow> (Fault 400 (code_of e), s)
             | Inr inp \<Rightarrow>
                 (case on_store (Submit E (unix (at_time c)) (random_bytes c) (nonce_bytes c) dev inp) s of
                    (Inl e, s) \<Rightarrow> (Fault (submit_code (code_of e)) (code_of e), s)
                  | (Inr i, s) \<Rightarrow>
                      (case on_store (RequestStatus E dev i) s of
                         (Inl _, s) \<Rightarrow> (Fault 503 ''storage_unavailable'', s)
                       | (Inr out, s) \<Rightarrow> (StatusReply out, s))))))"

text \<open>
  The waiting loop of \<open>status\<close>: each turn looks at the database as it is then; between two turns
  the handler waits 200 ms or until the client has left.
\<close>

partial_function (option) poll ::
    "'a codec_scheme \<Rightarrow> string \<Rightarrow> StatusInput \<Rightarrow> int \<Rightarrow> (nat \<Rightarrow> moment) \<Rightarrow> nat \<Rightarrow> reply option" where
  "poll E dev inp deadline obs k =
     (case fst (RequestStatus E dev (si_RequestID inp) (state (obs k))) of
        Inl _ \<Rightarrow> Some (Fault 404 ''request_not_found'')
      | Inr out \<Rightarrow>
          if WaitSeconds inp = 0 \<or> deadline < at (obs k) \<or> terminal (st_Status out)
          then Some (StatusReply out)
          else if left (obs k) then Some Gone
          else poll E dev inp deadline obs (k + 1))"

definition status :: "'a environment_scheme \<Rightarrow> json \<Rightarrow> call \<Rightarrow> device_request \<Rightarrow> string \<Rightarrow> reply option" where
  "status E J c r dev =
     (case decode (read_status J) 4096 (Body r) of
        None \<Rightarrow> Some (Fault 400 ''invalid_status_request'')
      | Some inp \<Rightarrow>
          if WaitSeconds inp < 0 \<or> 15 < WaitSeconds inp
          then Some (Fault 400 ''invalid_status_request'')
          else poll E dev inp (at_time c + WaitSeconds inp * second) (moments c) 0)"

section \<open>The list of services\<close>

definition listed_of :: "service_row \<Rightarrow> permission_row \<Rightarrow> listed" where
  "listed_of v p = \<lparr>ls_service = sv_id v, ls_label = sv_label v, ls_permission = perm_ID p,
     ls_methods = Split CHR '','' (PMethod p), ls_path = PPath p, ls_kind = Kind p, ls_mode = Mode p,
     ls_expires = Expires p\<rparr>"

definition listed_rows :: "string \<Rightarrow> int \<Rightarrow> db \<Rightarrow> listed list" where
  "listed_rows dev now d =
     sort_key ls_service (sort_key ls_permission (concat (map (\<lambda>v.
       map (listed_of v) (filter (\<lambda>p. ServiceID p = sv_id v \<and> DeviceID p = dev \<and> enabled v \<and>
         perm_Revision p = sv_revision v \<and> live now p) (permissions d))) (services d))))"

text \<open>A row iteration outside a transaction; \<open>services\<close> does not look at \<open>rows.Err()\<close>.\<close>

definition rows_now :: "(db \<Rightarrow> 'a list) \<Rightarrow> 'a list tx" where
  "rows_now f s =
     (case next_fault s of
        Fail \<Rightarrow> (Inl DriverErr, tick s)
      | CutAfter n \<Rightarrow> (Inr (take n (f (committed s))), tick s)
      | NoFault \<Rightarrow> (Inr (f (committed s)), tick s))"

definition services_reply :: "call \<Rightarrow> string \<Rightarrow> srv \<Rightarrow> reply \<times> srv" where
  "services_reply c dev s =
     (case on_store (rows_now (listed_rows dev (unix (at_time c)))) s of
        (Inl _, s) \<Rightarrow> (Fault 503 ''storage_unavailable'', s)
      | (Inr rows, s) \<Rightarrow> (Scopes rows, s))"

section \<open>Direct requests\<close>

definition httpAudit :: "http_event \<Rightarrow> srv \<Rightarrow> srv" where
  "httpAudit ev s =
     (case on_store (exec_now Some) s of
        (Inl _, s) \<Rightarrow> s
      | (Inr _, s) \<Rightarrow> s\<lparr>http_events := http_events s @ [ev]\<rparr>)"

definition event_of :: "call \<Rightarrow> string \<Rightarrow> service \<Rightarrow> permission \<Rightarrow> string \<Rightarrow> int \<Rightarrow> string \<Rightarrow> nat \<Rightarrow> http_event" where
  "event_of c dev svc p m st body n =
     \<lparr>ev_device = dev, ev_service = svc_ID svc, ev_permission = perm_ID p, ev_method = m, ev_status = st,
      ev_duration = took c, ev_request_bytes = length body, ev_response_bytes = n\<rparr>"

text \<open>After the claim: decrypt, send, record, stream; \<open>None\<close> while the answer is still being copied.\<close>

definition forward :: "'a environment_scheme \<Rightarrow> call \<Rightarrow> device_request \<Rightarrow> string \<Rightarrow> string \<Rightarrow>
    service \<times> permission \<times> string \<Rightarrow> srv \<Rightarrow> (reply \<times> srv) option" where
  "forward E c r body dev claim s =
     (case claim of (svc, p, target) \<Rightarrow>
      (case Decrypt E (credential_ref (svc_ID svc) (svc_Revision svc)) (Credential svc) of
         Inl _ \<Rightarrow> Some (Fault 500 ''credential_unavailable'', s)
       | Inr secret \<Rightarrow>
           (case Send svc (ReqMethod r) target (ReqHeader r) body secret (upstream_answer c) of
              Sent res \<Rightarrow>
                (case Stream (res\<lparr>ResHeader := Del (ResHeader res) (AuthHeader svc)\<rparr>) (ResponseHeaders svc)
                    (body_reads c) (client_writes c) of
                   (st, h, None) \<Rightarrow> None
                 | (st, h, Some (n, out, torn)) \<Rightarrow>
                     Some (if torn then Aborted st h out else Streamed st h out,
                       httpAudit (event_of c dev svc p (ReqMethod r) st body n) s))
            | _ \<Rightarrow> Some (Fault 502 ''upstream_unavailable'',
                httpAudit (event_of c dev svc p (ReqMethod r) 502 body 0) s))))"

definition direct :: "'a environment_scheme \<Rightarrow> call \<Rightarrow> device_request \<Rightarrow> string \<Rightarrow> string \<Rightarrow> string \<Rightarrow> srv \<Rightarrow>
    (reply \<times> srv) option" where
  "direct E c r dev srv path s =
     (case read_all (8 * 1024 * 1024) (Body r) of
        None \<Rightarrow> Some (Fault 413 ''body_too_large'', s)
      | Some body \<Rightarrow>
          (case on_store (http_claim E (unix (at_time c)) dev srv (ReqMethod r) path (RawQuery (ReqURL r))) s of
             (Inl e, s) \<Rightarrow> Some (Fault (http_code (code_of e)) (code_of e), s)
           | (Inr claim, s) \<Rightarrow> forward E c r body dev claim s))"

text \<open>The slot is taken before the body is read and given back on every return.\<close>

definition with_slot :: "string \<Rightarrow> (srv \<Rightarrow> (reply \<times> srv) option) \<Rightarrow> srv \<Rightarrow> (reply \<times> srv) option" where
  "with_slot dev f s =
     (case acquire dev (limits s) of (ok, l) \<Rightarrow>
      if \<not> ok then Some (Fault 429 ''overloaded'', s)
      else map_option (\<lambda>(rep, s). (rep, s\<lparr>limits := release dev (limits s)\<rparr>)) (f (s\<lparr>limits := l\<rparr>)))"

section \<open>\<open>DeviceHandler\<close>\<close>

definition is_call :: "device_request \<Rightarrow> string \<Rightarrow> string \<Rightarrow> bool" where
  "is_call r path m \<longleftrightarrow> URLPath (ReqURL r) = path \<and> ReqMethod r = m"

definition authenticated :: "'a environment_scheme \<Rightarrow> json \<Rightarrow> call \<Rightarrow> device_request \<Rightarrow> string \<Rightarrow> srv \<Rightarrow> (reply \<times> srv) option" where
  "authenticated E J c r dev s =
     (if is_call r ''/device/renew'' ''POST''
      then (case Peer r of None \<Rightarrow> None | Some p \<Rightarrow> Some (renew E J c p r dev s))
      else if is_call r ''/device/services'' ''GET'' then Some (services_reply c dev s)
      else if is_call r ''/device/request'' ''POST'' then Some (submit E J c r dev s)
      else if is_call r ''/device/status'' ''POST'' then map_option (\<lambda>rep. (rep, s)) (status E J c r dev)
      else (case Route (request.truncate r) of
          None \<Rightarrow> Some (Fault 400 ''invalid_request'', s)
        | Some (srv, path) \<Rightarrow> with_slot dev (direct E c r dev srv path) s))"

definition DeviceHandler :: "'a environment_scheme \<Rightarrow> json \<Rightarrow> call \<Rightarrow> device_request \<Rightarrow> srv \<Rightarrow> (reply \<times> srv) option" where
  "DeviceHandler E J c r s =
     (if is_call r ''/enroll'' ''POST'' then Some (enroll E J c r s)
      else (case on_store (device (at_time c) (Peer r)) s of
          (Inl e, s) \<Rightarrow> Some (Fault 401 (code_of e), s)
        | (Inr dev, s) \<Rightarrow> authenticated E J c r dev s))"

end
