(* ===== verification/Call_Effects.thy ===== *)
theory Call_Effects
  imports Handlers
begin

text \<open>
  What a handler does to the database, in terms of the operations of theory System: an operation run
  on the store of the server acts like \<open>run_tx\<close> on the committed database, and an effect is either
  none or that of one command.
\<close>

section \<open>Operations that begin a transaction\<close>

text \<open>A transaction that begins by copying the database does not see an older working copy.\<close>

definition fresh :: "'a tx \<Rightarrow> bool" where
  "fresh m \<longleftrightarrow> (\<forall>s w. \<exists>w'. m (s\<lparr>working := w\<rparr>) = (fst (m s), (snd (m s))\<lparr>working := w'\<rparr>))"

lemma freshI: "(\<And>s w. \<exists>w'. m (s\<lparr>working := w\<rparr>) = (fst (m s), (snd (m s))\<lparr>working := w'\<rparr>)) \<Longrightarrow> fresh m"
  by (simp add: fresh_def)

lemma same_working: "s\<lparr>working := working s\<rparr> = s"
  by (cases s) simp

lemma keep_working: "\<exists>w'. x = (fst x, (snd x)\<lparr>working := w'\<rparr>)"
  by (intro exI [of _ "working (snd x)"]) (simp add: same_working)

lemma fresh_fail: "fresh (fail e)" "fresh (ret x)"
  by (auto simp: fresh_def fail_def ret_def)

lemma fresh_begin: "fresh (bind begin_tx f)" "fresh (bind (or_err e begin_tx) f)"
proof -
  have "begin_tx (s\<lparr>working := w\<rparr>) = (if next_fault s = Fail then (Inl DriverErr, (tick s)\<lparr>working := w\<rparr>)
      else begin_tx s)" for s w
    by (simp add: begin_tx_def next_fault_def tick_def)
  moreover have "next_fault s = Fail \<Longrightarrow> begin_tx s = (Inl DriverErr, tick s)" for s
    by (simp add: begin_tx_def)
  moreover have "next_fault s \<noteq> Fail \<Longrightarrow> begin_tx s = (Inr (), (tick s)\<lparr>working := committed s\<rparr>)" for s
    by (simp add: begin_tx_def)
  ultimately show "fresh (bind begin_tx f)" "fresh (bind (or_err e begin_tx) f)"
    unfolding fresh_def bind_def or_err_def
    by (auto split: prod.split intro: keep_working)
qed

lemma fresh_now: "fresh (exec_now f)" "fresh (query_now g)"
  by (rule freshI, rename_tac s w, rule_tac x = w in exI, case_tac s,
      auto simp: exec_now_def query_now_def next_fault_def tick_def split: option.split)+

lemma fresh_bind:
  assumes "fresh m" and "\<And>x. fresh (f x)"
  shows "fresh (bind m f)"
proof (rule freshI)
  fix s w
  obtain r s1 where ms: "m s = (r, s1)" by (metis prod.exhaust)
  with assms(1) obtain w1 where w1: "m (s\<lparr>working := w\<rparr>) = (r, s1\<lparr>working := w1\<rparr>)"
    unfolding fresh_def by (metis fst_conv snd_conv)
  show "\<exists>w'. bind m f (s\<lparr>working := w\<rparr>) = (fst (bind m f s), (snd (bind m f s))\<lparr>working := w'\<rparr>)"
  proof (cases r)
    case (Inl e)
    with w1 ms show ?thesis by (auto simp: bind_def)
  next
    case (Inr x)
    from assms(2) [of x] obtain w2 where
      "f x (s1\<lparr>working := w1\<rparr>) = (fst (f x s1), (snd (f x s1))\<lparr>working := w2\<rparr>)"
      unfolding fresh_def by blast
    with w1 ms Inr show ?thesis by (auto simp: bind_def)
  qed
qed

lemma fresh_or_err:
  assumes "fresh m"
  shows "fresh (or_err e m)"
proof (rule freshI)
  fix s w
  obtain r s1 where ms: "m s = (r, s1)" by (metis prod.exhaust)
  with assms obtain w1 where w1: "m (s\<lparr>working := w\<rparr>) = (r, s1\<lparr>working := w1\<rparr>)"
    unfolding fresh_def by (metis fst_conv snd_conv)
  with ms show "\<exists>w'. or_err e m (s\<lparr>working := w\<rparr>) = (fst (or_err e m s), (snd (or_err e m s))\<lparr>working := w'\<rparr>)"
    by (cases r) (auto simp: or_err_def)
qed

lemma fresh_run:
  assumes "fresh m" and "m s = (r, s')"
  shows "run_tx (faults s) m (committed s) = (r, committed s')"
proof -
  have "\<lparr>committed = committed s, working = committed s, faults = faults s\<rparr> = s\<lparr>working := committed s\<rparr>"
    by (cases s) simp
  with assms(1) obtain w' where "m \<lparr>committed = committed s, working = committed s, faults = faults s\<rparr> =
      (fst (m s), (snd (m s))\<lparr>working := w'\<rparr>)"
    unfolding fresh_def by metis
  with assms(2) show ?thesis by (simp add: run_tx_def)
qed

lemma fresh_operations:
  "fresh (enroll_tx E iss prs now secret csr)" "fresh (renew_tx iss prs dev csr)"
  "fresh (Submit E now random nonce dev inp)" "fresh (http_claim E now dev srv m path q)"
  by (auto simp: enroll_tx_def renew_tx_def Submit_def http_claim_def fresh_fail fresh_begin split: sum.split)

lemma fresh_owner_operations:
  "fresh (Decide E now owner i digest dec)" "fresh (addService E now nonce owner revise f)"
  "fresh (addPermission E now random owner f)" "fresh (revokePermission now owner i)"
  "fresh (disableService now owner i)" "fresh (revoke now owner i)"
  "fresh (Invitation E now random1 random2 owner label)" "fresh (logout_tx E c)"
  by (auto simp: Decide_def addService_def addPermission_def revokePermission_def disableService_def revoke_def
      Invitation_def logout_tx_def Let_def fresh_fail fresh_begin fresh_now split: sum.split)

lemma fresh_login: "fresh (login_tx E check now password random1 random2)"
  unfolding login_tx_def
  by (intro fresh_bind fresh_or_err fresh_now) (auto intro!: fresh_bind fresh_or_err fresh_now fresh_fail
      split: option.split)

lemma on_store_fresh:
  assumes "fresh m" and "on_store m s = (r, s')"
  shows "run_tx (faults (store s)) m (committed (store s)) = (r, committed (store s'))"
  using assms fresh_run [OF assms(1)] by (auto simp: on_store_def split: prod.splits)

lemma on_store_reads:
  "reads m \<Longrightarrow> on_store m s = (r, s') \<Longrightarrow> committed (store s') = committed (store s)"
  by (auto simp: on_store_def reads_def split: prod.splits) (metis snd_conv)

lemma on_store_frame:
  "on_store m s = (r, s') \<Longrightarrow> limits s' = limits s \<and> windows s' = windows s \<and> http_events s' = http_events s"
  by (auto simp: on_store_def split: prod.splits)

lemma throttled_call_frame:
  "throttled_call k n t s = (ok, s') \<Longrightarrow> limits s' = limits s \<and> http_events s' = http_events s \<and> store s' = store s"
  by (auto simp: throttled_call_def split: prod.splits)

lemma perform_bind: "snd (run_tx fs (bind m (\<lambda>_. ret ())) d) = snd (run_tx fs m d)"
  by (simp add: run_tx_def bind_def ret_def split: prod.split sum.split)

lemma on_store_quiet:
  "quiet m \<Longrightarrow> on_store m s = (r, s') \<Longrightarrow> committed (store s') = committed (store s)"
  by (auto simp: on_store_def quiet_def split: prod.splits) (metis snd_conv)

lemma rows_now_reads: "reads (rows_now f)"
  by (auto simp: reads_def rows_now_def split: fault.splits)


section \<open>Effects\<close>

definition effect :: "'a environment_scheme \<Rightarrow> int \<Rightarrow> srv \<Rightarrow> srv \<Rightarrow> bool" where
  "effect E now s s' \<longleftrightarrow> committed (store s') = committed (store s) \<or>
     (\<exists>fs cmd. committed (store s') = perform_run E now fs cmd (committed (store s)))"

lemma effect_same: "committed (store s') = committed (store s) \<Longrightarrow> effect E now s s'"
  by (simp add: effect_def)

lemma effect_command:
  assumes "perform E now cmd = bind m (\<lambda>_. ret ())" "fresh m" "on_store m x = (r, s')" "store x = store s"
  shows "effect E now s s'"
proof -
  have "committed (store s') = perform_run E now (faults (store s)) cmd (committed (store s))"
    using on_store_fresh [OF assms(2,3)] assms(4)
    by (simp add: perform_run_def assms(1) perform_bind)
  then show ?thesis unfolding effect_def by blast
qed

lemma effect_then: "effect E now s x \<Longrightarrow> committed (store s') = committed (store x) \<Longrightarrow> effect E now s s'"
  by (simp add: effect_def)

lemma effect_step:
  assumes "effect E (unix (at_time c)) s s'"
    and "phase_of S = Serving" "database S = committed (store s)" "clock S \<le> unix (at_time c)"
  shows "\<exists>S'. (step E)\<^sup>*\<^sup>* S S' \<and> database S' = committed (store s')"
  using assms(1) unfolding effect_def
proof (elim disjE exE)
  fix fs cmd
  assume "committed (store s') = perform_run E (unix (at_time c)) fs cmd (committed (store s))"
  with step_command [OF assms(2,4), of E fs cmd] assms(3) show ?thesis
    by (intro exI [of _ "S\<lparr>database := committed (store s'), clock := unix (at_time c)\<rparr>"]) auto
qed (use assms(3) in auto)

end
