(* ===== verification/Device_Calls.thy ===== *)
theory Device_Calls
  imports Call_Effects Scenario Fault_Free
begin

text \<open>
  What the device handler guarantees: waiting ends, unauthenticated callers change nothing, the
  list of services tells what would be authorized, no slot is lost, and the effect of a call that is
  taken on its own is a run of steps of theory System.
\<close>

section \<open>Waiting ends\<close>

lemma poll_result:
  "poll E dev inp deadline obs k \<noteq> None \<or>
     (\<not> deadline < at (obs k) \<and> poll E dev inp deadline obs k = poll E dev inp deadline obs (k + 1))"
  by (subst (1 2) poll.simps) (simp split: sum.split)

lemma poll_ends:
  assumes "\<And>k. k < n \<Longrightarrow> at (obs k) + 200000000 \<le> at (obs (k + 1))"
    and "deadline < at (obs k) + 200000000 * int (n - k)" and "k \<le> n"
  shows "poll E dev inp deadline obs k \<noteq> None"
  using assms(2,3)
proof (induction "n - k" arbitrary: k)
  case 0
  then show ?case using poll_result [of E dev inp deadline obs k] by simp
next
  case (Suc j)
  then have k: "k < n" "j = n - (k + 1)" by auto
  with Suc.prems assms(1) [of k] have "deadline < at (obs (k + 1)) + 200000000 * int (n - (k + 1))"
    by (simp add: of_nat_diff algebra_simps)
  then show ?case
    using Suc.hyps(1) [OF k(2)] k poll_result [of E dev inp deadline obs k] by auto
qed

text \<open>C20. Waiting for a status ends: the longest wait that is admitted is 15 seconds and two looks at the
  database are 200 ms apart, so the handler answers (or the client has left) at the 77th look at
  the latest, whatever happens to the request meanwhile.\<close>

theorem status_ends:
  assumes "at_time c \<le> at (moments c 0)"
    and "list_all (\<lambda>k. at (moments c k) + 200000000 \<le> at (moments c (k + 1))) [0..<76]"
  shows "\<exists>rep. status E J c r dev = Some rep"
proof -
  have sp: "at (moments c k) + 200000000 \<le> at (moments c (k + 1))" if "k < 76" for k
    using assms(2) that by (simp add: list_all_iff)
  have "poll E dev inp (at_time c + WaitSeconds inp * second) (moments c) 0 \<noteq> None"
    if "WaitSeconds inp \<le> 15" for inp
    by (rule poll_ends [where n = 76]) (use sp assms(1) that in \<open>simp_all add: second_def\<close>)
  then show ?thesis
    by (auto simp: status_def split: option.split)
qed

lemma device_reads: "reads (device t p)"
  unfolding device_def active_now_def
  by (auto intro!: tx_rules split: option.split)
    (auto simp: reads_def query_now_def)

section \<open>Every effect is a step of the system\<close>

lemmas effect_operations =
  effect_command [OF perform.simps(10) fresh_operations(1)]
  effect_command [OF perform.simps(11) fresh_operations(2)]
  effect_command [OF perform.simps(1) fresh_operations(3)]

lemma enroll_effect: "enroll E J c r s = (rep, s') \<Longrightarrow> effect E (unix (at_time c)) s s'"
  unfolding enroll_def
  by (auto split: prod.splits if_splits option.splits sum.splits dest!: throttled_call_frame
      intro: effect_operations(1) effect_same)

lemma renew_effect: "renew E J c p r dev s = (rep, s') \<Longrightarrow> effect E (unix (at_time c)) s s'"
  unfolding renew_def
  by (auto split: prod.splits if_splits option.splits sum.splits dest!: throttled_call_frame
      intro: effect_operations(2) effect_same)

lemma submit_effect: "submit E J c r dev s = (rep, s') \<Longrightarrow> effect E (unix (at_time c)) s s'"
  unfolding submit_def
  by (auto split: prod.splits if_splits option.splits sum.splits dest!: throttled_call_frame
      dest!: on_store_quiet [OF quiet_RequestStatus]
      intro: effect_operations(3) effect_then [OF effect_operations(3)] effect_same)

lemma httpAudit_committed [simp]: "committed (store (httpAudit ev s)) = committed (store s)"
  by (auto simp: httpAudit_def on_store_def exec_now_def split: prod.splits sum.splits)

lemma forward_committed: "forward E c r body dev claim s = Some (rep, s') \<Longrightarrow> committed (store s') = committed (store s)"
  by (auto simp: forward_def split: prod.splits sum.splits sent.splits option.splits)

abbreviation answering :: "call \<Rightarrow> (outgoing \<Rightarrow> exchange) \<Rightarrow> call" where
  "answering c g \<equiv> c\<lparr>upstream_answer := g\<rparr>"

lemma answering_fields: "at_time (answering c g) = at_time c" "random_bytes (answering c g) = random_bytes c"
  "nonce_bytes (answering c g) = nonce_bytes c" "moments (answering c g) = moments c" "took (answering c g) = took c"
  "body_reads (answering c g) = body_reads c" "client_writes (answering c g) = client_writes c"
  "upstream_answer (answering c g) = g"
  by simp_all

lemma answering_elsewhere [simp]:
  "enroll E J (answering c g) r s = enroll E J c r s" "renew E J (answering c g) p r dev s = renew E J c p r dev s"
  "submit E J (answering c g) r dev s = submit E J c r dev s" "status E J (answering c g) r dev = status E J c r dev"
  "services_reply (answering c g) dev s = services_reply c dev s"
  "event_of (answering c g) dev svc q m st body n = event_of c dev svc q m st body n"
  unfolding enroll_def renew_def submit_def status_def services_reply_def event_of_def answering_fields
  by (rule refl)+

text \<open>The upstream is asked nothing but the request that the claim fixes.\<close>

lemma forward_answering:
  assumes "\<And>out. http_request E svc (ReqMethod r) target (ReqHeader r) body = Some out \<Longrightarrow>
    g out = upstream_answer c out"
  shows "forward E (answering c g) r body dev (svc, p, target) s = forward E c r body dev (svc, p, target) s"
proof (cases "Decrypt E (credential_ref (svc_ID svc) (svc_Revision svc)) (Credential svc)")
  case (Inr secret)
  have "Send svc (ReqMethod r) target (ReqHeader r) body secret g =
      Send svc (ReqMethod r) target (ReqHeader r) body secret (upstream_answer c)"
    using assms Inr by (auto simp: http_request_def Send_def split: option.split)
  then show ?thesis
    unfolding forward_def answering_fields answering_elsewhere by (simp add: Inr)
qed (simp add: forward_def)

lemma on_store_http:
  assumes "on_store (http_claim E now dev srv m path q) s = (res, x)"
  shows "run_tx (faults (store s)) (http_claim E now dev srv m path q) (committed (store s)) =
    (res, committed (store x))"
  by (rule on_store_fresh [OF fresh_operations(4) assms])

lemma direct_step:
  assumes "direct E c r dev srv path s = Some (rep, s')"
    and "phase_of S = Serving" "database S = committed (store s)" "clock S \<le> unix (at_time c)"
  shows "\<exists>S'. (step E)\<^sup>*\<^sup>* S S' \<and> database S' = committed (store s') \<and>
    (\<forall>g. list_all (\<lambda>(k, out). g out = upstream_answer c out) (http_log S') \<longrightarrow>
      direct E (answering c g) r dev srv path s = Some (rep, s'))"
proof (cases "read_all (8 * 1024 * 1024) (Body r)")
  case None
  with assms show ?thesis by (auto simp: direct_def)
next
  case (Some body)
  let ?now = "unix (at_time c)" and ?tx = "http_claim E (unix (at_time c)) dev srv (ReqMethod r) path (RawQuery (ReqURL r))"
  obtain res x where x: "on_store ?tx s = (res, x)" by (metis prod.exhaust)
  note run = on_store_http [OF x, folded assms(3)]
  show ?thesis
  proof (cases res)
    case (Inl e)
    with x Some assms(1) have "s' = x" "\<And>g. direct E (answering c g) r dev srv path s = Some (rep, s')"
      by (auto simp: direct_def)
    with step_http_refused [OF assms(2,4) run [unfolded Inl]] show ?thesis
      by (intro exI [of _ "S\<lparr>database := committed (store x), clock := ?now\<rparr>"]) auto
  next
    case (Inr claim)
    obtain svc p target where claim: "claim = (svc, p, target)" by (metis prod.exhaust)
    have fwd: "direct E (answering c g) r dev srv path s = forward E (answering c g) r body dev (svc, p, target) x" for g
      using x Some Inr claim by (simp add: direct_def)
    have "direct E c r dev srv path s = forward E c r body dev (svc, p, target) x"
      using x Some Inr claim by (simp add: direct_def)
    with assms(1) have f: "forward E c r body dev (svc, p, target) x = Some (rep, s')" by simp
    let ?k = "\<lparr>dc_time = ?now, dc_device = dev, dc_method = ReqMethod r, dc_path = path, dc_header = ReqHeader r,
      dc_body = body, dc_service = svc, dc_permission = p, dc_target = target\<rparr>"
    let ?C = "S\<lparr>database := committed (store x), clock := ?now, http_claims := http_claims S @ [?k]\<rparr>"
    let ?S = "?C\<lparr>http_claims := http_claims S, http_log := http_log S @ (case direct_request E ?k of
         None \<Rightarrow> [] | Some out \<Rightarrow> [(?k, out)])\<rparr>"
    have "step E S ?C"
      using step_http_claim [OF assms(2,4) run [unfolded Inr claim]] .
    moreover have "step E ?C ?S"
      using step_http_send [of ?C "http_claims S" ?k "[]" E] assms(2) by simp
    ultimately have "(step E)\<^sup>*\<^sup>* S ?S" by (meson rtranclp.rtrancl_into_rtrancl rtranclp.rtrancl_refl)
    moreover have "direct E (answering c g) r dev srv path s = Some (rep, s')"
      if "list_all (\<lambda>(k, out). g out = upstream_answer c out) (http_log ?S)" for g
      unfolding fwd using that by (subst forward_answering) (auto simp: f direct_request_def)
    ultimately show ?thesis
      using forward_committed [OF f] by (intro exI [of _ ?S] conjI) auto
  qed
qed

lemma with_slot_Some:
  assumes "with_slot dev f s = Some (rep, s')"
  shows "(s' = s \<and> rep = Fault 429 ''overloaded'' \<and> \<not> fst (acquire dev (limits s))) \<or>
    (\<exists>x. f (s\<lparr>limits := snd (acquire dev (limits s))\<rparr>) = Some (rep, x) \<and> fst (acquire dev (limits s)) \<and>
      s' = x\<lparr>limits := release dev (limits x)\<rparr>)"
  using assms by (auto simp: with_slot_def split: prod.splits if_splits)

lemma with_slot_full:
  "\<not> fst (acquire dev (limits s)) \<Longrightarrow> with_slot dev f s = Some (Fault 429 ''overloaded'', s)"
  by (auto simp: with_slot_def split: prod.splits)

lemma with_slot_run:
  "fst (acquire dev (limits s)) \<Longrightarrow> f (s\<lparr>limits := snd (acquire dev (limits s))\<rparr>) = Some (rep, x) \<Longrightarrow>
     with_slot dev f s = Some (rep, x\<lparr>limits := release dev (limits x)\<rparr>)"
  by (auto simp: with_slot_def split: prod.splits)

text \<open>A call of an active device, whatever it is routed to.\<close>

lemma authenticated_refines:
  assumes "authenticated E J c r dev x = Some (rep, s')"
    and "phase_of S = Serving" "database S = committed (store x)" "clock S \<le> unix (at_time c)"
  shows "\<exists>S'. (step E)\<^sup>*\<^sup>* S S' \<and> database S' = committed (store s') \<and>
    (\<forall>g. list_all (\<lambda>(k, out). g out = upstream_answer c out) (http_log S') \<longrightarrow>
      authenticated E J (answering c g) r dev x = Some (rep, s'))"
proof (cases "effect E (unix (at_time c)) x s' \<and> (\<forall>g. authenticated E J (answering c g) r dev x = Some (rep, s'))")
  case True
  with effect_step [OF _ assms(2-4)] show ?thesis by metis
next
  case no: False
  have eff: "\<And>y. services_reply c dev x = (rep, y) \<Longrightarrow> effect E (unix (at_time c)) x y"
    by (auto simp: services_reply_def split: prod.splits sum.splits
        dest!: on_store_reads [OF rows_now_reads] intro: effect_same)
  let ?taken = "x\<lparr>limits := snd (acquire dev (limits x))\<rparr>"
  from no assms(1) obtain srv path where dir: "with_slot dev (direct E c r dev srv path) x = Some (rep, s')"
    "\<And>g. authenticated E J (answering c g) r dev x = with_slot dev (direct E (answering c g) r dev srv path) x"
    unfolding authenticated_def
    by (auto split: if_splits option.splits intro: renew_effect submit_effect effect_same eff)
  from with_slot_Some [OF dir(1)] show ?thesis
  proof (elim disjE exE conjE)
    assume "s' = x" "rep = Fault 429 ''overloaded''" "\<not> fst (acquire dev (limits x))"
    with assms(3) show ?thesis
      by (intro exI [of _ S]) (simp add: dir(2) with_slot_full)
  next
    fix y
    assume y: "direct E c r dev srv path ?taken = Some (rep, y)"
      "fst (acquire dev (limits x))" "s' = y\<lparr>limits := release dev (limits y)\<rparr>"
    have slot: "with_slot dev (direct E (answering c g) r dev srv path) x = Some (rep, s')"
      if "direct E (answering c g) r dev srv path ?taken = Some (rep, y)" for g
      unfolding y(3) by (rule with_slot_run [OF y(2), of "direct E (answering c g) r dev srv path"]) (rule that)
    have "database S = committed (store ?taken)" using assms(3) by simp
    from direct_step [OF y(1) assms(2) this assms(4)] obtain S' where S': "(step E)\<^sup>*\<^sup>* S S'"
      "database S' = committed (store y)"
      "\<And>g. list_all (\<lambda>(k, out). g out = upstream_answer c out) (http_log S') \<Longrightarrow>
         direct E (answering c g) r dev srv path ?taken = Some (rep, y)"
      by blast
    then show ?thesis
      by (intro exI [of _ S'] conjI allI impI) (simp_all add: dir(2) slot y(3))
  qed
qed

text \<open>C8. The HTTP layer adds nothing to the system: whatever a device sends and whatever fails, the effect of
  the call on the database is reached by steps of the transition system, and the upstream learns
  of nothing but the requests in its log - with an upstream that answers these the same and
  everything else differently, the call ends the same. The call is taken on its own: a direct request
  is its claim and then the hand-over, two steps between which the system may do others.\<close>

theorem handler_refines:
  assumes "DeviceHandler E J c r s = Some (rep, s')"
    and "phase_of S = Serving" "database S = committed (store s)" "clock S \<le> unix (at_time c)"
  shows "\<exists>S'. (step E)\<^sup>*\<^sup>* S S' \<and> database S' = committed (store s') \<and>
    (\<forall>g. list_all (\<lambda>(k, out). g out = upstream_answer c out) (http_log S') \<longrightarrow>
      DeviceHandler E J (answering c g) r s = Some (rep, s'))"
proof (cases "is_call r ''/enroll'' ''POST''")
  case True
  with assms(1) have "enroll E J c r s = (rep, s')" by (simp add: DeviceHandler_def)
  from effect_step [OF enroll_effect [OF this] assms(2-4)] assms(1) True show ?thesis
    by (auto simp: DeviceHandler_def)
next
  case False
  obtain res x where x: "on_store (device (at_time c) (Peer r)) s = (res, x)" by (metis prod.exhaust)
  have c: "committed (store x) = committed (store s)" by (rule on_store_reads [OF device_reads x])
  show ?thesis
  proof (cases res)
    case (Inl e)
    with x False assms(1,3) c show ?thesis by (auto simp: DeviceHandler_def)
  next
    case (Inr dev)
    with x False assms(1) have a: "authenticated E J c r dev x = Some (rep, s')" by (simp add: DeviceHandler_def)
    have D: "DeviceHandler E J (answering c g) r s = authenticated E J (answering c g) r dev x" for g
      using x False Inr by (simp add: DeviceHandler_def)
    from authenticated_refines [OF a assms(2) assms(3) [folded c] assms(4)] show ?thesis by (simp add: D)
  qed
qed

section \<open>Callers that are not an active device\<close>

definition entitled :: "int \<Rightarrow> peer option \<Rightarrow> db \<Rightarrow> bool" where
  "entitled t p d \<longleftrightarrow> (case p of None \<Rightarrow> False
     | Some q \<Rightarrow> NotBefore q * second \<le> t \<and> t < NotAfter q * second \<and> active_device (CommonName q) d)"

lemma device_Inr:
  "on_store (device t p) s = (Inr dev, s') \<Longrightarrow>
     entitled t p (committed (store s)) \<and> (\<exists>q. p = Some q \<and> CommonName q = dev)"
  by (auto simp: on_store_def device_def fail_def ret_def bind_def active_now_def query_now_def entitled_def
      split: option.splits if_splits prod.splits)

lemma device_Inl: "on_store (device t p) s = (Inl e, s') \<Longrightarrow> \<exists>code. e = Err code"
  by (auto simp: on_store_def device_def fail_def ret_def bind_def active_now_def query_now_def
      split: option.splits if_splits prod.splits)

text \<open>C15. Without a current certificate of an active device nothing but \<open>/enroll\<close> is served: the reply is 401,
  and the database, the slots, the throttles and the audit of direct requests stay as they were.\<close>

theorem strangers_change_nothing:
  assumes "\<not> is_call r ''/enroll'' ''POST''" and "\<not> entitled (at_time c) (Peer r) (committed (store s))"
  shows "\<exists>code s'. DeviceHandler E J c r s = Some (Fault 401 code, s') \<and>
    committed (store s') = committed (store s) \<and> limits s' = limits s \<and> windows s' = windows s \<and>
    http_events s' = http_events s"
proof -
  obtain res x where x: "on_store (device (at_time c) (Peer r)) s = (res, x)" by (metis prod.exhaust)
  with assms(2) obtain e where "res = Inl e" by (cases res) (auto dest: device_Inr)
  with x assms(1) have "DeviceHandler E J c r s = Some (Fault 401 (code_of e), x)" by (simp add: DeviceHandler_def)
  with on_store_frame [OF x] on_store_reads [OF device_reads x] show ?thesis by blast
qed

section \<open>Slots and the audit of direct requests\<close>

lemma release_acquire: "acquire dev l = (True, l') \<Longrightarrow> release dev l' = l"
  by (auto simp: acquire_def release_def fun_eq_iff split: if_splits)

text \<open>The status that a reply passes on from the exchange with the upstream.\<close>

fun answered :: "reply \<Rightarrow> int option" where
  "answered (Streamed st h out) = Some st"
| "answered (Aborted st h out) = Some st"
| "answered (Fault st code) = (if st = 502 then Some st else None)"
| "answered _ = None"

text \<open>
  The record of a call is one more statement, whose error the code ignores. So the record is there
  exactly when that statement, the one after \<open>n\<close> others, does not fail.
\<close>

definition fault_at :: "nat \<Rightarrow> fault list \<Rightarrow> fault" where
  "fault_at n fs = (if n < length fs then fs ! n else NoFault)"

lemma fault_at_drop: "fault_at n (drop m fs) = fault_at (m + n) fs"
  by (auto simp: fault_at_def)

lemma next_fault_at: "next_fault s = fault_at 0 (faults s)"
  by (auto simp: next_fault_def fault_at_def split: list.split)

definition accounted :: "nat \<Rightarrow> string \<Rightarrow> reply \<Rightarrow> srv \<Rightarrow> srv \<Rightarrow> bool" where
  "accounted n dev rep s s' \<longleftrightarrow> (case answered rep of
       None \<Rightarrow> http_events s' = http_events s
     | Some st \<Rightarrow> \<exists>e. ev_status e = st \<and> ev_device e = dev \<and>
         http_events s' = http_events s @ (if fault_at n (faults (store s)) = Fail then [] else [e]))"

lemma accounted_quiet: "http_events s' = http_events s \<Longrightarrow> answered rep = None \<Longrightarrow> accounted n dev rep s s'"
  by (simp add: accounted_def)

lemma accounted_later:
  "http_events s = http_events t \<Longrightarrow> faults (store s) = drop m (faults (store t)) \<Longrightarrow>
     accounted n dev rep s s' \<Longrightarrow> accounted (m + n) dev rep t s'"
  by (cases "answered rep") (auto simp: accounted_def fault_at_drop)

lemma accounted_limits [simp]: "accounted n dev rep (s\<lparr>limits := l\<rparr>) s' \<longleftrightarrow> accounted n dev rep s s'"
  by (cases "answered rep") (simp_all add: accounted_def)

lemma accounted_after:
  "http_events s' = http_events y \<Longrightarrow> accounted n dev rep s y \<Longrightarrow> accounted n dev rep s s'"
  by (cases "answered rep") (auto simp: accounted_def)

text \<open>A transaction that succeeds has used a fixed number of statements.\<close>

definition takes :: "nat \<Rightarrow> 'a tx \<Rightarrow> bool" where
  "takes n m \<longleftrightarrow> (\<forall>s x t. m s = (Inr x, t) \<longrightarrow> faults t = drop n (faults s))"

lemma takes_bind: "takes n m \<Longrightarrow> (\<And>x. takes k (f x)) \<Longrightarrow> takes (n + k) (bind m f)"
  by (auto simp: takes_def bind_Inr add.commute)

lemma takes_leaves: "takes 0 (ret x)" "takes n (fail e)" "takes n m \<Longrightarrow> takes n (or_err e m)"
  by (auto simp: takes_def ret_def fail_def or_err_def split: prod.splits sum.splits)

lemma takes_one: "takes 1 begin_tx" "takes 1 commit" "takes 1 (query f)" "takes 1 (query_rows g)" "takes 1 (exec h)"
  "takes 1 (query_now f)" "takes 1 (ActiveDevice i)" "takes 1 (active_now i)" "takes 1 (Audit o' d k e)"
  by (auto simp: takes_def begin_tx_def commit_def query_def query_rows_def exec_def query_now_def ActiveDevice_def
      active_now_def Audit_def drop_Suc split: if_splits fault.splits option.splits)

lemmas takes_split = tx_split [where P = "takes n" for n]

lemma takes_GetService: "takes 1 (GetService E i)"
proof -
  have "takes (1 + 0) (GetService E i)"
    unfolding GetService_def by (intro takes_bind takes_one takes_leaves takes_split)
  then show ?thesis by simp
qed

lemma takes_Authorize: "takes 3 (Authorize E now dev srv m path)"
proof -
  have "takes (1 + (1 + (1 + 0))) (Authorize E now dev srv m path)"
    unfolding Authorize_def by (intro takes_bind takes_one takes_leaves takes_split takes_GetService)
  then show ?thesis by (simp add: numeral_3_eq_3)
qed

lemma takes_http_claim: "takes 6 (http_claim E now dev srv m path q)"
proof -
  have "takes (1 + (3 + (1 + (1 + 0)))) (http_claim E now dev srv m path q)"
    unfolding http_claim_def by (intro takes_bind takes_one takes_leaves takes_split takes_Authorize)
  then show ?thesis by simp
qed

lemma takes_device: "takes 1 (device t p)"
proof -
  have "takes (1 + 0) (device t (Some q))" for q
    unfolding device_def option.case by (intro takes_bind takes_one takes_leaves takes_split)
  then show ?thesis by (cases p) (auto simp: device_def takes_leaves)
qed

lemma on_store_takes:
  "takes n m \<Longrightarrow> on_store m s = (Inr x, s') \<Longrightarrow> faults (store s') = drop n (faults (store s))"
  by (auto simp: takes_def on_store_def split: prod.splits)

lemma httpAudit_frame [simp]: "limits (httpAudit ev s) = limits s"
  by (auto simp: httpAudit_def split: prod.splits sum.splits dest: on_store_frame)

lemma httpAudit_accounted:
  assumes "answered rep = Some (ev_status ev)"
  shows "accounted 0 (ev_device ev) rep s (httpAudit ev s)"
proof -
  have "http_events (httpAudit ev s) = http_events s @ (if fault_at 0 (faults (store s)) = Fail then [] else [ev])"
    by (auto simp: httpAudit_def on_store_def exec_now_def next_fault_at)
  with assms show ?thesis by (auto simp: accounted_def)
qed

lemma codes_no_502: "enroll_code e \<noteq> 502" "renew_code e \<noteq> 502" "submit_code e \<noteq> 502" "http_code e \<noteq> 502"
  by (simp_all add: enroll_code_def renew_code_def submit_code_def http_code_def)

lemma forward_accounted:
  assumes "forward E c r body dev claim s = Some (rep, s')"
  shows "accounted 0 dev rep s s' \<and> limits s' = limits s"
proof -
  obtain svc p target where "claim = (svc, p, target)" by (metis prod.exhaust)
  moreover have "accounted 0 dev rep s (httpAudit (event_of c dev svc p (ReqMethod r) st body n) s)"
    if "answered rep = Some st" for st n
    using httpAudit_accounted [of rep "event_of c dev svc p (ReqMethod r) st body n" s] that
    by (simp add: event_of_def)
  ultimately show ?thesis
    using assms by (auto simp: forward_def accounted_quiet split: prod.splits sum.splits sent.splits option.splits)
qed

lemma http_claim_clear: "\<exists>c' w'. snd (http_claim E now dev srv m path q (clear c w)) = clear c' w'"
  by (auto simp: http_claim_def plain_run plain_Authorize Audit_def split: option.splits sum.splits prod.splits)

lemma direct_accounted:
  assumes "direct E c r dev srv path s = Some (rep, s')"
  shows "accounted 6 dev rep s s' \<and> limits s' = limits s"
proof (cases "read_all (8 * 1024 * 1024) (Body r)")
  case None
  with assms show ?thesis by (auto simp: direct_def accounted_quiet)
next
  case (Some body)
  let ?tx = "http_claim E (unix (at_time c)) dev srv (ReqMethod r) path (RawQuery (ReqURL r))"
  obtain res x where x: "on_store ?tx s = (res, x)" by (metis prod.exhaust)
  note frame = on_store_frame [OF x]
  show ?thesis
  proof (cases res)
    case (Inl e)
    with x Some assms frame show ?thesis
      by (auto simp: direct_def codes_no_502 intro!: accounted_quiet)
  next
    case (Inr claim)
    with x Some assms have "forward E c r body dev claim x = Some (rep, s')" by (simp add: direct_def)
    from forward_accounted [OF this] frame show ?thesis
      using accounted_later [of x s 6 0 dev rep s'] on_store_takes [OF takes_http_claim x [unfolded Inr]] by simp
  qed
qed

lemma device_calls_quiet:
  "enroll E J c r s = (rep, s') \<Longrightarrow> http_events s' = http_events s \<and> limits s' = limits s \<and> answered rep = None"
  "renew E J c p r dev s = (rep, s') \<Longrightarrow> http_events s' = http_events s \<and> limits s' = limits s \<and> answered rep = None"
  "submit E J c r dev s = (rep, s') \<Longrightarrow> http_events s' = http_events s \<and> limits s' = limits s \<and> answered rep = None"
  "services_reply c dev s = (rep, s') \<Longrightarrow> http_events s' = http_events s \<and> limits s' = limits s \<and> answered rep = None"
  by (auto simp: enroll_def renew_def submit_def services_reply_def codes_no_502
      split: prod.splits if_splits option.splits sum.splits dest!: throttled_call_frame on_store_frame)

lemma poll_quiet: "poll E dev inp deadline obs k = Some rep \<Longrightarrow> answered rep = None"
  by (erule poll.raw_induct [rotated]) (auto split: sum.splits if_splits)

lemma status_quiet: "status E J c r dev = Some rep \<Longrightarrow> answered rep = None"
  by (auto simp: status_def poll_quiet split: option.splits if_splits)

text \<open>C14. Nothing leaks from a call, however it ends: every slot taken is given back, also when the answer is
  aborted. A call that reached the upstream (its reply is the upstream's, or 502) leaves exactly one
  record of it, with the status and under the device that made it, unless the statement that writes
  the record, the eighth of the call, fails: its error is ignored, and then there is none. No other
  call leaves a record, and no earlier fault of the storage loses one.\<close>

theorem calls_are_accounted:
  assumes "DeviceHandler E J c r s = Some (rep, s')"
  shows "limits s' = limits s \<and> accounted 7 (case Peer r of None \<Rightarrow> [] | Some q \<Rightarrow> CommonName q) rep s s'"
proof (cases "is_call r ''/enroll'' ''POST''")
  case True
  with assms have "enroll E J c r s = (rep, s')" by (simp add: DeviceHandler_def)
  from device_calls_quiet(1) [OF this] show ?thesis by (simp add: accounted_quiet)
next
  case False
  obtain res x where x: "on_store (device (at_time c) (Peer r)) s = (res, x)" by (metis prod.exhaust)
  note frame = on_store_frame [OF x]
  show ?thesis
  proof (cases res)
    case (Inl e)
    with x False assms frame show ?thesis by (auto simp: DeviceHandler_def intro!: accounted_quiet)
  next
    case (Inr dev)
    with x False assms have a: "authenticated E J c r dev x = Some (rep, s')" by (simp add: DeviceHandler_def)
    from x Inr have dev: "(case Peer r of None \<Rightarrow> [] | Some q \<Rightarrow> CommonName q) = dev" by (auto dest: device_Inr)
    have "limits s' = limits x \<and> accounted 6 dev rep x s'"
    proof (cases "http_events s' = http_events x \<and> limits s' = limits x \<and> answered rep = None")
      case True
      then show ?thesis by (simp add: accounted_quiet)
    next
      case no: False
      with a obtain srv path where dir: "with_slot dev (direct E c r dev srv path) x = Some (rep, s')"
        unfolding authenticated_def
        by (auto split: if_splits option.splits dest: device_calls_quiet(2-4) status_quiet)
      from with_slot_Some [OF this] no obtain y where
        y: "direct E c r dev srv path (x\<lparr>limits := snd (acquire dev (limits x))\<rparr>) = Some (rep, y)"
          "fst (acquire dev (limits x))" "s' = y\<lparr>limits := release dev (limits y)\<rparr>"
        by auto
      from direct_accounted [OF y(1)] have acc: "accounted 6 dev rep x y" and l: "limits y = snd (acquire dev (limits x))"
        by simp_all
      have "acquire dev (limits x) = (True, limits y)" using y(2) l by (simp add: prod_eq_iff)
      from release_acquire [OF this] accounted_after [OF _ acc, of s'] show ?thesis by (simp add: y(3))
    qed
    with frame dev show ?thesis
      using accounted_later [of x s 1 6 dev rep s'] on_store_takes [OF takes_device x [unfolded Inr]] by simp
  qed
qed

section \<open>The list of services\<close>

text \<open>What an entry of the list promises to a client that reads it.\<close>

definition admits :: "string \<Rightarrow> string \<Rightarrow> string \<Rightarrow> listed \<Rightarrow> bool" where
  "admits srv m path x \<longleftrightarrow> ls_service x = srv \<and> m \<in> set (ls_methods x) \<and>
     (path = ls_path x \<or> (ls_kind x = subtree \<and> HasPrefix path (TrimSuffix (ls_path x) ''/'' @ ''/'')))"

lemma admits_listed: "admits srv m path (listed_of v p) \<longleftrightarrow> sv_id v = srv \<and> Match p m path"
  by (auto simp: admits_def listed_of_def Match_def HasMethod_iff)

lemma set_listed_rows:
  "set (listed_rows dev now d) = {listed_of v p | v p. v \<in> set (services d) \<and> p \<in> set (permissions d) \<and>
     ServiceID p = sv_id v \<and> DeviceID p = dev \<and> enabled v \<and> perm_Revision p = sv_revision v \<and> live now p}"
  by (auto simp: listed_rows_def)

lemma service_of_row_simps:
  "service_of_row E v = Some s \<Longrightarrow> svc_ID s = sv_id v \<and> svc_Revision s = sv_revision v"
  by (auto simp: service_of_row_def split: option.splits)

lemma enabled_service_row:
  assumes "distinct (map sv_id (services d))" "list_all (\<lambda>v. service_of_row E v \<noteq> None) (services d)"
    and "v \<in> set (services d)" "enabled v"
  shows "\<exists>s. enabled_service E (sv_id v) d = Some s \<and> svc_Revision s = sv_revision v"
proof -
  obtain s where s: "service_of_row E v = Some s" using assms(2,3) by (auto simp: list_all_iff)
  have "find (\<lambda>r. sv_id r = sv_id v \<and> enabled r) (services d) = Some v"
  proof -
    have u: "u = v" if "u \<in> set (services d)" "sv_id u = sv_id v" for u
      using assms(1,3) that by (auto simp: distinct_map dest: inj_onD)
    from assms(3,4) have "find (\<lambda>r. sv_id r = sv_id v \<and> enabled r) (services d) \<noteq> None"
      by (auto simp: find_None_iff)
    then show ?thesis by (auto dest: find_Some_in u)
  qed
  with s service_of_row_simps [OF s] show ?thesis by (simp add: enabled_service_def)
qed

text \<open>What the list and the authorization both look for.\<close>

definition grants :: "db \<Rightarrow> int \<Rightarrow> string \<Rightarrow> string \<Rightarrow> string \<Rightarrow> string \<Rightarrow> service_row \<Rightarrow> permission_row \<Rightarrow> bool" where
  "grants d now dev srv m path v p \<longleftrightarrow> v \<in> set (services d) \<and> p \<in> set (permissions d) \<and> sv_id v = srv \<and>
     ServiceID p = srv \<and> DeviceID p = dev \<and> enabled v \<and> perm_Revision p = sv_revision v \<and> live now p \<and>
     Match p m path"

lemma listed_grants: "list_ex (admits srv m path) (listed_rows dev now d) \<longleftrightarrow> (\<exists>v p. grants d now dev srv m path v p)"
proof
  assume "list_ex (admits srv m path) (listed_rows dev now d)"
  then obtain x where "x \<in> set (listed_rows dev now d)" and adm: "admits srv m path x" by (auto simp: list_ex_iff)
  then obtain v p where "x = listed_of v p" and *: "v \<in> set (services d)" "p \<in> set (permissions d)"
    "ServiceID p = sv_id v" "DeviceID p = dev" "enabled v" "perm_Revision p = sv_revision v" "live now p"
    unfolding set_listed_rows by blast
  with adm have "sv_id v = srv" "Match p m path" by (simp_all add: admits_listed)
  with * have "grants d now dev srv m path v p" by (simp add: grants_def)
  then show "\<exists>v p. grants d now dev srv m path v p" by blast
next
  assume "\<exists>v p. grants d now dev srv m path v p"
  then obtain v p where g: "grants d now dev srv m path v p" by blast
  then have "listed_of v p \<in> set (listed_rows dev now d)" "admits srv m path (listed_of v p)"
    unfolding set_listed_rows by (auto simp: admits_listed grants_def)
  then show "list_ex (admits srv m path) (listed_rows dev now d)" by (auto simp: list_ex_iff)
qed

text \<open>C16. The list of services tells a device what it may do, neither more nor less: some entry covers a
  service, a method and a path precisely when a request for them would be authorized.\<close>

theorem services_exact:
  assumes "active_device dev d" and "distinct (map sv_id (services d))"
    and "list_all (\<lambda>v. service_of_row E v \<noteq> None) (services d)" and "store s = clear d w"
  shows "\<exists>rows. services_reply c dev s = (Scopes rows, s) \<and>
    (list_ex (admits srv m path) rows \<longleftrightarrow> authorize E (unix (at_time c)) d dev srv m path \<noteq> None)"
proof -
  let ?now = "unix (at_time c)"
  have "services_reply c dev s = (Scopes (listed_rows dev ?now d), s)"
    using assms(4) by (cases s) (simp add: services_reply_def on_store_def rows_now_def no_faults)
  moreover have "(\<exists>v p. grants d ?now dev srv m path v p) \<longleftrightarrow> authorize E ?now d dev srv m path \<noteq> None"
  proof
    assume "\<exists>v p. grants d ?now dev srv m path v p"
    then obtain v p where vp: "v \<in> set (services d)" "p \<in> set (permissions d)" "sv_id v = srv" "ServiceID p = srv"
      "DeviceID p = dev" "enabled v" "perm_Revision p = sv_revision v" "live ?now p" "Match p m path"
      unfolding grants_def by blast
    from enabled_service_row [OF assms(2,3) vp(1,6)] vp(3) obtain s where
      "enabled_service E srv d = Some s" "svc_Revision s = sv_revision v" by auto
    with vp assms(1) show "authorize E ?now d dev srv m path \<noteq> None"
      by (auto simp: authorize_def find_None_iff candidate_rows_def)
  next
    assume "authorize E ?now d dev srv m path \<noteq> None"
    then obtain sv p where a: "authorize E ?now d dev srv m path = Some (sv, p)" by auto
    show "\<exists>v p. grants d ?now dev srv m path v p"
    proof (rule authorize_SomeE [OF a])
      assume "active_device dev d" and p: "enabled_service E srv d = Some sv" "p \<in> set (permissions d)" "DeviceID p = dev"
        "ServiceID p = srv" "perm_Revision p = svc_Revision sv" "live ?now p" "Match p m path"
      from p(1) obtain v where "find (\<lambda>r. sv_id r = srv \<and> enabled r) (services d) = Some v"
        "service_of_row E v = Some sv" by (auto simp: enabled_service_def bind_eq_Some_conv)
      with p have "grants d ?now dev srv m path v p"
        by (auto simp: grants_def dest!: find_Some_in service_of_row_simps)
      then show ?thesis by blast
    qed
  qed
  ultimately show ?thesis by (auto simp: listed_grants)
qed

section \<open>The handler at work\<close>

text \<open>A direct request of the device of the scenario, answered by the upstream.\<close>

definition demo_json :: json where
  "demo_json = \<lparr>read_enrollment = (\<lambda>b. None), read_csr = (\<lambda>b. None), read_submission = (\<lambda>b. None),
     read_status = (\<lambda>b. Some (\<lparr>si_RequestID = b, WaitSeconds = 15\<rparr>, []))\<rparr>"

definition demo_call :: call where
  "demo_call = \<lparr>at_time = 1010 * second, random_bytes = [], nonce_bytes = [],
     upstream_answer = (\<lambda>out. DoOk response0), body_reads = [(''ok'', EOF)], client_writes = [(2, False)],
     took = 5, moments = (\<lambda>k. \<lparr>at = 1010 * second + 200000000 * int k, state = clear db5 db5, left = False\<rparr>)\<rparr>"

definition demo_peer :: peer where
  "demo_peer = \<lparr>CommonName = device0, NotBefore = 1000, NotAfter = 5000\<rparr>"

definition path_url :: "string \<Rightarrow> URL" where
  "path_url p = \<lparr>Scheme = [], Opaque = [], User = None, Host = [], URLPath = p, RawPath = [],
     ForceQuery = False, RawQuery = [], Fragment = []\<rparr>"

definition demo_request :: device_request where
  "demo_request = \<lparr>ReqMethod = ''GET'', ReqURL = path_url ''/s/crm/status'', ReqHeader = [],
     Peer = Some demo_peer, Body = ([], True)\<rparr>"

definition demo_srv :: "db \<Rightarrow> srv" where
  "demo_srv d = \<lparr>limits = no_slots, windows = (\<lambda>_. []), http_events = [], store = clear d d\<rparr>"

lemma db9_simps: "services db9 = [crm_row]" "devices db9 = [device_row0]" "permissions db9 = [grant_row, status_grant]"
  by (simp_all add: db9_def audited_def db8_simps)

lemma demo_entitled: "entitled (1010 * second) (Some demo_peer) db9"
  by (simp add: entitled_def demo_peer_def second_def active_device_def db9_simps device_row0_def)

lemma demo_device: "device (1010 * second) (Some demo_peer) (clear db9 db9) = (Inr device0, clear db9 db9)"
  using demo_entitled
  by (simp add: device_def entitled_def demo_peer_def active_now_def query_now_def plain_run)

lemma demo_route: "Route (request.truncate demo_request) = Some (''crm'', ''/status'')"
  by code_simp

lemma crm_stream: "Stream (response0\<lparr>ResHeader := Del (ResHeader response0) (AuthHeader crm)\<rparr>) (ResponseHeaders crm)
    [(''ok'', EOF)] [(2, False)] = (200, [], Some (2, ''ok'', False))"
  by code_simp

lemma crm_secret: "Decrypt demo (credential_ref (svc_ID crm) (svc_Revision crm)) (Credential crm) = Inr ''t0ken''"
  by code_simp

lemma demo_build: "build_request crm ''GET'' ''https://crm.example.com/status'' [] [] ''t0ken'' = Some outgoing1"
  using sent1 crm_secret by (simp add: http_request_def)

definition demo_event :: http_event where
  "demo_event = \<lparr>ev_device = device0, ev_service = ''crm'', ev_permission = perm_ID status_grant,
     ev_method = ''GET'', ev_status = 200, ev_duration = 5, ev_request_bytes = 0, ev_response_bytes = 2\<rparr>"

lemma demo_forward:
  "forward demo demo_call demo_request [] device0
     (crm, permission.truncate status_grant, ''https://crm.example.com/status'') s =
   Some (Streamed 200 [] ''ok'', httpAudit demo_event s)"
proof -
  have "Send crm (ReqMethod demo_request) ''https://crm.example.com/status'' (ReqHeader demo_request) [] ''t0ken''
      (upstream_answer demo_call) = Sent response0"
    by (simp add: Send_def demo_request_def demo_build demo_call_def)
  moreover have "body_reads demo_call = [(''ok'', EOF)]" "client_writes demo_call = [(2, False)]"
    by (simp_all add: demo_call_def)
  moreover have "event_of demo_call device0 crm (permission.truncate status_grant) (ReqMethod demo_request) 200 [] 2 =
      demo_event"
    by (simp add: event_of_def demo_event_def demo_call_def demo_request_def crm_def permission.defs)
  ultimately show ?thesis
    by (simp add: forward_def crm_secret crm_stream)
qed

lemma demo_direct:
  "\<exists>w. DeviceHandler demo demo_json demo_call demo_request (demo_srv db9) =
     Some (Streamed 200 [] ''ok'', (demo_srv db9)\<lparr>http_events := [demo_event], store := clear db10 w\<rparr>)"
proof -
  let ?tx = "http_claim demo 1010 device0 ''crm'' ''GET'' ''/status'' [] :: (service \<times> permission \<times> string) tx"
  obtain w where tx: "?tx (clear db9 db9) =
      (Inr (crm, permission.truncate status_grant, ''https://crm.example.com/status''), clear db10 w)"
    using demo10 http_claim_clear [of demo 1010 device0 "''crm''" "''GET''" "''/status''" "[]" db9 db9]
    by (auto simp: run_tx_def split: prod.splits)
  let ?s = "(demo_srv db9)\<lparr>limits := snd (acquire device0 no_slots)\<rparr>"
  have acq: "acquire device0 no_slots = (True, snd (acquire device0 no_slots))"
    by (simp add: acquire_def no_slots_def)
  have "on_store ?tx ?s = (Inr (crm, permission.truncate status_grant, ''https://crm.example.com/status''),
      ?s\<lparr>store := clear db10 w\<rparr>)"
    using tx by (simp add: on_store_def demo_srv_def)
  moreover have "httpAudit demo_event (?s\<lparr>store := clear db10 w\<rparr>) =
      ?s\<lparr>http_events := [demo_event], store := clear db10 w\<rparr>"
    by (simp add: httpAudit_def on_store_def exec_now_def no_faults demo_srv_def)
  moreover have "unix (at_time demo_call) = 1010" "read_all (8 * 1024 * 1024) (Body demo_request) = Some []"
    "ReqMethod demo_request = ''GET''" "RawQuery (ReqURL demo_request) = []"
    by (simp_all add: demo_call_def unix_def second_def demo_request_def path_url_def read_all_def)
  ultimately have dir: "direct demo demo_call demo_request device0 ''crm'' ''/status'' ?s =
      Some (Streamed 200 [] ''ok'', ?s\<lparr>http_events := [demo_event], store := clear db10 w\<rparr>)"
    by (simp add: direct_def demo_forward)
  have limits: "limits (demo_srv db9) = no_slots" by (simp add: demo_srv_def)
  have "with_slot device0 (direct demo demo_call demo_request device0 ''crm'' ''/status'') (demo_srv db9) =
      Some (Streamed 200 [] ''ok'', (demo_srv db9)\<lparr>http_events := [demo_event], store := clear db10 w\<rparr>)"
    using with_slot_run [where s = "demo_srv db9" and f = "direct demo demo_call demo_request device0 ''crm'' ''/status''",
        unfolded limits, OF _ dir] release_acquire [OF acq]
    by (simp add: acquire_def no_slots_def) (simp add: demo_srv_def no_slots_def)
  moreover have "on_store (device (at_time demo_call) (Peer demo_request)) (demo_srv db9) = (Inr device0, demo_srv db9)"
    using demo_device by (simp add: on_store_def demo_srv_def demo_call_def demo_request_def)
  moreover have "\<not> is_call demo_request p m" if "p \<in> {''/enroll'', ''/device/renew'', ''/device/services'',
      ''/device/request'', ''/device/status''}" for p m
    using that by (auto simp: is_call_def demo_request_def path_url_def)
  ultimately have "DeviceHandler demo demo_json demo_call demo_request (demo_srv db9) =
      Some (Streamed 200 [] ''ok'', (demo_srv db9)\<lparr>http_events := [demo_event], store := clear db10 w\<rparr>)"
    by (simp add: DeviceHandler_def authenticated_def demo_route)
  then show ?thesis by blast
qed

section \<open>Witnesses\<close>

theorem status_ends_witness:
  "at_time demo_call \<le> at (moments demo_call 0) \<and>
   (\<exists>rep. status demo demo_json demo_call (demo_request\<lparr>Body := (request0, True)\<rparr>) device0 = Some rep)"
proof -
  have "at_time demo_call \<le> at (moments demo_call 0)"
    "list_all (\<lambda>k. at (moments demo_call k) + 200000000 \<le> at (moments demo_call (k + 1))) [0..<76]"
    by (simp_all add: demo_call_def list_all_iff)
  with status_ends [OF this] show ?thesis by blast
qed

theorem strangers_change_nothing_witness:
  "\<exists>code s'. DeviceHandler demo demo_json demo_call (demo_request\<lparr>Peer := None\<rparr>) (demo_srv db9) =
      Some (Fault 401 code, s') \<and> committed (store s') = db9 \<and> limits s' = no_slots"
  using strangers_change_nothing [of "demo_request\<lparr>Peer := None\<rparr>" demo_call "demo_srv db9" demo demo_json]
  by (simp add: is_call_def demo_request_def path_url_def entitled_def) (auto simp: demo_srv_def)

theorem handler_refines_witness:
  "\<exists>s' S'. DeviceHandler demo demo_json demo_call demo_request (demo_srv db9) = Some (Streamed 200 [] ''ok'', s') \<and>
     (step demo)\<^sup>*\<^sup>* (demo_sent\<lparr>database := db9, clock := 1009\<rparr>) S' \<and> database S' = db10"
proof -
  from demo_direct obtain w where D: "DeviceHandler demo demo_json demo_call demo_request (demo_srv db9) =
     Some (Streamed 200 [] ''ok'', (demo_srv db9)\<lparr>http_events := [demo_event], store := clear db10 w\<rparr>)" ..
  have "phase_of (demo_sent\<lparr>database := db9, clock := 1009\<rparr>) = Serving"
    "database (demo_sent\<lparr>database := db9, clock := 1009\<rparr>) = committed (store (demo_srv db9))"
    "clock (demo_sent\<lparr>database := db9, clock := 1009\<rparr>) \<le> unix (at_time demo_call)"
    by (simp_all add: demo_sent_def demo_serving_def demo_srv_def demo_call_def unix_def second_def)
  from handler_refines [OF D this] D show ?thesis by auto
qed

theorem calls_are_accounted_witness:
  "\<exists>s'. DeviceHandler demo demo_json demo_call demo_request (demo_srv db9) = Some (Streamed 200 [] ''ok'', s') \<and>
     limits s' = no_slots \<and> accounted 7 device0 (Streamed 200 [] ''ok'') (demo_srv db9) s' \<and> http_events s' = [demo_event]"
proof -
  from demo_direct obtain w where D: "DeviceHandler demo demo_json demo_call demo_request (demo_srv db9) =
     Some (Streamed 200 [] ''ok'', (demo_srv db9)\<lparr>http_events := [demo_event], store := clear db10 w\<rparr>)" ..
  from calls_are_accounted [OF D] D show ?thesis
    by (simp add: demo_request_def demo_peer_def demo_srv_def)
qed

theorem services_exact_witness:
  "\<exists>rows. services_reply demo_call device0 (demo_srv db9) = (Scopes rows, demo_srv db9) \<and>
     list_ex (admits ''crm'' ''GET'' ''/contacts'') rows"
proof -
  have "active_device device0 db9" by (simp add: active_device_def db9_simps device_row0_def)
  moreover have "distinct (map sv_id (services db9))"
    "list_all (\<lambda>v. service_of_row demo v \<noteq> None) (services db9)"
    by (simp_all add: db9_simps crm_of_row)
  moreover have "store (demo_srv db9) = clear db9 db9" by (simp add: demo_srv_def)
  moreover have "authorize demo now db9 device0 ''crm'' ''GET'' ''/contacts'' \<noteq> None" for now
  proof -
    have "enabled_service demo ''crm'' db9 = Some crm"
      by (simp add: enabled_service_def crm_of_row db9_simps)
    moreover have "grant_row \<in> set (candidate_rows device0 ''crm'' 1 now db9)"
      by (simp add: candidate_rows_def db9_simps grant_row_def live_def)
    ultimately show ?thesis
      using \<open>active_device device0 db9\<close> grant_matches by (auto simp: authorize_def find_None_iff crm_def)
  qed
  ultimately show ?thesis
    using services_exact [of device0 db9 demo "demo_srv db9" db9 demo_call "''crm''" "''GET''" "''/contacts''"]
    by blast
qed

end
