(* ===== verification/Owner_Pages.thy ===== *)
theory Owner_Pages
  imports Handlers
begin

text \<open>
  The owner's pages: \<open>OwnerHandler\<close>, \<open>login\<close> and \<open>render\<close> of \<open>internal/server/owner.go\<close> and \<open>review\<close>
  of \<open>review.go\<close>. The checks on host, origin, session and form token come in the order of the
  code; what a page shows is a record, its HTML is not modelled.

  \<open>ParseForm\<close> (with the limit of 128 KiB on the body), the cookies and the query values of the
  request, which \<open>net/http\<close> parses, come with the request.
\<close>

section \<open>Requests and replies\<close>

record owner_request = request +
  ReqHost :: string
  ReqTLS :: bool
  Cookies :: "(string \<times> string) list"
  PostForm :: "form option"
  QueryValues :: form

record cookie =
  ck_name :: string
  ck_value :: string
  ck_secure :: bool
  ck_max_age :: int

record page =
  CSRF :: string
  Message :: "error option"
  InvitationText :: string
  LoggedIn :: bool
  Inbox :: "(string \<times> string \<times> string \<times> status) list"
  PageServices :: "service list"
  PageDevices :: "(string \<times> string) list"
  PagePermissions :: "(permission_row \<times> bool) list"

record shown_request =
  rv_csrf :: string
  rv_body :: string
  rv_status :: Status
  rv_snapshot :: "Snapshot option"

datatype owner_reply = Refused int string | StaticFile string | Rendered int page "cookie option" |
  Review shown_request | SeeOther "cookie option"

record owner_call =
  oc_time :: int
  oc_random1 :: string
  oc_random2 :: string
  oc_nonce :: string

text \<open>The host the owner's pages expect, and the functions of the Go library that the pages use.\<close>

record pages =
  owner_host :: string
  invitation_json :: "string \<Rightarrow> string"
  quote_to_ascii :: "string \<Rightarrow> string"

section \<open>The checks\<close>

definition origin_of :: "pages \<Rightarrow> owner_request \<Rightarrow> string" where
  "origin_of P r = (if ReqTLS r then ''https://'' else ''http://'') @ owner_host P"

definition origin_rejected :: "pages \<Rightarrow> owner_request \<Rightarrow> bool" where
  "origin_rejected P r \<longleftrightarrow> ReqHost r \<noteq> owner_host P \<or>
     (Get (ReqHeader r) ''Origin'' \<noteq> [] \<and> Get (ReqHeader r) ''Origin'' \<noteq> origin_of P r) \<or>
     Get (ReqHeader r) ''Sec-Fetch-Site'' = ''cross-site''"

text \<open>The session lookup; an error of the query leaves owner and token empty.\<close>

definition find_session :: "'a crypto_scheme \<Rightarrow> int \<Rightarrow> string option \<Rightarrow> srv \<Rightarrow> (string \<times> string) \<times> srv" where
  "find_session E now c s =
     (case c of
        None \<Rightarrow> (([], []), s)
      | Some v \<Rightarrow>
          (case on_store (query_now (session_of E now v)) s of
             (Inl _, s) \<Rightarrow> (([], []), s)
           | (Inr x, s) \<Rightarrow> (x, s)))"

section \<open>\<open>render\<close>\<close>

definition inbox_rank :: "status \<Rightarrow> nat" where
  "inbox_rank st = (if st = pending_approval then 0 else if st = queued then 1
     else if st = dispatching then 2 else 3)"

definition inbox_rows :: "db \<Rightarrow> (string \<times> string \<times> string \<times> status) list" where
  "inbox_rows d = map (\<lambda>r. (rq_id r, rq_device r, rq_service r, rq_status r))
     (take 100 (sort_key (\<lambda>r. inbox_rank (rq_status r))
       (sort_key (\<lambda>r. - created r) (sort_key rq_id (requests d)))))"

definition header_names :: "'a codec_scheme \<Rightarrow> string \<Rightarrow> string list" where
  "header_names E raw = (case unmarshal_strings E raw of None \<Rightarrow> [] | Some xs \<Rightarrow> xs)"

definition page_service :: "'a codec_scheme \<Rightarrow> service_row \<Rightarrow> service" where
  "page_service E v = \<lparr>svc_ID = sv_id v, Label = sv_label v, BaseURL = base_url v, Auth = sv_auth v,
     AuthHeader = [], PrivateCIDR = private_cidr v, svc_Revision = sv_revision v, Credential = [],
     RequestHeaders = header_names E (request_headers v), ResponseHeaders = header_names E (response_headers v)\<rparr>"

definition service_rows :: "'a codec_scheme \<Rightarrow> db \<Rightarrow> service list" where
  "service_rows E d = map (page_service E) (sort_key sv_id (filter enabled (services d)))"

definition device_rows :: "db \<Rightarrow> (string \<times> string) list" where
  "device_rows d = map (\<lambda>v. (dev_id v, dev_label v)) (sort_key dev_id (filter (\<lambda>v. \<not> dev_revoked v) (devices d)))"

text \<open>A permission and whether it is shown as active (otherwise: obsolete or expired).\<close>

definition permission_rows :: "int \<Rightarrow> db \<Rightarrow> (permission_row \<times> bool) list" where
  "permission_rows now d = concat (map (\<lambda>p. map (\<lambda>v. (p, perm_Revision p = sv_revision v \<and> enabled v \<and>
       (case Expires p of None \<Rightarrow> True | Some t \<Rightarrow> now < t)))
     (filter (\<lambda>v. sv_id v = ServiceID p \<and> \<not> perm_revoked p) (services d))) (permissions d))"

text \<open>A query whose error, or early end, leaves what was read so far.\<close>

definition rows_or_none :: "(db \<Rightarrow> 'b list) \<Rightarrow> srv \<Rightarrow> 'b list \<times> srv" where
  "rows_or_none f s = (case on_store (rows_now f) s of (Inl _, s) \<Rightarrow> ([], s) | (Inr xs, s) \<Rightarrow> (xs, s))"

definition render :: "'a codec_scheme \<Rightarrow> int \<Rightarrow> page \<Rightarrow> srv \<Rightarrow> page \<times> srv" where
  "render E now p s =
     (if \<not> LoggedIn p then (p, s)
      else
        case rows_or_none inbox_rows s of (inbox, s) \<Rightarrow>
        case rows_or_none (service_rows E) s of (svcs, s) \<Rightarrow>
        case rows_or_none device_rows s of (devs, s) \<Rightarrow>
        case rows_or_none (permission_rows now) s of (perms, s) \<Rightarrow>
          (p\<lparr>Inbox := inbox, PageServices := svcs, PageDevices := devs, PagePermissions := perms\<rparr>, s))"

definition blank_page :: "string \<Rightarrow> bool \<Rightarrow> page" where
  "blank_page csrf logged_in = \<lparr>CSRF = csrf, Message = None, InvitationText = [], LoggedIn = logged_in,
     Inbox = [], PageServices = [], PageDevices = [], PagePermissions = []\<rparr>"

definition show_page :: "'a codec_scheme \<Rightarrow> int \<Rightarrow> int \<Rightarrow> page \<Rightarrow> cookie option \<Rightarrow> srv \<Rightarrow> owner_reply \<times> srv" where
  "show_page E now code p ck s = (case render E now p s of (q, s) \<Rightarrow> (Rendered code q ck, s))"

section \<open>\<open>review\<close>\<close>

definition review :: "pages \<Rightarrow> 'a codec_scheme \<Rightarrow> owner_request \<Rightarrow> string \<Rightarrow> srv \<Rightarrow> owner_reply \<times> srv" where
  "review P E r csrf s =
     (let i = QueryValues r ''id'' in
      case on_store (RequestStatus E [] i) s of
        (Inl _, s) \<Rightarrow> (Refused 404 ''request_not_found'', s)
      | (Inr st, s) \<Rightarrow>
          if PayloadPurged st
          then (Review \<lparr>rv_csrf = csrf, rv_body = quote_to_ascii P [], rv_status = st, rv_snapshot = None\<rparr>, s)
          else (case on_store begin_tx s of
              (Inl _, s) \<Rightarrow> (Refused 503 ''storage_unavailable'', s)
            | (Inr _, s) \<Rightarrow>
                (case on_store (load_snapshot E i) s of
                   (Inl _, s) \<Rightarrow> (Refused 409 ''snapshot_integrity_failed'', s)
                 | (Inr snap, s) \<Rightarrow>
                     (Review \<lparr>rv_csrf = csrf, rv_body = quote_to_ascii P (snap_Body snap), rv_status = st,
                        rv_snapshot = Some snap\<rparr>, s))))"

section \<open>\<open>login\<close>\<close>

definition login_code :: "string \<Rightarrow> int" where
  "login_code e = (if e = ''invalid_login'' then 401 else 503)"

definition login :: "'a environment_scheme \<Rightarrow> owner_call \<Rightarrow> owner_request \<Rightarrow> form \<Rightarrow> srv \<Rightarrow> owner_reply \<times> srv" where
  "login E c r f s =
     (case throttled_call ''login'' 10 (oc_time c) s of (ok, s) \<Rightarrow>
      if \<not> ok then (Refused 429 ''throttled'', s)
      else (case on_store (login_tx E (check_password E) (unix (oc_time c)) (f ''password'')
            (oc_random1 c) (oc_random2 c)) s of
          (Inl e, s) \<Rightarrow> (Refused (login_code (code_of e)) (code_of e), s)
        | (Inr token, s) \<Rightarrow>
            (SeeOther (Some \<lparr>ck_name = ''budge_session'', ck_value = token, ck_secure = ReqTLS r,
               ck_max_age = 8 * 3600\<rparr>), s)))"

section \<open>\<open>OwnerHandler\<close>\<close>

text \<open>The actions of the logged-in owner; \<open>None\<close> is an unknown path.\<close>

definition owner_action :: "'a environment_scheme \<Rightarrow> owner_call \<Rightarrow> string \<Rightarrow> string \<Rightarrow> form \<Rightarrow> string \<Rightarrow> unit tx option" where
  "owner_action E c owner token f path =
     (let now = unix (oc_time c) in
      if path = ''/decision'' then Some (Decide E now owner (f ''id'') (f ''digest'') (f ''decision''))
      else if path = ''/service'' then Some (addService E now (oc_nonce c) owner False f)
      else if path = ''/service-revise'' then Some (addService E now (oc_nonce c) owner True f)
      else if path = ''/permission'' then Some (addPermission E now (oc_random1 c) owner f)
      else if path = ''/revoke-device'' then Some (revoke now owner (f ''id''))
      else if path = ''/revoke-permission'' then Some (revokePermission now owner (f ''id''))
      else if path = ''/disable-service'' then Some (disableService now owner (f ''id''))
      else if path = ''/logout'' then Some (logout_tx E token)
      else None)"

definition failed_page :: "'a codec_scheme \<Rightarrow> owner_call \<Rightarrow> string \<Rightarrow> error \<Rightarrow> srv \<Rightarrow> owner_reply \<times> srv" where
  "failed_page E c csrf e s =
     show_page E (unix (oc_time c)) 400 ((blank_page csrf True)\<lparr>Message := Some e\<rparr>) None s"

definition invite :: "pages \<Rightarrow> 'a environment_scheme \<Rightarrow> owner_call \<Rightarrow> string \<Rightarrow> string \<Rightarrow> form \<Rightarrow> srv \<Rightarrow>
    owner_reply \<times> srv" where
  "invite P E c owner csrf f s =
     (if length (f ''label'') < 1 \<or> 100 < length (f ''label'')
      then failed_page E c csrf (Err ''invalid device label'') s
      else (case on_store (Invitation E (unix (oc_time c)) (oc_random1 c) (oc_random2 c) owner (f ''label'')) s of
          (Inl e, s) \<Rightarrow> failed_page E c csrf e s
        | (Inr (i, secret), s) \<Rightarrow>
            show_page E (unix (oc_time c)) 200
              ((blank_page csrf True)\<lparr>InvitationText := RawURLEncoding (invitation_json P secret)\<rparr>) None s))"

definition owner_post :: "pages \<Rightarrow> 'a environment_scheme \<Rightarrow> owner_call \<Rightarrow> owner_request \<Rightarrow> string \<Rightarrow> string \<Rightarrow>
    string \<Rightarrow> srv \<Rightarrow> owner_reply \<times> srv" where
  "owner_post P E c r owner csrf token s =
     (case PostForm r of
        None \<Rightarrow> (Refused 400 ''invalid_form'', s)
      | Some f \<Rightarrow>
          if URLPath (ReqURL r) = ''/login'' then
            (case map_of (Cookies r) ''budge_login_csrf'' of
               None \<Rightarrow> (Refused 403 ''csrf_rejected'', s)
             | Some pre \<Rightarrow>
                 if pre = [] \<or> pre \<noteq> f ''csrf'' then (Refused 403 ''csrf_rejected'', s)
                 else login E c r f s)
          else if owner = [] then (Refused 401 ''owner_login_required'', s)
          else if csrf = [] \<or> csrf \<noteq> f ''csrf'' then (Refused 403 ''csrf_rejected'', s)
          else if URLPath (ReqURL r) = ''/invite'' then invite P E c owner csrf f s
          else (case owner_action E c owner token f (URLPath (ReqURL r)) of
              None \<Rightarrow> (Refused 404 ''not_found'', s)
            | Some m \<Rightarrow>
                (case on_store m s of
                   (Inl e, s) \<Rightarrow> failed_page E c csrf e s
                 | (Inr _, s) \<Rightarrow> (SeeOther None, s))))"

definition OwnerHandler :: "pages \<Rightarrow> 'a environment_scheme \<Rightarrow> owner_call \<Rightarrow> owner_request \<Rightarrow> srv \<Rightarrow> owner_reply \<times> srv" where
  "OwnerHandler P E c r s =
     (let now = unix (oc_time c); path = URLPath (ReqURL r) in
      if origin_rejected P r then (Refused 403 ''owner_origin_rejected'', s)
      else if ReqMethod r = ''GET'' \<and> (path = ''/static/style.css'' \<or> path = ''/static/poll.js'')
      then (StaticFile path, s)
      else
        (case find_session E now (map_of (Cookies r) ''budge_session'') s of
           ((owner, csrf), s) \<Rightarrow>
             if ReqMethod r = ''GET'' \<and> path = ''/request'' then
               if owner = [] then (Refused 401 ''owner_login_required'', s) else review P E r csrf s
             else if ReqMethod r = ''GET'' \<and> (path = ''/'' \<or> path = ''/inbox'') then
               if owner = [] then
                 (let token = ID [] (oc_random1 c) in
                  show_page E now 200 (blank_page token False) (Some \<lparr>ck_name = ''budge_login_csrf'',
                    ck_value = token, ck_secure = ReqTLS r, ck_max_age = 600\<rparr>) s)
               else show_page E now 200 (blank_page csrf True) None s
             else if ReqMethod r \<noteq> ''POST'' then (Refused 404 ''not_found'', s)
             else owner_post P E c r owner csrf
               (case map_of (Cookies r) ''budge_session'' of None \<Rightarrow> [] | Some v \<Rightarrow> v) s))"

end
