(* ===== verification/Owner_Calls.thy ===== *)
theory Owner_Calls
  imports Owner_Pages Call_Effects Scenario
begin

text \<open>
  What the owner's pages guarantee: nothing changes without a session and its form token (or a login
  with the token of the login page), a change is one operation of theory System in the name of the
  owner of that session, and the request shown for review is the one that will be sent.
\<close>

section \<open>Who may change what\<close>

text \<open>The commands that the owner of a session may give with it.\<close>

fun acts_for :: "string \<Rightarrow> string \<Rightarrow> command \<Rightarrow> bool" where
  "acts_for owner token (C_decide ow i digest dec) = (ow = owner)"
| "acts_for owner token (C_service nonce ow revise f) = (ow = owner)"
| "acts_for owner token (C_permission random ow f) = (ow = owner)"
| "acts_for owner token (C_revoke_permission ow i) = (ow = owner)"
| "acts_for owner token (C_disable_service ow i) = (ow = owner)"
| "acts_for owner token (C_revoke_device ow i) = (ow = owner)"
| "acts_for owner token (C_invite random1 random2 ow label) = (ow = owner)"
| "acts_for owner token (C_logout t) = (t = token)"
| "acts_for owner token _ = False"

text \<open>The effect of a command out of a set of commands.\<close>

definition effect_of :: "command set \<Rightarrow> 'a environment_scheme \<Rightarrow> int \<Rightarrow> srv \<Rightarrow> srv \<Rightarrow> bool" where
  "effect_of C E now s s' \<longleftrightarrow> committed (store s') = committed (store s) \<or>
     (\<exists>fs. \<exists>cmd \<in> C. committed (store s') = perform_run E now fs cmd (committed (store s)))"

lemma effect_of_same: "committed (store s') = committed (store s) \<Longrightarrow> effect_of C E now s s'"
  by (simp add: effect_of_def)

lemma effect_of_command:
  assumes "cmd \<in> C" "\<And>fs d. snd (run_tx fs (perform E now cmd) d) = snd (run_tx fs m d)" "fresh m"
    and "on_store m s = (r, x)" "committed (store s') = committed (store x)"
  shows "effect_of C E now s s'"
  using on_store_fresh [OF assms(3,4)] assms(1,2,5)
  unfolding effect_of_def perform_run_def by (metis snd_conv)

lemma rows_or_none_frame: "committed (store (snd (rows_or_none f s))) = committed (store s)"
  by (auto simp: rows_or_none_def split: prod.split sum.split dest: on_store_reads [OF rows_now_reads])

lemma render_frame: "committed (store (snd (render E now p s))) = committed (store s)"
  unfolding render_def
  by (auto split: prod.split) (metis rows_or_none_frame snd_conv)

lemma show_page_frame:
  "show_page E now code p ck s = (rep, s') \<Longrightarrow> committed (store s') = committed (store s)"
  using render_frame [of E now p s] by (auto simp: show_page_def split: prod.splits)

lemma failed_page_frame: "failed_page E c csrf e s = (rep, s') \<Longrightarrow> committed (store s') = committed (store s)"
  unfolding failed_page_def by (rule show_page_frame)

lemma owner_action_command:
  assumes "owner_action E c owner token f path = Some m"
  shows "\<exists>cmd. acts_for owner token cmd \<and> perform E (unix (oc_time c)) cmd = m \<and> fresh m"
proof -
  let ?now = "unix (oc_time c)"
  from assms consider
      "m = Decide E ?now owner (f ''id'') (f ''digest'') (f ''decision'')"
    | revise where "m = addService E ?now (oc_nonce c) owner revise f"
    | "m = addPermission E ?now (oc_random1 c) owner f"
    | "m = revoke ?now owner (f ''id'')" | "m = revokePermission ?now owner (f ''id'')"
    | "m = disableService ?now owner (f ''id'')" | "m = logout_tx E token"
    by (auto simp: owner_action_def Let_def split: if_splits)
  then show ?thesis
    by cases (metis acts_for.simps perform.simps fresh_owner_operations)+
qed

lemma invite_effect:
  assumes "invite P E c owner csrf f s = (rep, s')"
  shows "effect_of {cmd. acts_for owner token cmd} E (unix (oc_time c)) s s'"
proof (cases "length (f ''label'') < 1 \<or> 100 < length (f ''label'')")
  case True
  with assms show ?thesis by (auto simp: invite_def intro: effect_of_same failed_page_frame)
next
  case False
  let ?m = "Invitation E (unix (oc_time c)) (oc_random1 c) (oc_random2 c) owner (f ''label'')"
  obtain res x where x: "on_store ?m s = (res, x)" by (metis prod.exhaust)
  with False assms have "committed (store s') = committed (store x)"
    by (auto simp: invite_def split: sum.splits prod.splits intro: failed_page_frame show_page_frame)
  then show ?thesis
    by (intro effect_of_command [OF _ _ fresh_owner_operations(7) x,
          where cmd = "C_invite (oc_random1 c) (oc_random2 c) owner (f ''label'')"])
      (simp_all only: perform.simps perform_bind mem_Collect_eq acts_for.simps)
qed

lemma review_frame:
  assumes "review P E r csrf s = (rep, s')"
  shows "committed (store s') = committed (store s)"
  using assms
  by (auto simp: review_def Let_def split: prod.splits sum.splits if_splits
      dest!: on_store_quiet [OF quiet_RequestStatus] on_store_quiet [OF quiet_begin_tx] on_store_reads [OF reads_load_snapshot])

lemma find_session_result:
  assumes "find_session E now c s = ((owner, csrf), s')"
  shows "committed (store s') = committed (store s) \<and> limits s' = limits s \<and>
    (owner \<noteq> [] \<longrightarrow> (\<exists>v. c = Some v \<and> session_of E now v (committed (store s)) = (owner, csrf)))"
  using assms
  by (auto simp: find_session_def on_store_def query_now_def split: option.splits prod.splits sum.splits if_splits)

lemma login_effect:
  assumes "login E c r f s = (rep, s')"
  shows "effect_of {C_login (f ''password'') (oc_random1 c) (oc_random2 c)} E (unix (oc_time c)) s s'"
proof -
  let ?m = "login_tx E (check_password E) (unix (oc_time c)) (f ''password'') (oc_random1 c) (oc_random2 c)"
  obtain ok y where y: "throttled_call ''login'' 10 (oc_time c) s = (ok, y)" by (metis prod.exhaust)
  note st = throttled_call_frame [OF y]
  show ?thesis
  proof (cases ok)
    case False
    with y assms st show ?thesis by (auto simp: login_def intro: effect_of_same)
  next
    case True
    obtain res x where x: "on_store ?m y = (res, x)" by (metis prod.exhaust)
    with True y assms have "committed (store s') = committed (store x)"
      by (auto simp: login_def split: sum.splits)
    then have "effect_of {C_login (f ''password'') (oc_random1 c) (oc_random2 c)} E (unix (oc_time c)) y s'"
      by (intro effect_of_command [OF _ _ fresh_login x,
            where cmd = "C_login (f ''password'') (oc_random1 c) (oc_random2 c)"])
        (simp_all only: perform.simps perform_bind singleton_iff)
    with st show ?thesis by (simp add: effect_of_def)
  qed
qed

text \<open>What the checks of the handler leave possible.\<close>

definition permitted :: "pages \<Rightarrow> 'a crypto_scheme \<Rightarrow> int \<Rightarrow> owner_request \<Rightarrow> db \<Rightarrow> command set" where
  "permitted P E now r d =
     {cmd. \<not> origin_rejected P r \<and> ReqMethod r = ''POST'' \<and>
        (\<exists>f. PostForm r = Some f \<and> f ''csrf'' \<noteq> [] \<and>
          ((\<exists>password random1 random2. cmd = C_login password random1 random2 \<and>
              URLPath (ReqURL r) = ''/login'' \<and> map_of (Cookies r) ''budge_login_csrf'' = Some (f ''csrf'')) \<or>
           (\<exists>token owner. map_of (Cookies r) ''budge_session'' = Some token \<and> owner \<noteq> [] \<and>
              session_of E now token d = (owner, f ''csrf'') \<and>
              (\<exists>row \<in> set (sessions d). ses_hash row = Hash E token \<and> now < ses_expires row \<and>
                ses_owner row = owner \<and> ses_csrf row = f ''csrf'') \<and> acts_for owner token cmd)))}"

lemma session_row:
  assumes "session_of E now token d = (owner, csrf)" "owner \<noteq> []"
  shows "\<exists>row \<in> set (sessions d). ses_hash row = Hash E token \<and> now < ses_expires row \<and>
    ses_owner row = owner \<and> ses_csrf row = csrf"
  using assms by (auto simp: session_of_def split: option.splits dest!: find_Some_in)

lemma effect_of_mono: "effect_of C E now s s' \<Longrightarrow> C \<subseteq> D \<Longrightarrow> effect_of D E now s s'"
  unfolding effect_of_def by blast

lemma owner_post_effect:
  assumes "owner_post P E c r owner csrf token s = (rep, s')"
    and "\<not> origin_rejected P r" "ReqMethod r = ''POST''"
    and "owner \<noteq> [] \<Longrightarrow> map_of (Cookies r) ''budge_session'' = Some token \<and>
      session_of E (unix (oc_time c)) token (committed (store s)) = (owner, csrf)"
  shows "effect_of (permitted P E (unix (oc_time c)) r (committed (store s))) E (unix (oc_time c)) s s'"
proof (cases "PostForm r")
  case None
  with assms(1) show ?thesis by (auto simp: owner_post_def intro: effect_of_same)
next
  case (Some f)
  let ?now = "unix (oc_time c)" and ?path = "URLPath (ReqURL r)"
  let ?C = "permitted P E ?now r (committed (store s))"
  show ?thesis
  proof (cases "?path = ''/login''")
    case True
    show ?thesis
    proof (cases "login E c r f s = (rep, s') \<and> map_of (Cookies r) ''budge_login_csrf'' = Some (f ''csrf'') \<and> f ''csrf'' \<noteq> []")
      case log: True
      have "{C_login (f ''password'') (oc_random1 c) (oc_random2 c)} \<subseteq> ?C"
        using log assms(2,3) Some True by (auto simp: permitted_def)
      with log show ?thesis by (blast intro: effect_of_mono login_effect)
    next
      case False
      with True Some assms(1) show ?thesis
        by (auto simp: owner_post_def intro: effect_of_same split: option.splits if_splits)
    qed
  next
    case False
    show ?thesis
    proof (cases "owner = [] \<or> csrf = [] \<or> csrf \<noteq> f ''csrf''")
      case True
      with False Some assms(1) show ?thesis
        by (auto simp: owner_post_def intro: effect_of_same split: if_splits)
    next
      case ok: False
      with assms(2-4) Some have C: "{cmd. acts_for owner token cmd} \<subseteq> ?C" by (auto simp: permitted_def dest: session_row)
      show ?thesis
      proof (cases "?path = ''/invite''")
        case True
        with False ok Some assms(1) have "invite P E c owner csrf f s = (rep, s')" by (auto simp: owner_post_def)
        from effect_of_mono [OF invite_effect [OF this] C] show ?thesis .
      next
        case inv: False
        show ?thesis
        proof (cases "owner_action E c owner token f ?path")
          case None
          with inv False ok Some assms(1) show ?thesis by (auto simp: owner_post_def intro: effect_of_same)
        next
          case act: (Some m)
          from owner_action_command [OF act] obtain cmd where
            cmd: "acts_for owner token cmd" "perform E ?now cmd = m" "fresh m" by blast
          obtain res x where x: "on_store m s = (res, x)" by (metis prod.exhaust)
          with act inv False ok Some assms(1) have "committed (store s') = committed (store x)"
            by (auto simp: owner_post_def split: sum.splits intro: failed_page_frame)
          with cmd x have "effect_of {cmd. acts_for owner token cmd} E ?now s s'"
            by (intro effect_of_command [where cmd = cmd and m = m]) simp_all
          from effect_of_mono [OF this C] show ?thesis .
        qed
      qed
    qed
  qed
qed

text \<open>C9. Nothing changes through the owner's pages but what their user asked for: if the database changes, the
  request came by POST to the owner's host from its own pages, with the form token of a login page,
  to log in, or with a session that has not expired and that session's form token, to carry out one operation in
  the name of the owner of the session. A forged or cross-site request changes nothing.\<close>

theorem owner_acts_with_session:
  assumes "OwnerHandler P E c r s = (rep, s')"
  shows "effect_of (permitted P E (unix (oc_time c)) r (committed (store s))) E (unix (oc_time c)) s s'"
proof -
  let ?ck = "map_of (Cookies r) ''budge_session''"
  obtain owner csrf x where x: "find_session E (unix (oc_time c)) ?ck s = ((owner, csrf), x)"
    by (metis prod.exhaust)
  note f = find_session_result [OF x]
  show ?thesis
  proof (cases "committed (store s') = committed (store s)")
    case True
    then show ?thesis by (rule effect_of_same)
  next
    case changed: False
    let ?token = "case ?ck of None \<Rightarrow> [] | Some v \<Rightarrow> v"
    from changed assms f x have p: "owner_post P E c r owner csrf ?token x = (rep, s')"
      "\<not> origin_rejected P r" "ReqMethod r = ''POST''"
      unfolding OwnerHandler_def
      by (auto simp: Let_def split: if_splits dest: review_frame show_page_frame)
    have "owner \<noteq> [] \<Longrightarrow> ?ck = Some ?token \<and>
        session_of E (unix (oc_time c)) ?token (committed (store x)) = (owner, csrf)"
      using f by auto
    from owner_post_effect [OF p this] f show ?thesis by (simp add: effect_of_def)
  qed
qed

section \<open>What the owner sees\<close>

lemma on_store_runs:
  "on_store m s = (Inr x, s') \<Longrightarrow>
     runs m (committed (store s)) (working (store s)) x (committed (store s')) (working (store s'))"
  by (auto simp: on_store_def runs_def split: prod.splits)

lemma runs_RequestStatus:
  "runs (RequestStatus E dev i) c w st c' w' \<Longrightarrow> c' = c \<and> w' = c \<and>
     (\<exists>row. find_request i c = Some row \<and> st_Digest st = snapshot_digest row \<and> st_Status st = rq_status row)"
  unfolding RequestStatus_def
  by (auto dest!: runs split: if_splits option.splits sum.splits)

lemma review_result:
  assumes "review P E r csrf s = (Review shown, s')" "rv_snapshot shown = Some snap"
  shows "\<exists>row. find_request (QueryValues r ''id'') (committed (store s)) = Some row \<and>
    open_snapshot E row = Inr snap \<and> st_Digest (rv_status shown) = snapshot_digest row"
  using assms
  by (auto simp: review_def Let_def split: prod.splits sum.splits if_splits
      dest!: on_store_runs runs_RequestStatus runs_begin_tx runs_load_snapshot)

text \<open>C10. The owner decides on what will be sent: the snapshot that the review page showed and the one that is
  later sent for this request are both texts with the digest of the page, the digest that an
  approval has to name, and agree on the device, the service and its revision, the permission and
  the deadline.\<close>

theorem review_shows_what_is_sent:
  assumes "initial s0" "(step E)\<^sup>*\<^sup>* s0 s1"
    and "review P E r csrf sv = (Review shown, sv')" "committed (store sv) = database s1"
    and "rv_snapshot shown = Some snap" "(step E)\<^sup>*\<^sup>* s1 s2"
    and "(QueryValues r ''id'', snap', svc, out) \<in> set (sent_log s2)"
  shows "(\<exists>b b'. unmarshal_snapshot E b = Some snap \<and> unmarshal_snapshot E b' = Some snap' \<and>
      Digest E b = st_Digest (rv_status shown) \<and> Digest E b' = st_Digest (rv_status shown)) \<and>
    snap_DeviceID snap' = snap_DeviceID snap \<and> snap_ServiceID snap' = snap_ServiceID snap \<and>
    snap_Revision snap' = snap_Revision snap \<and> PermissionID snap' = PermissionID snap \<and>
    snap_Expires snap' = snap_Expires snap"
proof -
  let ?i = "QueryValues r ''id''"
  note inv1 = sys.reachable [OF assms(1,2)]
  have inv2: "sys_inv E s2" by (rule sys.kept [OF assms(6) inv1])
  from review_result [OF assms(3,5)] assms(4) obtain row where row: "find_request ?i (database s1) = Some row"
    "open_snapshot E row = Inr snap" "st_Digest (rv_status shown) = snapshot_digest row" by auto
  from find_request_in [OF row(1)] have "row \<in> set (requests (database s1))" "rq_id row = ?i" by auto
  with run_evolves [OF assms(6) inv1] obtain row' where row': "row' \<in> set (requests (database s2))" "same_request row row'"
    by (metis evolves_request)
  from sent_facts(1) [OF inv2 assms(7)] obtain r2 where r2: "r2 \<in> set (requests (database s2))" "rq_id r2 = ?i"
    "bound E r2 snap'" by (auto simp: holds_row_def)
  have "distinct (map rq_id (requests (database s2)))"
    using inv2 by (simp add: sys_inv_parts db_inv_def keyed_def)
  from unique_id [OF this r2(1) row'(1)] r2(2) row'(2) \<open>rq_id row = ?i\<close> have "r2 = row'"
    by (simp add: same_request_def)
  with r2(3) bound_same [OF row'(2), of E snap'] have "bound E row snap'" by simp
  with open_snapshot_bound [OF row(2)] row(3) show ?thesis by (auto simp: bound_def)
qed

section \<open>Witnesses\<close>

definition demo_pages :: pages where
  "demo_pages = \<lparr>owner_host = ''127.0.0.1:18780'', invitation_json = (\<lambda>s. s), quote_to_ascii = (\<lambda>s. s)\<rparr>"

definition page_url :: "string \<Rightarrow> URL" where
  "page_url p = \<lparr>Scheme = [], Opaque = [], User = None, Host = [], URLPath = p, RawPath = [],
     ForceQuery = False, RawQuery = [], Fragment = []\<rparr>"

definition page_srv :: "db \<Rightarrow> srv" where
  "page_srv d = \<lparr>limits = no_slots, windows = (\<lambda>_. []), http_events = [],
     store = \<lparr>committed = d, working = d, faults = []\<rparr>\<rparr>"

definition demo_session :: session_row where
  "demo_session = \<lparr>ses_hash = Hash demo ''token'', ses_owner = owner0, ses_csrf = ''csrf'', ses_expires = 2000\<rparr>"

definition db_session :: db where
  "db_session = db5\<lparr>sessions := [demo_session]\<rparr>"

definition logout_request :: owner_request where
  "logout_request = \<lparr>ReqMethod = ''POST'', ReqURL = page_url ''/logout'', ReqHeader = [],
     ReqHost = ''127.0.0.1:18780'', ReqTLS = False, Cookies = [(''budge_session'', ''token'')],
     PostForm = Some (\<lambda>k. if k = ''csrf'' then ''csrf'' else []), QueryValues = (\<lambda>k. [])\<rparr>"

definition demo_owner_call :: owner_call where
  "demo_owner_call = \<lparr>oc_time = 1010 * second, oc_random1 = [], oc_random2 = [], oc_nonce = nonce0\<rparr>"

lemma demo_session_found: "session_of demo 1010 ''token'' db_session = (owner0, ''csrf'')"
  by (simp add: session_of_def db_session_def demo_session_def)

lemma demo_logout:
  "OwnerHandler demo_pages demo demo_owner_call logout_request (page_srv db_session) = (SeeOther None, page_srv db_session
     \<lparr>store := \<lparr>committed = db5\<lparr>sessions := []\<rparr>, working = db_session, faults = []\<rparr>\<rparr>)"
proof -
  have now: "unix (oc_time demo_owner_call) = 1010"
    by (simp add: demo_owner_call_def unix_def second_def)
  have "find_session demo 1010 (Some ''token'') (page_srv db_session) = ((owner0, ''csrf''), page_srv db_session)"
    by (simp add: find_session_def on_store_def query_now_def no_faults demo_session_found page_srv_def)
  moreover have "on_store (logout_tx demo ''token'') (page_srv db_session) = (Inr (), page_srv db_session
     \<lparr>store := \<lparr>committed = db5\<lparr>sessions := []\<rparr>, working = db_session, faults = []\<rparr>\<rparr>)"
    by (simp add: on_store_def logout_tx_def exec_now_def no_faults page_srv_def db_session_def demo_session_def)
  moreover have "owner0 \<noteq> []" by (simp add: owner0_def ID_def)
  moreover have "\<not> origin_rejected demo_pages logout_request"
    by (simp add: origin_rejected_def demo_pages_def logout_request_def Get_def)
  ultimately show ?thesis
    by (simp add: OwnerHandler_def now logout_request_def page_url_def owner_post_def owner_action_def Let_def)
qed

theorem owner_acts_with_session_witness:
  "\<exists>s'. OwnerHandler demo_pages demo demo_owner_call logout_request (page_srv db_session) = (SeeOther None, s') \<and>
     committed (store s') \<noteq> db_session \<and>
     effect_of (permitted demo_pages demo 1010 logout_request db_session) demo 1010 (page_srv db_session) s'"
proof -
  have "unix (oc_time demo_owner_call) = 1010" "committed (store (page_srv db_session)) = db_session"
    by (simp_all add: demo_owner_call_def unix_def second_def page_srv_def)
  moreover have "db5\<lparr>sessions := []\<rparr> \<noteq> db_session"
    by (metis db.select_convs(2) db_session_def db.update_convs(2) db.surjective list.discI)
  ultimately show ?thesis
    using owner_acts_with_session [OF demo_logout] demo_logout by simp
qed

definition review_request :: owner_request where
  "review_request = logout_request\<lparr>ReqMethod := ''GET'', ReqURL := page_url ''/request'',
     QueryValues := (\<lambda>k. if k = ''id'' then request0 else [])\<rparr>"

lemma demo_review:
  "\<exists>shown. review demo_pages demo review_request ''csrf'' (page_srv db5) = (Review shown, page_srv db5) \<and>
     rv_snapshot shown = Some demo_snapshot"
proof -
  have row: "find_request request0 db5 = Some request_row0"
    by (simp add: find_request_def demo_simps request_row0_simps)
  have "\<exists>st. RequestStatus demo [] request0 (store (page_srv db5)) = (Inr st, store (page_srv db5)) \<and>
      \<not> PayloadPurged st"
    by (simp add: RequestStatus_def plain_run page_srv_def row decode_result_def request_row0_def new_row_def Let_def
        Encrypt_def Seal_def nonce0_def)
  moreover have "open_snapshot demo request_row0 = Inr demo_snapshot"
    using open_row0 [of pending_approval] by (simp add: request_row0_pending)
  then have "load_snapshot demo request0 (store (page_srv db5)) = (Inr demo_snapshot, store (page_srv db5))"
    by (simp add: load_snapshot_def plain_run page_srv_def row)
  moreover have "begin_tx (store (page_srv db5)) = (Inr (), store (page_srv db5))"
    by (simp add: plain_run page_srv_def)
  ultimately show ?thesis
    by (auto simp: review_def on_store_def review_request_def Let_def)
qed

theorem review_shows_what_is_sent_witness:
  "\<exists>shown. review demo_pages demo review_request ''csrf'' (page_srv db5) = (Review shown, page_srv db5) \<and>
     (\<exists>b. unmarshal_snapshot demo b = Some demo_snapshot \<and> Digest demo b = st_Digest (rv_status shown)) \<and>
     (request0, demo_snapshot, crm, outgoing0) \<in> set (sent_log demo_end)"
proof -
  from demo_review obtain shown where shown:
    "review demo_pages demo review_request ''csrf'' (page_srv db5) = (Review shown, page_srv db5)"
    "rv_snapshot shown = Some demo_snapshot" by blast
  have "step demo (demo_serving 1005 db5) (demo_serving 1006 db6)" by (rule demo_serve [OF demo6]) simp
  with demo_finishes have run: "(step demo)\<^sup>*\<^sup>* (demo_serving 1005 db5) demo_end"
    by (rule converse_rtranclp_into_rtranclp [rotated])
  have "committed (store (page_srv db5)) = database (demo_serving 1005 db5)"
    by (simp add: page_srv_def demo_serving_def)
  moreover have sent: "(QueryValues review_request ''id'', demo_snapshot, crm, outgoing0) \<in> set (sent_log demo_end)"
    by (simp add: demo_end_simps review_request_def)
  ultimately have "\<exists>b b'. unmarshal_snapshot demo b = Some demo_snapshot \<and> unmarshal_snapshot demo b' = Some demo_snapshot \<and>
      Digest demo b = st_Digest (rv_status shown) \<and> Digest demo b' = st_Digest (rv_status shown)"
    using review_shows_what_is_sent [OF demo_initial demo_pending shown(1) _ shown(2) run sent] by blast
  with shown(1) show ?thesis by (auto simp: demo_end_simps)
qed

end
