(* ===== verification/Worker.thy ===== *)
theory Worker
  imports Handlers Limits Fault_Free
begin

text \<open>
  \<open>RunWorker\<close> of \<open>internal/server/requests.go\<close>: every 200 ms it runs the maintenance, looks at the
  oldest 32 queued requests and starts a dispatch for each that gets a slot; a dispatch gives its
  slot back when it returns, and the loop waits for all of them when it is told to stop. What one
  dispatch does is in theories Lifecycle and System; here it is a job that holds a slot.
\<close>

section \<open>One turn of the loop\<close>

definition queue_order :: "db \<Rightarrow> request_row list" where
  "queue_order d = sort_key created (sort_key rq_id (filter (\<lambda>r. rq_status r = queued) (requests d)))"

definition candidates :: "db \<Rightarrow> (string \<times> string) list" where
  "candidates d = map (\<lambda>r. (rq_id r, rq_device r)) (take 32 (queue_order d))"

text \<open>The loop over the candidates: \<open>continue\<close> without a slot, else a new job.\<close>

fun spawn :: "(string \<times> string) list \<Rightarrow> slots \<Rightarrow> (string \<times> string) list \<times> slots" where
  "spawn [] l = ([], l)"
| "spawn ((i, dev) # cs) l =
     (case acquire dev l of (ok, l) \<Rightarrow>
      case spawn cs l of (jobs, l) \<Rightarrow> (if ok then (i, dev) # jobs else jobs, l))"

definition worker_tick :: "int \<Rightarrow> srv \<Rightarrow> (string \<times> string) list \<times> srv" where
  "worker_tick now s =
     (case on_store (maintenance now) s of (_, s) \<Rightarrow>
      case on_store (rows_now candidates) s of
        (Inl _, s) \<Rightarrow> ([], s)
      | (Inr cs, s) \<Rightarrow>
          (case spawn cs (limits s) of (jobs, l) \<Rightarrow> (jobs, s\<lparr>limits := l\<rparr>)))"

section \<open>The worker as a transition system\<close>

text \<open>
  The jobs that run, and the direct requests that hold a slot. Handlers take and give back slots
  under the same mutex at any time; \<open>stopping\<close> is the cancelled context. A tick that is due when the
  context is cancelled may still be taken: \<open>select\<close> chooses freely.
\<close>

record worker =
  server :: srv
  jobs :: "(string \<times> string) list"
  direct_calls :: "string list"
  stopping :: bool
  returned :: bool

inductive work :: "worker \<Rightarrow> worker \<Rightarrow> bool" where
  work_tick:
    "\<not> returned w \<Longrightarrow> worker_tick now (server w) = (new, s) \<Longrightarrow>
     work w (w\<lparr>server := s, jobs := jobs w @ new\<rparr>)"
| work_done:
    "jobs w = xs @ (i, dev) # ys \<Longrightarrow>
     work w (w\<lparr>server := (server w)\<lparr>limits := release dev (limits (server w))\<rparr>, jobs := xs @ ys\<rparr>)"
| work_direct:
    "acquire dev (limits (server w)) = (True, l) \<Longrightarrow>
     work w (w\<lparr>server := (server w)\<lparr>limits := l\<rparr>, direct_calls := dev # direct_calls w\<rparr>)"
| work_direct_done:
    "direct_calls w = xs @ dev # ys \<Longrightarrow>
     work w (w\<lparr>server := (server w)\<lparr>limits := release dev (limits (server w))\<rparr>, direct_calls := xs @ ys\<rparr>)"
| work_database:
    "limits s = limits (server w) \<Longrightarrow> work w (w\<lparr>server := s\<rparr>)"
| work_stop:
    "work w (w\<lparr>stopping := True\<rparr>)"
| work_return:
    "stopping w \<Longrightarrow> jobs w = [] \<Longrightarrow> work w (w\<lparr>returned := True\<rparr>)"

inductive_cases work_elim: "work w w'"

definition idle :: "worker \<Rightarrow> bool" where
  "idle w \<longleftrightarrow> limits (server w) = no_slots \<and> jobs w = [] \<and> direct_calls w = [] \<and> \<not> stopping w \<and> \<not> returned w"

section \<open>What the slots guarantee\<close>

definition holders :: "worker \<Rightarrow> string multiset" where
  "holders w = mset (map snd (jobs w)) + mset (direct_calls w)"

definition pooled :: "slots \<Rightarrow> string multiset \<Rightarrow> bool" where
  "pooled l h \<longleftrightarrow> slots_hold l h \<and> size h \<le> 32 \<and> (\<forall>d. count h d \<le> 4)"

definition work_inv :: "worker \<Rightarrow> bool" where
  "work_inv w \<longleftrightarrow> pooled (limits (server w)) (holders w) \<and> (returned w \<longrightarrow> jobs w = [])"

lemma pooled_take:
  assumes "pooled l h" "acquire dev l = (ok, l')"
  shows "pooled l' (if ok then add_mset dev h else h)"
  using slots.holds_take [of l h dev ok l'] assms by (auto simp: pooled_def)

lemma pooled_give:
  assumes "pooled l (add_mset d h)"
  shows "pooled (release d l) h"
proof -
  have "count h k \<le> 4" for k
  proof -
    have "count h k \<le> count (add_mset d h) k" by simp
    also have "\<dots> \<le> 4" using assms unfolding pooled_def by blast
    finally show ?thesis .
  qed
  then show ?thesis
    using assms slots.holds_give [of l "add_mset d h" d] by (auto simp: pooled_def)
qed

lemma pooled_spawn: "pooled l h \<Longrightarrow> spawn cs l = (new, l') \<Longrightarrow> pooled l' (h + mset (map snd new))"
proof (induction cs arbitrary: l h new l')
  case (Cons c cs)
  obtain i dev where c: "c = (i, dev)" by (cases c)
  obtain ok l1 where acq: "acquire dev l = (ok, l1)" by (metis prod.exhaust)
  obtain new1 l2 where sp: "spawn cs l1 = (new1, l2)" by (metis prod.exhaust)
  from Cons.IH [OF pooled_take [OF Cons.prems(1) acq] sp] Cons.prems(2) acq sp show ?case
    by (auto simp: c split: if_splits)
qed simp

lemma on_store_limits: "on_store m s = (r, s') \<Longrightarrow> limits s' = limits s"
  by (auto simp: on_store_def split: prod.splits)

lemma worker_tick_spawns:
  assumes "worker_tick now s = (new, s')"
  shows "\<exists>cs. spawn cs (limits s) = (new, limits s')"
  using assms unfolding worker_tick_def
  by (auto split: prod.splits sum.splits dest!: on_store_limits intro: exI [of _ "[]"])

lemma work_keeps: "work w w' \<Longrightarrow> work_inv w \<Longrightarrow> work_inv w'"
proof (induction rule: work.induct)
  case (work_tick w now new s)
  from worker_tick_spawns [OF work_tick(2)] obtain cs where "spawn cs (limits (server w)) = (new, limits s)" ..
  from pooled_spawn [OF _ this, of "holders w"] work_tick.prems work_tick(1) show ?case
    by (auto simp: work_inv_def holders_def ac_simps)
next
  case (work_done w xs i dev ys)
  from work_done.hyps have "holders w = add_mset dev (mset (map snd (xs @ ys)) + mset (direct_calls w))"
    by (simp add: holders_def)
  with work_done pooled_give [of "limits (server w)" dev] show ?case by (simp add: work_inv_def holders_def)
next
  case (work_direct dev w l)
  with pooled_take [of "limits (server w)" "holders w" dev True l] show ?case
    by (simp add: work_inv_def holders_def)
next
  case (work_direct_done w xs dev ys)
  from work_direct_done.hyps have "holders w = add_mset dev (mset (map snd (jobs w)) + mset (xs @ ys))"
    by (simp add: holders_def)
  with work_direct_done pooled_give [of "limits (server w)" dev] show ?case by (simp add: work_inv_def holders_def)
qed (auto simp: work_inv_def holders_def)

lemma idle_inv: "idle w \<Longrightarrow> work_inv w"
  by (auto simp: idle_def work_inv_def holders_def pooled_def slots.holds_empty)

lemma work_reaches_inv: "work\<^sup>*\<^sup>* w w' \<Longrightarrow> work_inv w \<Longrightarrow> work_inv w'"
  by (induction rule: rtranclp_induct) (auto intro: work_keeps)

text \<open>C17. The worker and the handlers share the slots without error: at any time at most 32 requests run, at most
  4 of one device, jobs and direct calls counted together, the counters are exactly these numbers,
  and when the loop returns no dispatch is left running.\<close>

theorem work_is_bounded:
  assumes "idle w" "work\<^sup>*\<^sup>* w w'"
  shows "length (jobs w') + length (direct_calls w') \<le> 32 \<and>
    count (mset (map snd (jobs w')) + mset (direct_calls w')) dev \<le> 4 \<and>
    global (limits (server w')) = int (length (jobs w') + length (direct_calls w')) \<and>
    active (limits (server w')) dev = int (count (mset (map snd (jobs w')) + mset (direct_calls w')) dev) \<and>
    (returned w' \<longrightarrow> jobs w' = [])"
  using work_reaches_inv [OF assms(2) idle_inv [OF assms(1)]]
  by (auto simp: work_inv_def pooled_def holders_def slots_hold_def)

section \<open>Progress\<close>

lemma spawn_subset: "set (fst (spawn cs l)) \<subseteq> set cs"
proof (induction cs arbitrary: l)
  case (Cons c cs)
  obtain i dev where c: "c = (i, dev)" by (cases c)
  with Cons.IH [of "snd (acquire dev l)"] show ?case by (auto split: prod.splits if_splits)
qed simp

lemma maintenance_clear:
  assumes "run_tx [] (maintenance now) d = (r, d')"
  shows "\<exists>w. maintenance now (clear d d) = (r, clear d' w)"
proof -
  have "faults (snd (maintenance now (clear d d))) = []"
    by (simp add: maintenance_def plain_run plain_close_all)
  with assms show ?thesis
    by (auto simp: run_tx_def split: prod.splits) (metis txst.surjective unit.exhaust)
qed

lemma worker_tick_clear:
  assumes "run_tx [] (maintenance now) d = (r, d')" "store s = clear d d" "worker_tick now s = (new, s')"
  shows "new = fst (spawn (candidates d') (limits s))"
proof -
  from maintenance_clear [OF assms(1)] obtain w where "maintenance now (clear d d) = (r, clear d' w)" ..
  with assms(2,3) show ?thesis
    by (auto simp: worker_tick_def on_store_def rows_now_def no_faults split: prod.splits)
qed

text \<open>
  The order of the queue, said without a sort: the queued requests before a request, and how many
  they are.
\<close>

definition queued_before :: "request_row \<Rightarrow> request_row \<Rightarrow> bool" where
  "queued_before p q \<longleftrightarrow> rq_status p = queued \<and> (created p < created q \<or> created p = created q \<and> rq_id p < rq_id q)"

definition queue_rank :: "db \<Rightarrow> request_row \<Rightarrow> nat" where
  "queue_rank d q = length (filter (\<lambda>p. queued_before p q) (requests d))"

lemma sorted_wrt_lex:
  assumes "sorted (map f xs)" and "\<And>k. sorted_wrt S (filter (\<lambda>x. f x = k) xs)"
  shows "sorted_wrt (\<lambda>x y. f x < f y \<or> f x = f y \<and> S x y) xs"
  using assms
proof (induction xs)
  case (Cons x xs)
  have "sorted_wrt S (filter (\<lambda>y. f y = k) xs)" for k
    using Cons.prems(2) [of k] by (simp split: if_splits)
  with Cons.IH Cons.prems(1) have "sorted_wrt (\<lambda>x y. f x < f y \<or> f x = f y \<and> S x y) xs" by simp
  moreover have "f x < f y \<or> f x = f y \<and> S x y" if "y \<in> set xs" for y
    using Cons.prems(1) Cons.prems(2) [of "f x"] that by (cases "f x = f y") (auto simp: order_le_less)
  ultimately show ?case by simp
qed simp

lemma distinct_sort_key: "distinct (map f xs) \<Longrightarrow> distinct (map f (sort_key g xs))"
  by (metis mset_map mset_sort mset_eq_imp_distinct_iff)

lemma queue_order_mset: "mset (queue_order d) = mset (filter (\<lambda>r. rq_status r = queued) (requests d))"
  by (simp add: queue_order_def)

lemma queue_order_set: "q \<in> set (queue_order d) \<longleftrightarrow> q \<in> set (requests d) \<and> rq_status q = queued"
  by (auto simp: queue_order_def)

lemma queue_order_sorted:
  assumes "distinct (map rq_id (requests d))"
  shows "sorted_wrt queued_before (queue_order d)"
proof -
  let ?q = "filter (\<lambda>r. rq_status r = queued) (requests d)" and ?S = "\<lambda>p q. rq_id p < rq_id q"
  have "distinct (map rq_id ?q)" using assms by (simp add: distinct_map inj_on_def)
  then have "distinct (map rq_id (sort_key rq_id ?q))" by (rule distinct_sort_key)
  then have "sorted_wrt ?S (sort_key rq_id ?q)"
    using sorted_sort_key [of rq_id ?q] by (simp add: strict_sorted_iff flip: sorted_wrt_map)
  then have "sorted_wrt ?S (filter (\<lambda>x. created x = k) (queue_order d))" for k
    unfolding queue_order_def by (simp add: sort_key_stable sorted_wrt_filter)
  from sorted_wrt_lex [OF _ this] have "sorted_wrt (\<lambda>x y. created x < created y \<or> created x = created y \<and> ?S x y) (queue_order d)"
    by (simp add: queue_order_def)
  then show ?thesis
    by (rule sorted_wrt_mono_rel [rotated]) (auto simp: queued_before_def queue_order_set)
qed

lemma queue_order_rank:
  assumes "distinct (map rq_id (requests d))" "queue_order d = xs @ q # ys"
  shows "mset xs = mset (filter (\<lambda>p. queued_before p q) (requests d))" "queue_rank d q = length xs"
proof -
  from queue_order_sorted [OF assms(1)] have "\<forall>p \<in> set xs. queued_before p q" "\<forall>p \<in> set ys. queued_before q p"
    unfolding assms(2) by (simp_all add: sorted_wrt_append)
  moreover from this(2) have "\<forall>p \<in> set ys. \<not> queued_before p q" "\<not> queued_before q q"
    by (auto simp: queued_before_def)
  ultimately have "filter (\<lambda>p. queued_before p q) (queue_order d) = xs"
    unfolding assms(2) by (simp add: filter_True filter_False)
  moreover have "queued_before p q \<Longrightarrow> rq_status p = queued" for p by (simp add: queued_before_def)
  then have "filter (\<lambda>p. queued_before p q) (filter (\<lambda>r. rq_status r = queued) (requests d)) =
      filter (\<lambda>p. queued_before p q) (requests d)"
    unfolding filter_filter by (metis (no_types))
  then have "mset (filter (\<lambda>p. queued_before p q) (queue_order d)) = mset (filter (\<lambda>p. queued_before p q) (requests d))"
    by (metis mset_filter queue_order_mset)
  ultimately show m: "mset xs = mset (filter (\<lambda>p. queued_before p q) (requests d))" by simp
  show "queue_rank d q = length xs" using arg_cong [OF m, of size] by (simp add: queue_rank_def del: mset_filter)
qed

text \<open>The loop over the candidates, seen from one of them.\<close>

lemma spawn_Cons:
  "fst (spawn (c # cs) l) = (if fst (acquire (snd c) l) then [c] else []) @ fst (spawn cs (snd (acquire (snd c) l)))"
  "snd (spawn (c # cs) l) = snd (spawn cs (snd (acquire (snd c) l)))"
  by (cases c; simp split: prod.split)+

declare spawn.simps(2) [simp del]

lemma spawn_append:
  "fst (spawn (xs @ ys) l) = fst (spawn xs l) @ fst (spawn ys (snd (spawn xs l)))"
  by (induction xs arbitrary: l) (simp_all add: spawn_Cons)

lemma spawn_counts:
  "global (snd (spawn cs l)) = global l + int (length (fst (spawn cs l)))"
  "active (snd (spawn cs l)) d = active l d + int (length (filter (\<lambda>c. snd c = d) (fst (spawn cs l))))"
  by (induction cs arbitrary: l) (simp_all add: spawn_Cons acquire_def)

lemma spawn_filter: "distinct cs \<Longrightarrow> fst (spawn cs l) = filter (\<lambda>c. c \<in> set (fst (spawn cs l))) cs"
proof (induction cs arbitrary: l)
  case (Cons c cs)
  let ?l = "snd (acquire (snd c) l)"
  obtain S where S: "S = set (fst (spawn (c # cs) l))" by simp
  have "c \<notin> set (fst (spawn cs ?l))" using Cons.prems spawn_subset by force
  then have "c \<in> S \<longleftrightarrow> fst (acquire (snd c) l)" by (simp add: S spawn_Cons)
  moreover have "filter (\<lambda>x. x \<in> S) cs = filter (\<lambda>x. x \<in> set (fst (spawn cs ?l))) cs"
    by (rule filter_cong) (use Cons.prems in \<open>auto simp: S spawn_Cons\<close>)
  moreover have "\<dots> = fst (spawn cs ?l)" using Cons.IH [of ?l] Cons.prems by simp
  ultimately have "filter (\<lambda>x. x \<in> S) (c # cs) = (if fst (acquire (snd c) l) then [c] else []) @ fst (spawn cs ?l)"
    by simp
  then show ?case unfolding S by (simp only: spawn_Cons(1))
qed simp

lemma spawn_at:
  fixes l :: slots
  assumes "distinct (xs @ (i, dev) # ys)"
  defines "new \<equiv> fst (spawn (xs @ (i, dev) # ys) l)"
  shows "(i, dev) \<in> set new \<longleftrightarrow>
    global l + int (length (filter (\<lambda>c. c \<in> set new) xs)) < 32 \<and>
    active l dev + int (length (filter (\<lambda>c. c \<in> set new \<and> snd c = dev) xs)) < 4"
proof -
  let ?l = "snd (spawn xs l)"
  have n: "new = fst (spawn xs l) @ fst (spawn ((i, dev) # ys) ?l)"
    by (simp add: new_def spawn_append)
  have out: "(i, dev) \<notin> set (fst (spawn xs l))" "(i, dev) \<notin> set (fst (spawn ys k))" for k
    using assms(1) spawn_subset by force+
  have "c \<notin> set (fst (spawn ((i, dev) # ys) ?l))" if "c \<in> set xs" for c
    using assms(1) spawn_subset [of "(i, dev) # ys" ?l] that by force
  then have "filter (\<lambda>c. c \<in> set new) xs = filter (\<lambda>c. c \<in> set (fst (spawn xs l))) xs"
    by (intro filter_cong) (auto simp: n)
  then have f: "filter (\<lambda>c. c \<in> set new) xs = fst (spawn xs l)"
    using spawn_filter [of xs l] assms(1) by simp
  have g: "filter (\<lambda>c. c \<in> set new \<and> snd c = dev) xs = filter (\<lambda>c. snd c = dev) (fst (spawn xs l))"
    unfolding f [symmetric] filter_filter by (simp add: conj_commute)
  have "(i, dev) \<in> set new \<longleftrightarrow> fst (acquire dev ?l)"
    using out by (simp add: n spawn_Cons)
  also have "\<dots> \<longleftrightarrow> global ?l < 32 \<and> active ?l dev < 4" by (simp add: acquire_def not_le)
  finally show ?thesis
    by (simp add: spawn_counts f g)
qed

lemma candidates_at:
  assumes "distinct (map rq_id (requests d))" "q \<in> set (requests d)" "rq_status q = queued" "queue_rank d q < 32"
  obtains xs ys where "candidates d = map (\<lambda>p. (rq_id p, rq_device p)) xs @ (rq_id q, rq_device q) # ys"
    "mset xs = mset (filter (\<lambda>p. queued_before p q) (requests d))"
proof -
  have "q \<in> set (queue_order d)" using assms(2,3) by (simp add: queue_order_set)
  then obtain xs ys where l: "queue_order d = xs @ q # ys" by (meson split_list)
  note r = queue_order_rank [OF assms(1) l]
  then have "length xs < 32" using assms(4) by simp
  then have "candidates d = map (\<lambda>p. (rq_id p, rq_device p)) xs @ (rq_id q, rq_device q) #
      map (\<lambda>p. (rq_id p, rq_device p)) (take (31 - length xs) ys)"
    by (simp add: candidates_def l take_Cons')
  with r(1) that show ?thesis by blast
qed

lemma candidates_in:
  assumes "distinct (map rq_id (requests d))" "c \<in> set (candidates d)"
  shows "\<exists>q \<in> set (requests d). c = (rq_id q, rq_device q) \<and> rq_status q = queued \<and> queue_rank d q < 32"
proof -
  obtain q where q: "q \<in> set (take 32 (queue_order d))" "c = (rq_id q, rq_device q)"
    using assms(2) by (auto simp: candidates_def)
  then obtain xs ys where t: "take 32 (queue_order d) = xs @ q # ys" by (meson split_list)
  then have "queue_order d = xs @ q # (ys @ drop 32 (queue_order d))"
    by (metis append.assoc append_Cons append_take_drop_id)
  note rank = queue_order_rank(2) [OF assms(1) this]
  have "length (take 32 (queue_order d)) \<le> 32" by simp
  then have "queue_rank d q < 32" unfolding t rank by simp
  moreover have "q \<in> set (queue_order d)" using q(1) by (rule in_set_takeD)
  ultimately show ?thesis using q(2) by (auto simp: queue_order_set)
qed

lemma candidates_distinct:
  assumes "distinct (map rq_id (requests d))"
  shows "distinct (candidates d)"
proof -
  have "distinct (map rq_id (queue_order d))"
    unfolding queue_order_def using assms
    by (intro distinct_sort_key) (simp add: distinct_map_filter)
  then have "distinct (map (\<lambda>r. (rq_id r, rq_device r)) (queue_order d))"
    by (auto simp: distinct_map inj_on_def)
  then show ?thesis unfolding candidates_def take_map [symmetric] by (rule distinct_take)
qed

lemma maintenance_ids:
  assumes "run_tx [] (maintenance now) d = (r, d')"
  shows "map rq_id (requests d') = map rq_id (requests d)"
proof -
  have close: "map rq_id (requests (close_all st why now ids c)) = map rq_id (requests c)" for st why ids c
    by (induction ids arbitrary: c) (auto simp: close_all_def close_one_def update_requests_def closed_def audited_def)
  have "map rq_id (requests (update_requests (purgeable now) purge c)) = map rq_id (requests c)" for c
    by (auto simp: update_requests_def purge_def)
  moreover have "d' = without_sessions (\<lambda>s. ses_expires s \<le> now) (maintained now (overdue now d) d)"
    using assms by (simp add: plain_maintenance)
  ultimately show ?thesis by (simp only: without_sessions_simps maintained_def close)
qed

text \<open>C18. What a turn of the worker starts, when storage works: of the queued requests the 32 oldest (by time,
  then by id), and each of them exactly if its device has a slot left of its 4 and the pool one of
  its 32, counting those already taken and those started for older requests of this turn. The window
  of 32 is taken before the slots are looked at: if these 32 all belong to devices that use their 4
  slots, nothing is started, whatever else is queued.\<close>

theorem worker_progress:
  assumes "run_tx [] (maintenance now) d = (r, d')" "store s = clear d d" "worker_tick now s = (new, s')"
    and "distinct (map rq_id (requests d))"
  shows "(\<forall>c \<in> set new. \<exists>q \<in> set (requests d'). c = (rq_id q, rq_device q) \<and> rq_status q = queued \<and> queue_rank d' q < 32) \<and>
    (\<forall>q \<in> set (requests d'). rq_status q = queued \<longrightarrow> queue_rank d' q < 32 \<longrightarrow>
      ((rq_id q, rq_device q) \<in> set new \<longleftrightarrow>
        global (limits s) + int (length (filter (\<lambda>p. queued_before p q \<and> (rq_id p, rq_device p) \<in> set new) (requests d'))) < 32 \<and>
        active (limits s) (rq_device q) + int (length (filter (\<lambda>p. queued_before p q \<and> (rq_id p, rq_device p) \<in> set new \<and>
          rq_device p = rq_device q) (requests d'))) < 4))"
proof (intro conjI ballI impI)
  note new = worker_tick_clear [OF assms(1-3)]
  have ids: "distinct (map rq_id (requests d'))" using assms(4) maintenance_ids [OF assms(1)] by simp
  show "\<exists>q \<in> set (requests d'). c = (rq_id q, rq_device q) \<and> rq_status q = queued \<and> queue_rank d' q < 32"
    if "c \<in> set new" for c
    using candidates_in [OF ids] spawn_subset that unfolding new by blast
  fix q assume "q \<in> set (requests d')" "rq_status q = queued" "queue_rank d' q < 32"
  from candidates_at [OF ids this] obtain xs ys where
    c: "candidates d' = map (\<lambda>p. (rq_id p, rq_device p)) xs @ (rq_id q, rq_device q) # ys"
    and m: "mset xs = mset (filter (\<lambda>p. queued_before p q) (requests d'))" .
  have len: "length (filter P (map (\<lambda>p. (rq_id p, rq_device p)) xs)) =
      length (filter (\<lambda>p. queued_before p q \<and> P (rq_id p, rq_device p)) (requests d'))" for P
    using arg_cong [OF m, of "\<lambda>m. size (filter_mset (\<lambda>p. P (rq_id p, rq_device p)) m)"]
    by (simp add: filter_map comp_def conj_commute flip: mset_filter)
  show "(rq_id q, rq_device q) \<in> set new \<longleftrightarrow>
        global (limits s) + int (length (filter (\<lambda>p. queued_before p q \<and> (rq_id p, rq_device p) \<in> set new) (requests d'))) < 32 \<and>
        active (limits s) (rq_device q) + int (length (filter (\<lambda>p. queued_before p q \<and> (rq_id p, rq_device p) \<in> set new \<and>
          rq_device p = rq_device q) (requests d'))) < 4"
    using spawn_at [OF candidates_distinct [OF ids, unfolded c], of "limits s"]
    unfolding len c [symmetric] new [symmetric] by simp
qed

section \<open>Witnesses\<close>

text \<open>
  A full window: 32 requests of a device that uses its 4 slots, and one of another device behind
  them. The turn starts nothing.
\<close>

definition jam_row :: "string \<Rightarrow> nat \<Rightarrow> request_row" where
  "jam_row dev n = \<lparr>rq_id = [char_of n], rq_device = dev, rq_service = ''s'', rq_revision = 1, rq_permission = ''p'',
     key_hash = [char_of n], submission_digest = [], snapshot_digest = [], rq_snapshot = Some ''x'', rq_status = queued,
     rq_expires = 1000, created = int n, finished = None, rq_result = None, reason = []\<rparr>"

definition jam_db :: db where
  "jam_db = empty_db\<lparr>requests := map (jam_row ''busy'') [0..<32] @ [jam_row ''idle'' 32]\<rparr>"

definition jam_srv :: srv where
  "jam_srv = \<lparr>limits = \<lparr>global = 4, active = (\<lambda>d. if d = ''busy'' then 4 else 0)\<rparr>, windows = (\<lambda>_. []),
     http_events = [], store = clear jam_db jam_db\<rparr>"

lemma jam_rows:
  "requests (snd (run_tx [] (maintenance 10) jam_db)) = requests jam_db"
  by code_simp

lemma jam_window: "list_all (\<lambda>q. rq_device q = ''busy'' \<or> 32 \<le> queue_rank jam_db q) (requests jam_db)"
  by code_simp

lemma jam_ids: "distinct (map rq_id (requests jam_db))"
  by code_simp

lemma jam_waits: "\<exists>r \<in> set (requests jam_db). rq_device r = ''idle'' \<and> rq_status r = queued"
  by (simp add: jam_db_def jam_row_def)

theorem worker_progress_witness:
  "\<exists>new s'. worker_tick 10 jam_srv = (new, s') \<and> new = [] \<and> global (limits jam_srv) = 4 \<and>
     active (limits jam_srv) ''idle'' = 0 \<and>
     (\<exists>r \<in> set (requests jam_db). rq_device r = ''idle'' \<and> rq_status r = queued)"
proof -
  obtain new s' where t: "worker_tick 10 jam_srv = (new, s')" by (metis prod.exhaust)
  obtain r d' where m: "run_tx [] (maintenance 10) jam_db = (r, d')" by (metis prod.exhaust)
  with jam_rows have rows: "requests d' = requests jam_db" by simp
  have "store jam_srv = clear jam_db jam_db" by (simp add: jam_srv_def)
  note p = worker_progress [OF m this t jam_ids]
  have "False" if "c \<in> set new" for c
  proof -
    from p that obtain q where q: "q \<in> set (requests jam_db)" "c = (rq_id q, rq_device q)" "rq_status q = queued"
      "queue_rank d' q < 32" unfolding rows by blast
    then have "rq_device q = ''busy''" using jam_window by (auto simp: list_all_iff queue_rank_def rows)
    moreover have "active (limits jam_srv) (rq_device q) < 4" using p q that unfolding rows by fastforce
    ultimately show False by (simp add: jam_srv_def)
  qed
  then have "new = []" by (cases new) auto
  with t jam_waits show ?thesis by (auto simp: jam_srv_def)
qed

definition idle_worker :: worker where
  "idle_worker = \<lparr>server = jam_srv\<lparr>limits := no_slots\<rparr>, jobs = [], direct_calls = [], stopping = False, returned = False\<rparr>"

theorem work_is_bounded_witness:
  "\<exists>w. work\<^sup>*\<^sup>* idle_worker w \<and> direct_calls w = [''a''] \<and> global (limits (server w)) = 1"
proof -
  let ?l = "snd (acquire ''a'' no_slots)"
  let ?w = "idle_worker\<lparr>server := (server idle_worker)\<lparr>limits := ?l\<rparr>, direct_calls := [''a'']\<rparr>"
  have "acquire ''a'' (limits (server idle_worker)) = (True, ?l)"
    by (simp add: idle_worker_def acquire_def no_slots_def)
  from work_direct [OF this] have "work idle_worker ?w" by (simp add: idle_worker_def)
  then have r: "work\<^sup>*\<^sup>* idle_worker ?w" by blast
  have "idle idle_worker" by (simp add: idle_def idle_worker_def)
  from work_is_bounded [OF this r, of "''a''"] r show ?thesis
    by (intro exI [of _ ?w]) (simp add: idle_worker_def)
qed

end
