(* ===== verification/Vault.thy ===== *)
theory Vault
  imports Store
begin

text \<open>
  Opening the database: \<open>internal/store/store.go\<close> (\<open>Open\<close>, \<open>Close\<close>, \<open>migrate\<close>) and the password
  functions of \<open>crypto.go\<close>. Here the database is seen as a file: its schema, the
  \<open>user_version\<close> of SQLite, the \<open>metadata\<close> rows and the advisory lock; the rows of the other
  tables, which no migration touches, are the subject of theory Store.

  Each call of the operating system and each statement can fail; the failures are given as in
  theory Store, one \<open>fault\<close> per call. The key derivation (Argon2id) and the AES-GCM instance for
  a key are parameters.
\<close>

record vault_env =
  kdf :: "string \<Rightarrow> string \<Rightarrow> string"
  cipher :: "string \<Rightarrow> crypto"

section \<open>The migrations as statements on the schema\<close>

datatype ddl = CreateTable string "string list" | CreateIfMissing string "string list" |
  AddColumn string string | CreateIndex string string "string list"

type_synonym schema = "(string \<times> string list) list"

fun apply_ddl :: "ddl \<Rightarrow> schema \<Rightarrow> schema option" where
  "apply_ddl (CreateTable t cols) s =
     (if map_of s t \<noteq> None then None else Some (s @ [(t, cols)]))"
| "apply_ddl (CreateIfMissing t cols) s =
     (if map_of s t \<noteq> None then Some s else Some (s @ [(t, cols)]))"
| "apply_ddl (AddColumn t c) s =
     (case map_of s t of
        None \<Rightarrow> None
      | Some cols \<Rightarrow> if c \<in> set cols then None
          else Some (map (\<lambda>(u, cs). if u = t then (u, cs @ [c]) else (u, cs)) s))"
| "apply_ddl (CreateIndex i t cols) s =
     (case map_of s t of
        None \<Rightarrow> None
      | Some cs \<Rightarrow> if set cols \<subseteq> set cs \<and> map_of s i = None then Some (s @ [(i, cols)]) else None)"

fun apply_ddls :: "ddl list \<Rightarrow> schema \<Rightarrow> schema option" where
  "apply_ddls [] s = Some s"
| "apply_ddls (x # xs) s = (case apply_ddl x s of None \<Rightarrow> None | Some s' \<Rightarrow> apply_ddls xs s')"

definition initial_sql :: "ddl list" where
  "initial_sql =
     [CreateIfMissing ''metadata'' [''key'', ''value''],
      CreateIfMissing ''owners'' [''id'', ''password_hash''],
      CreateIfMissing ''sessions'' [''hash'', ''owner_id'', ''csrf'', ''expires''],
      CreateIfMissing ''devices'' [''id'', ''label'', ''revoked''],
      CreateIfMissing ''invitations'' [''hash'', ''device_id'', ''expires'', ''used''],
      CreateIfMissing ''services'' [''id'', ''label'', ''base_url'', ''revision'', ''enabled'', ''auth'',
        ''credential'', ''auth_header'', ''request_headers'', ''response_headers'', ''private_cidr''],
      CreateIfMissing ''permissions'' [''id'', ''device_id'', ''service_id'', ''revision'', ''method'',
        ''path'', ''path_kind'', ''mode'', ''created_by_owner_id'', ''created_at'', ''expires'', ''revoked''],
      CreateIfMissing ''audit'' [''id'', ''time'', ''owner_id'', ''device_id'', ''kind'', ''entity_id'']]"

definition http_audit_sql :: "ddl list" where
  "http_audit_sql =
     [CreateTable ''http_events'' [''id'', ''time'', ''device_id'', ''service_id'', ''permission_id'',
        ''method'', ''status'', ''duration_ms'', ''request_bytes'', ''response_bytes'']]"

definition requests_sql :: "ddl list" where
  "requests_sql =
     [CreateTable ''requests'' [''id'', ''device_id'', ''service_id'', ''revision'', ''permission_id'',
        ''key_hash'', ''submission_digest'', ''snapshot_digest'', ''snapshot'', ''status'', ''expires'',
        ''created'', ''finished'', ''result'', ''reason''],
      CreateIndex ''request_work'' ''requests'' [''status'', ''expires''],
      CreateTable ''approvals'' [''request_id'', ''decided_by_owner_id'', ''digest'', ''decision'', ''decided_at'']]"

definition certificates_sql :: "ddl list" where
  "certificates_sql =
     [AddColumn ''devices'' ''certificate_serial'', AddColumn ''devices'' ''certificate_expires'']"

text \<open>The embedded files, in the order of \<open>ReadDir\<close> (by name).\<close>

definition migrations :: "ddl list list" where
  "migrations = [initial_sql, http_audit_sql, requests_sql, certificates_sql]"

section \<open>Operations on the file\<close>

record vault_file =
  user_version :: nat
  tables :: schema
  metadata :: "(string \<times> string) list"

record disk =
  contents :: vault_file
  pending :: vault_file
  locked :: bool
  disk_faults :: "fault list"

type_synonym 'a disk_op = "disk \<Rightarrow> (error + 'a) \<times> disk"

text \<open>One call that may fail and, if it does not, acts on the state.\<close>

definition d_call :: "(disk \<Rightarrow> (error + 'a) \<times> disk) \<Rightarrow> 'a disk_op" where
  "d_call f s =
     (let s' = s\<lparr>disk_faults := tl (disk_faults s)\<rparr> in
      if disk_faults s \<noteq> [] \<and> hd (disk_faults s) = Fail then (Inl DriverErr, s') else f s')"

definition d_begin :: "unit disk_op" where
  "d_begin = d_call (\<lambda>s. (Inr (), s\<lparr>pending := contents s\<rparr>))"

definition d_exec :: "(vault_file \<Rightarrow> vault_file option) \<Rightarrow> unit disk_op" where
  "d_exec f = d_call (\<lambda>s. case f (pending s) of
     None \<Rightarrow> (Inl DriverErr, s) | Some v \<Rightarrow> (Inr (), s\<lparr>pending := v\<rparr>))"

definition d_commit :: "unit disk_op" where
  "d_commit = d_call (\<lambda>s. (Inr (), s\<lparr>contents := pending s\<rparr>))"

definition d_query :: "(vault_file \<Rightarrow> error + 'a) \<Rightarrow> 'a disk_op" where
  "d_query f = d_call (\<lambda>s. (f (contents s), s))"

section \<open>\<open>migrate\<close>\<close>

definition run_ddl :: "ddl list \<Rightarrow> vault_file \<Rightarrow> vault_file option" where
  "run_ddl f v = map_option (\<lambda>t. v\<lparr>tables := t\<rparr>) (apply_ddls f (tables v))"

definition migrate_one :: "nat \<Rightarrow> ddl list \<Rightarrow> unit disk_op" where
  "migrate_one i f =
     bind d_begin (\<lambda>_.
     bind (d_exec (run_ddl f)) (\<lambda>_.
     bind (d_exec (\<lambda>v. Some (v\<lparr>user_version := i + 1\<rparr>))) (\<lambda>_. d_commit)))"

fun migrate_loop :: "nat \<Rightarrow> nat \<Rightarrow> ddl list list \<Rightarrow> unit disk_op" where
  "migrate_loop version i [] = ret ()"
| "migrate_loop version i (f # files) =
     (if i + 1 \<le> version then migrate_loop version (i + 1) files
      else bind (migrate_one i f) (\<lambda>_. migrate_loop version (i + 1) files))"

definition migrate :: "unit disk_op" where
  "migrate =
     bind (d_query (\<lambda>v. Inr (user_version v))) (\<lambda>version.
       if length migrations < version then fail (Err ''database is newer than this binary'')
       else migrate_loop version 0 migrations)"

section \<open>\<open>Open\<close> and \<open>Close\<close>\<close>

definition get_metadata :: "string \<Rightarrow> vault_file \<Rightarrow> error + string option" where
  "get_metadata k v = (if map_of (tables v) ''metadata'' = None then Inl DriverErr
     else Inr (map_of (metadata v) k))"

definition add_metadata :: "(string \<times> string) list \<Rightarrow> vault_file \<Rightarrow> vault_file option" where
  "add_metadata rows v =
     (if map_of (tables v) ''metadata'' = None \<or> \<not> distinct (map fst (metadata v @ rows)) then None
      else Some (v\<lparr>metadata := metadata v @ rows\<rparr>))"

definition check_purpose :: string where "check_purpose = ''unlock-check''"
definition check_text :: string where "check_text = ''budge-v1''"

text \<open>The first start stores the salt and a sealed text; later starts must unseal it.\<close>

definition first_unlock :: "vault_env \<Rightarrow> string \<Rightarrow> string \<Rightarrow> string \<Rightarrow> crypto disk_op" where
  "first_unlock V unlock salt nonce =
     (let E = cipher V (kdf V unlock salt) in
      bind d_begin (\<lambda>_.
      bind (d_exec (add_metadata [(''salt'', salt), (''check'', Seal E nonce check_purpose check_text)])) (\<lambda>_.
      bind d_commit (\<lambda>_. ret E))))"

definition check_unlock :: "crypto \<Rightarrow> string \<Rightarrow> crypto disk_op" where
  "check_unlock E check =
     (case Unseal E check_purpose check of
        Inl _ \<Rightarrow> fail (Err ''cannot unlock database'')
      | Inr b \<Rightarrow> if b \<noteq> check_text then fail (Err ''cannot unlock database'') else ret E)"

definition unlock_vault :: "vault_env \<Rightarrow> string \<Rightarrow> string \<Rightarrow> string \<Rightarrow> crypto disk_op" where
  "unlock_vault V unlock salt nonce =
     bind (d_query (get_metadata ''salt'')) (\<lambda>row.
       case row of
         None \<Rightarrow> first_unlock V unlock salt nonce
       | Some stored \<Rightarrow>
           bind (d_query (get_metadata ''check'')) (\<lambda>row.
             case row of
               None \<Rightarrow> fail DriverErr
             | Some check \<Rightarrow> check_unlock (cipher V (kdf V unlock stored)) check))"

definition Close :: "disk \<Rightarrow> disk" where
  "Close s = s\<lparr>locked := False\<rparr>"

definition close_on_error :: "'a disk_op \<Rightarrow> 'a disk_op" where
  "close_on_error m s = (case m s of (Inl e, s') \<Rightarrow> (Inl e, Close s') | (Inr x, s') \<Rightarrow> (Inr x, s'))"

text \<open>\<open>Flock\<close> with \<open>LOCK_NB\<close>: any failure is reported as a database in use.\<close>

definition lock_file :: "unit disk_op" where
  "lock_file s =
     (case d_call (\<lambda>s. if locked s then (Inl DriverErr, s) else (Inr (), s\<lparr>locked := True\<rparr>)) s of
        (Inl _, s') \<Rightarrow> (Inl (Err ''database already in use''), s')
      | (Inr x, s') \<Rightarrow> (Inr x, s'))"

definition os_call :: "unit disk_op" where
  "os_call = d_call (\<lambda>s. (Inr (), s))"

text \<open>The calls in order: the directory, the file, the lock, its mode, \<open>sql.Open\<close>, the pragmas.\<close>

definition Open :: "vault_env \<Rightarrow> string \<Rightarrow> string \<Rightarrow> string \<Rightarrow> crypto disk_op" where
  "Open V unlock salt nonce =
     (if length unlock < 12 then fail (Err ''unlock secret must have at least 12 characters'')
      else
        bind os_call (\<lambda>_.
        bind os_call (\<lambda>_.
        bind lock_file (\<lambda>_.
        close_on_error (
          bind os_call (\<lambda>_.
          bind os_call (\<lambda>_.
          bind os_call (\<lambda>_.
          bind migrate (\<lambda>_. unlock_vault V unlock salt nonce)))))))))"

section \<open>Passwords\<close>

definition Password :: "vault_env \<Rightarrow> string \<Rightarrow> string \<Rightarrow> string" where
  "Password V salt password = RawStdEncoding salt @ ''.'' @ RawStdEncoding (kdf V password salt)"

definition CheckPassword :: "vault_env \<Rightarrow> string \<Rightarrow> string \<Rightarrow> bool" where
  "CheckPassword V encoded password =
     (case Split CHR ''.'' encoded of
        [a, b] \<Rightarrow>
          (case decode_raw Std a of
             None \<Rightarrow> False
           | Some s \<Rightarrow>
               if length s \<noteq> 16 then False
               else (case decode_raw Std b of None \<Rightarrow> False | Some h \<Rightarrow> h = kdf V password s))
      | _ \<Rightarrow> False)"


section \<open>What one operation does\<close>

lemmas disk_defs = ret_def fail_def bind_def d_call_def d_begin_def d_exec_def d_commit_def
  d_query_def os_call_def Let_def

text \<open>The schema after the first \<open>k\<close> migrations on an empty file.\<close>

definition schema_at :: "nat \<Rightarrow> schema" where
  "schema_at k = (case apply_ddls (concat (take k migrations)) [] of None \<Rightarrow> [] | Some s \<Rightarrow> s)"

definition migrated :: "vault_file \<Rightarrow> bool" where
  "migrated v \<longleftrightarrow> user_version v \<le> length migrations \<and> tables v = schema_at (user_version v)"

lemma apply_ddls_append:
  "apply_ddls (xs @ ys) s = Option.bind (apply_ddls xs s) (apply_ddls ys)"
  by (induction xs arbitrary: s) (auto split: option.splits)

lemma schema_at_last: "apply_ddls (concat migrations) [] = Some (schema_at (length migrations))"
  by code_simp

lemma apply_prefix: "\<exists>t. apply_ddls (concat (take k migrations)) [] = Some t"
proof -
  have "concat migrations = concat (take k migrations) @ concat (drop k migrations)"
    by (metis append_take_drop_id concat_append)
  with schema_at_last show ?thesis by (auto simp: apply_ddls_append bind_eq_Some_conv)
qed

lemma schema_step:
  assumes "i < length migrations"
  shows "apply_ddls (migrations ! i) (schema_at i) = Some (schema_at (i + 1))"
proof -
  have "concat (take (i + 1) migrations) = concat (take i migrations) @ migrations ! i"
    using assms by (simp add: take_Suc_conv_app_nth)
  moreover obtain t u where "apply_ddls (concat (take i migrations)) [] = Some t"
    "apply_ddls (concat (take (i + 1) migrations)) [] = Some u"
    using apply_prefix by metis
  ultimately show ?thesis by (simp add: schema_at_def apply_ddls_append bind_eq_Some_conv)
qed

lemma migrate_one_result:
  assumes "migrate_one i f s = (r, s')"
  shows "(contents s' = contents s \<and> r \<noteq> Inr () \<or>
      (\<exists>t. apply_ddls f (tables (contents s)) = Some t \<and> r = Inr () \<and>
         contents s' = (contents s)\<lparr>tables := t, user_version := i + 1\<rparr>)) \<and>
    locked s' = locked s \<and>
    (disk_faults s = [] \<longrightarrow> disk_faults s' = [] \<and> (apply_ddls f (tables (contents s)) \<noteq> None \<longrightarrow> r = Inr ()))"
  using assms unfolding migrate_one_def
  by (auto simp: disk_defs run_ddl_def split: if_splits option.splits)



text \<open>What a migration run may do, wherever it stops.\<close>

definition advanced :: "disk \<Rightarrow> error + unit \<Rightarrow> disk \<Rightarrow> bool" where
  "advanced s r s' \<longleftrightarrow>
     migrated (contents s') \<and> user_version (contents s) \<le> user_version (contents s') \<and>
     metadata (contents s') = metadata (contents s) \<and> locked s' = locked s \<and>
     (r = Inr () \<longrightarrow> user_version (contents s') = length migrations) \<and>
     (disk_faults s = [] \<longrightarrow> r = Inr () \<and> disk_faults s' = [])"

lemma migrate_loop_advances:
  assumes "files = drop i migrations" "i \<le> length migrations" "version \<le> length migrations"
    and "migrated (contents s)" "user_version (contents s) = max version i"
    and "migrate_loop version i files s = (r, s')"
  shows "advanced s r s'"
  using assms
proof (induction files arbitrary: i s)
  case Nil
  then show ?case by (auto simp: ret_def advanced_def)
next
  case (Cons f files)
  from Cons.prems(1) have i: "i < length migrations" and f: "f = migrations ! i"
    and files: "files = drop (i + 1) migrations"
    by (metis drop_all leI list.discI, metis nth_via_drop, metis drop_Suc Suc_eq_plus1 list.sel(3) tl_drop)
  show ?case
  proof (cases "i + 1 \<le> version")
    case True
    with Cons.prems(6) have "migrate_loop version (i + 1) files s = (r, s')" by simp
    with True show ?thesis
      using Cons.prems(3-5) files i by (intro Cons.IH [of "i + 1" s]) (auto simp: max_def)
  next
    case False
    with Cons.prems have v: "user_version (contents s) = i" by simp
    with Cons.prems(4) i f schema_step [OF i]
    have t: "apply_ddls f (tables (contents s)) = Some (schema_at (i + 1))" by (simp add: migrated_def)
    obtain r1 s1 where one: "migrate_one i f s = (r1, s1)" by (metis prod.exhaust)
    note res = migrate_one_result [OF one, unfolded t]
    show ?thesis
    proof (cases r1)
      case (Inl e)
      with one False Cons.prems(6) have "r = Inl e" "s' = s1" by (auto simp: bind_def)
      with res Inl Cons.prems(4) show ?thesis by (auto simp: advanced_def)
    next
      case (Inr u)
      with one False Cons.prems(6) have "migrate_loop version (i + 1) files s1 = (r, s')"
        by (simp add: bind_def)
      moreover have c: "contents s1 = (contents s)\<lparr>tables := schema_at (i + 1), user_version := i + 1\<rparr>"
        using res Inr by auto
      ultimately have "advanced s1 r s'"
        using Cons.IH [of "i + 1" s1] Cons.prems(3) files i False by (auto simp: migrated_def)
      with res c v show ?thesis by (auto simp: advanced_def)
    qed
  qed
qed

lemma migrate_advances:
  assumes "migrated (contents s)" and "migrate s = (r, s')"
  shows "advanced s r s'"
proof (cases "disk_faults s \<noteq> [] \<and> hd (disk_faults s) = Fail")
  case True
  with assms show ?thesis
    by (auto simp: migrate_def bind_def d_query_def d_call_def advanced_def Let_def migrated_def)
next
  case False
  let ?s = "s\<lparr>disk_faults := tl (disk_faults s)\<rparr>"
  from False assms have "migrate_loop (user_version (contents s)) 0 migrations ?s = (r, s')"
    by (auto simp: migrate_def bind_def d_query_def d_call_def Let_def migrated_def)
  with assms(1) have "advanced ?s r s'"
    by (intro migrate_loop_advances [where i = 0]) (auto simp: migrated_def)
  then show ?thesis by (auto simp: advanced_def)
qed

lemma migrate_newer:
  assumes "length migrations < user_version (contents s)"
  shows "contents (snd (migrate s)) = contents s \<and> fst (migrate s) \<noteq> Inr ()"
  using assms by (auto simp: migrate_def disk_defs)

text \<open>C25. Migrating is safe to interrupt and to repeat: whatever call fails, the file is left with the
  schema of exactly the migrations its version counts, never going back and never touching the
  metadata; success means that all of them are applied, a run without failures succeeds, and a
  database of a newer binary is refused unchanged.\<close>

theorem migrate_resumes:
  assumes "migrate s = (r, s')"
  shows "(migrated (contents s) \<longrightarrow> advanced s r s') \<and>
    (length migrations < user_version (contents s) \<longrightarrow> contents s' = contents s \<and> r \<noteq> Inr ())"
  using migrate_advances [OF _ assms] migrate_newer [of s] assms by simp

definition empty_file :: vault_file where
  "empty_file = \<lparr>user_version = 0, tables = [], metadata = []\<rparr>"

definition cut_disk :: disk where
  "cut_disk = \<lparr>contents = empty_file, pending = empty_file, locked = True,
     disk_faults = replicate 10 NoFault @ [Fail]\<rparr>"

theorem migrate_resumes_witness:
  "\<exists>r s. migrate cut_disk = (r, s) \<and> r \<noteq> Inr () \<and> user_version (contents s) = 2 \<and> advanced cut_disk r s \<and>
     migrated (contents s)"
proof -
  obtain r s where m: "migrate cut_disk = (r, s)" by (metis prod.exhaust)
  have "migrated (contents cut_disk)" by code_simp
  with migrate_resumes [OF m] have "advanced cut_disk r s" by blast
  moreover have "fst (migrate cut_disk) = Inl DriverErr \<and> user_version (contents (snd (migrate cut_disk))) = 2"
    by code_simp
  ultimately show ?thesis using m by (auto simp: advanced_def)
qed


section \<open>Unlocking\<close>

lemma close_on_error_Inr: "close_on_error m s = (Inr x, s') \<Longrightarrow> m s = (Inr x, s')"
  by (auto simp: close_on_error_def split: prod.splits sum.splits)

lemma d_bind_Inr:
  "bind m f s = (Inr y, s') \<Longrightarrow> \<exists>x s1. m s = (Inr x, s1) \<and> f x s1 = (Inr y, s')"
  by (auto simp: bind_def split: prod.splits sum.splits)

lemma os_call_Inr: "os_call s = (Inr x, s') \<Longrightarrow> contents s' = contents s \<and> locked s' = locked s"
  by (auto simp: os_call_def d_call_def Let_def split: if_splits)

lemma lock_file_Inr:
  "lock_file s = (Inr x, s') \<Longrightarrow> contents s' = contents s \<and> \<not> locked s \<and> locked s'"
  by (auto simp: lock_file_def d_call_def Let_def split: if_splits prod.splits sum.splits)

text \<open>A vault that a start with \<open>unlock\<close> has left: complete schema, salt and check in place.\<close>

definition unlockable :: "vault_env \<Rightarrow> string \<Rightarrow> crypto \<Rightarrow> vault_file \<Rightarrow> bool" where
  "unlockable V unlock E v \<longleftrightarrow> user_version v = length migrations \<and>
     (\<exists>salt check. get_metadata ''salt'' v = Inr (Some salt) \<and> get_metadata ''check'' v = Inr (Some check) \<and>
        E = cipher V (kdf V unlock salt) \<and> Unseal E check_purpose check = Inr check_text)"

lemma Unseal_Seal:
  "aead_ok E \<Longrightarrow> length nonce = nonce_size \<Longrightarrow> Unseal E purpose (Seal E nonce purpose b) = Inr b"
  by (simp add: Unseal_def Seal_def aead_ok_def)


lemma add_metadata_Some:
  "add_metadata rows v = Some v' \<Longrightarrow> metadata v' = metadata v @ rows \<and> tables v' = tables v \<and>
     user_version v' = user_version v \<and> distinct (map fst (metadata v @ rows)) \<and>
     map_of (tables v) ''metadata'' \<noteq> None"
  by (auto simp: add_metadata_def split: if_splits)

lemma first_unlock_Inr:
  assumes "aead_ok (cipher V (kdf V unlock salt))" "length nonce = nonce_size"
    and "user_version (contents s) = length migrations"
    and "first_unlock V unlock salt nonce s = (Inr E, s')"
  shows "unlockable V unlock E (contents s') \<and> locked s' = locked s"
proof -
  let ?rows = "[(''salt'', salt), (''check'', Seal E nonce check_purpose check_text)]"
  from assms(4) have E: "E = cipher V (kdf V unlock salt)" "locked s' = locked s"
    and add: "add_metadata ?rows (contents s) = Some (contents s')"
    by (auto simp: first_unlock_def disk_defs split: if_splits option.splits)
  then have m: "metadata (contents s') = metadata (contents s) @ ?rows" "tables (contents s') = tables (contents s)"
    "user_version (contents s') = user_version (contents s)"
    "''salt'' \<notin> fst ` set (metadata (contents s))" "''check'' \<notin> fst ` set (metadata (contents s))"
    "map_of (tables (contents s)) ''metadata'' \<noteq> None"
    using add_metadata_Some [OF add] by simp_all
  then have "map_of (metadata (contents s)) ''salt'' = None" "map_of (metadata (contents s)) ''check'' = None"
    by (simp_all add: map_of_eq_None_iff)
  with m have "get_metadata ''salt'' (contents s') = Inr (Some salt)"
    "get_metadata ''check'' (contents s') = Inr (Some (Seal E nonce check_purpose check_text))"
    by (simp_all add: get_metadata_def map_add_def)
  with E m(3) assms(1-3) show ?thesis
    by (auto simp: unlockable_def Unseal_Seal)
qed

lemma check_unlock_Inr:
  "check_unlock C check s = (Inr E, s') \<Longrightarrow> E = C \<and> s' = s \<and> Unseal C check_purpose check = Inr check_text"
  by (auto simp: check_unlock_def fail_def ret_def split: sum.splits if_splits)

lemma d_query_Inr:
  "d_query f s = (Inr x, s') \<Longrightarrow> f (contents s) = Inr x \<and> contents s' = contents s \<and> locked s' = locked s"
  by (auto simp: d_query_def d_call_def Let_def split: if_splits)

lemma unlock_vault_Inr:
  assumes "\<And>k. aead_ok (cipher V k)" "length nonce = nonce_size"
    and "user_version (contents s) = length migrations"
    and "unlock_vault V unlock salt nonce s = (Inr E, s')"
  shows "unlockable V unlock E (contents s') \<and> locked s' = locked s"
proof -
  from assms(4) obtain row s1 where s1: "get_metadata ''salt'' (contents s) = Inr row"
    "contents s1 = contents s" "locked s1 = locked s" and
    rest: "(case row of None \<Rightarrow> first_unlock V unlock salt nonce
       | Some stored \<Rightarrow> bind (d_query (get_metadata ''check'')) (\<lambda>row.
             case row of None \<Rightarrow> fail DriverErr
             | Some check \<Rightarrow> check_unlock (cipher V (kdf V unlock stored)) check)) s1 = (Inr E, s')"
    unfolding unlock_vault_def by (blast dest: d_bind_Inr d_query_Inr)
  show ?thesis
  proof (cases row)
    case None
    with rest first_unlock_Inr [of V unlock salt nonce s1 E s'] assms(1-3) s1 show ?thesis by simp
  next
    case (Some stored)
    with rest obtain row2 s2 where s2: "get_metadata ''check'' (contents s1) = Inr row2"
      "contents s2 = contents s1" "locked s2 = locked s1"
      and "(case row2 of None \<Rightarrow> fail DriverErr
             | Some check \<Rightarrow> check_unlock (cipher V (kdf V unlock stored)) check) s2 = (Inr E, s')"
      by (auto dest!: d_bind_Inr d_query_Inr)
    then show ?thesis
      using s1 Some assms(3) by (cases row2) (auto simp: fail_def unlockable_def dest: check_unlock_Inr)
  qed
qed

lemma Open_Inr:
  assumes "\<And>k. aead_ok (cipher V k)" "length nonce = nonce_size" "migrated (contents s)"
    and "Open V unlock salt nonce s = (Inr E, s')"
  shows "unlockable V unlock E (contents s') \<and> locked s' \<and> 12 \<le> length unlock"
proof -
  from assms(4) have "12 \<le> length unlock" by (auto simp: Open_def fail_def split: if_splits)
  moreover from assms(4) obtain s3 s4 where 1: "contents s3 = contents s" "locked s3"
    "migrate s3 = (Inr (), s4)" "unlock_vault V unlock salt nonce s4 = (Inr E, s')"
    unfolding Open_def
    by (auto simp: fail_def split: if_splits dest!: d_bind_Inr os_call_Inr lock_file_Inr close_on_error_Inr)
  moreover from 1 migrate_advances [OF _ 1(3)] assms(3)
  have "user_version (contents s4) = length migrations" "locked s4"
    by (auto simp: advanced_def)
  ultimately show ?thesis using unlock_vault_Inr [OF assms(1,2) _ 1(4)] by simp
qed

lemma migrate_loop_done: "i + length files \<le> version \<Longrightarrow> migrate_loop version i files s = (Inr (), s)"
  by (induction files arbitrary: i) (simp_all add: ret_def)

lemma no_disk_faults: "disk_faults s = [] \<Longrightarrow> s\<lparr>disk_faults := []\<rparr> = s"
  by (cases s) simp

lemma migrate_done:
  "user_version (contents s) = length migrations \<Longrightarrow> disk_faults s = [] \<Longrightarrow> migrate s = (Inr (), s)"
  using migrate_loop_done [of 0 migrations "user_version (contents s)" s]
  by (simp add: migrate_def bind_def d_query_def d_call_def Let_def no_disk_faults)

lemma Open_again:
  assumes "unlockable V unlock E (contents s)" "12 \<le> length unlock" "disk_faults s = []"
  shows "Open V unlock salt nonce s =
    (if locked s then (Inl (Err ''database already in use''), s) else (Inr E, s\<lparr>locked := True\<rparr>))"
proof -
  obtain c q l where s: "s = \<lparr>contents = c, pending = q, locked = l, disk_faults = []\<rparr>"
    using assms(3) by (cases s) simp
  let ?s = "\<lparr>contents = c, pending = q, locked = True, disk_faults = []\<rparr>"
  have "migrate ?s = (Inr (), ?s)"
    using assms(1) by (intro migrate_done) (simp_all add: unlockable_def s)
  moreover have "unlock_vault V unlock salt nonce ?s = (Inr E, ?s)"
    using assms(1) by (auto simp: s unlock_vault_def unlockable_def bind_def d_query_def d_call_def
        check_unlock_def ret_def)
  ultimately show ?thesis
    using assms(2)
    by (simp add: s Open_def os_call_def lock_file_def close_on_error_def bind_def d_call_def)
qed

text \<open>C24. What one start seals, every later start opens: after a successful \<open>Open\<close>, first or not and with
  whatever failures before it, opening the closed database with the same secret gives the same
  key and changes nothing but the lock, and until it is closed a second process is turned away.\<close>

theorem vault_reopens:
  assumes "\<forall>k. aead_ok (cipher V k)"
    and "length nonce = nonce_size" "migrated (contents s)"
    and "Open V unlock salt nonce s = (Inr E, s')"
  shows "Open V unlock salt' nonce' (Close (s'\<lparr>disk_faults := []\<rparr>)) = (Inr E, s'\<lparr>disk_faults := []\<rparr>) \<and>
    Open V unlock salt' nonce' (s'\<lparr>disk_faults := []\<rparr>) =
      (Inl (Err ''database already in use''), s'\<lparr>disk_faults := []\<rparr>)"
proof -
  from Open_Inr [OF _ assms(2-4)] assms(1)
  have u: "unlockable V unlock E (contents s')" "locked s'" "12 \<le> length unlock" by auto
  then show ?thesis
    using Open_again [of V unlock E "Close (s'\<lparr>disk_faults := []\<rparr>)"]
      Open_again [of V unlock E "s'\<lparr>disk_faults := []\<rparr>"]
    by (simp add: Close_def)
qed


text \<open>A concrete environment: the key is the secret and the salt, a sealed text carries the key.\<close>

definition sample_cipher :: "string \<Rightarrow> crypto" where
  "sample_cipher k = \<lparr>sha256 = (\<lambda>s. s), aead_seal = (\<lambda>n b ad. k @ ad @ b),
     aead_open = (\<lambda>n c ad. if prefix (k @ ad) c then Some (drop (length k + length ad) c) else None)\<rparr>"

definition sample_env :: vault_env where
  "sample_env = \<lparr>kdf = (\<lambda>p s. p @ s), cipher = sample_cipher\<rparr>"

definition fresh_disk :: disk where
  "fresh_disk = \<lparr>contents = empty_file, pending = empty_file, locked = False, disk_faults = []\<rparr>"

lemma sample_cipher_ok: "aead_ok (sample_cipher k)"
  by (simp add: aead_ok_def sample_cipher_def)

theorem vault_reopens_witness:
  "\<exists>E s. Open sample_env ''a long secret'' ''salt'' ''twelve bytes'' fresh_disk = (Inr E, s) \<and>
     Open sample_env ''a long secret'' ''other'' ''other nonces'' (Close (s\<lparr>disk_faults := []\<rparr>)) =
       (Inr E, s\<lparr>disk_faults := []\<rparr>) \<and>
     fst (Open sample_env ''a wrong secret'' ''other'' ''other nonces'' (Close s)) =
       Inl (Err ''cannot unlock database'')"
proof -
  let ?r = "Open sample_env ''a long secret'' ''salt'' ''twelve bytes'' fresh_disk"
  obtain r s where rs: "?r = (r, s)" by (metis prod.exhaust)
  have "(case fst ?r of Inr _ \<Rightarrow> True | Inl _ \<Rightarrow> False) \<and>
      (case fst (Open sample_env ''a wrong secret'' ''other'' ''other nonces'' (Close (snd ?r))) of
         Inl e \<Rightarrow> e = Err ''cannot unlock database'' | Inr _ \<Rightarrow> False)"
    by code_simp
  then obtain E where E: "?r = (Inr E, s)"
    and w: "fst (Open sample_env ''a wrong secret'' ''other'' ''other nonces'' (Close s)) =
      Inl (Err ''cannot unlock database'')"
    using rs by (auto split: sum.splits)
  have "migrated (contents fresh_disk)" by code_simp
  then show ?thesis
    using E w vault_reopens [OF _ _ _ E, of "''other''" "''other nonces''"]
    by (simp add: sample_env_def sample_cipher_ok nonce_size_def)
qed

section \<open>Checking a password\<close>

lemma encode_raw_no_dot: "CHR ''.'' \<notin> set (encode_raw a s)"
proof
  assume "CHR ''.'' \<in> set (encode_raw a s)"
  then obtain n where "n < 64" "letter a n = CHR ''.''"
    using split_sextets_bound [of s] by (auto simp: encode_raw_sextets list_all_iff)
  moreover have "value_of a CHR ''.'' = None"
    by (cases a; simp add: value_of_def byte_class_defs)
  ultimately show False using value_of_letter [of n a] by auto
qed

text \<open>The stored form of a password, with a salt of 16 bytes, is accepted for exactly the passwords
  that derive the same key under its salt, the password it was made of in the first place.\<close>

lemma password_check:
  assumes "length salt = 16"
  shows "CheckPassword V (Password V salt p) q \<longleftrightarrow> kdf V q salt = kdf V p salt"
proof -
  have "Split CHR ''.'' (Password V salt p) = [RawStdEncoding salt, RawStdEncoding (kdf V p salt)]"
    by (simp add: Password_def RawStdEncoding_def Split_append_sep Split_single encode_raw_no_dot)
  with assms show ?thesis
    by (auto simp: CheckPassword_def RawStdEncoding_def decode_encode_raw)
qed

theorem password_check_witness:
  "length ''sixteen byte sal'' = 16 \<and>
   CheckPassword sample_env (Password sample_env ''sixteen byte sal'' ''pass'') ''pass'' \<and>
   \<not> CheckPassword sample_env (Password sample_env ''sixteen byte sal'' ''pass'') ''word''"
  using password_check [of "''sixteen byte sal''" sample_env "''pass''"] by (simp add: sample_env_def)

end
