(* ===== verification/Shutdown.thy ===== *)
theory Shutdown
  imports Worker Vault
begin

text \<open>
  The end of \<open>budge server\<close>: \<open>serve\<close> of \<open>cmd/budge/main.go\<close> and what \<open>run\<close> does around it. The process
  serves until a signal arrives or a listener fails; then the servers are closed, the worker is
  cancelled and waited for, and the deferred \<open>db.Close\<close> runs. \<open>http.Server.Close\<close> does not wait for
  handlers, so these go on in any stage.
\<close>

section \<open>The process\<close>

datatype stage = Listening | Draining "error option" | Exited "error option"

text \<open>
  The worker with its slots, whether the context of the signals is done, the channel \<open>errs\<close>, whether
  the listeners are open, the devices of the running calls that hold no slot, and the database file
  with its lock.
\<close>

record process =
  crew :: worker
  signalled :: bool
  serve_errs :: "error list"
  accepting :: bool
  open_calls :: "string list"
  stage :: stage
  db_file :: disk

definition cancel_worker :: "worker \<Rightarrow> worker" where
  "cancel_worker w = w\<lparr>stopping := True\<rparr>"

text \<open>\<open>serve\<close> returns \<open>r\<close>: every server is closed first. \<open>cancelWorker\<close> follows.\<close>

definition serve_returns :: "error option \<Rightarrow> process \<Rightarrow> process" where
  "serve_returns r p = p\<lparr>accepting := False, stage := Draining r, crew := cancel_worker (crew p)\<rparr>"

text \<open>A direct call ends: its audit event needs an open database, and its slot is given back.\<close>

definition direct_returns :: "http_event \<Rightarrow> string \<Rightarrow> string list \<Rightarrow> process \<Rightarrow> process" where
  "direct_returns ev dev others p =
     (let s = server (crew p); s = (if locked (db_file p) then httpAudit ev s else s) in
      p\<lparr>crew := (crew p)\<lparr>server := s\<lparr>limits := release dev (limits s)\<rparr>, direct_calls := others\<rparr>\<rparr>)"

text \<open>
  The steps: a signal, which also ends the context of the worker; the end of one of the two \<open>Serve\<close>
  calls; a new call, its slot, its end; a step of the worker or of the database, which needs the
  database open; the two ways out of \<open>serve\<close>; and \<open><-done\<close> with the deferred calls.
\<close>

inductive proc :: "process \<Rightarrow> process \<Rightarrow> bool" where
  proc_signal:
    "proc p (p\<lparr>signalled := True, crew := cancel_worker (crew p)\<rparr>)"
| proc_serve_error:
    "length (serve_errs p) < 2 \<Longrightarrow> proc p (p\<lparr>serve_errs := serve_errs p @ [e]\<rparr>)"
| proc_accept:
    "accepting p \<Longrightarrow> proc p (p\<lparr>open_calls := dev # open_calls p\<rparr>)"
| proc_reply:
    "open_calls p = xs @ dev # ys \<Longrightarrow> proc p (p\<lparr>open_calls := xs @ ys\<rparr>)"
| proc_slot:
    "open_calls p = xs @ dev # ys \<Longrightarrow> acquire dev (limits (server (crew p))) = (True, l) \<Longrightarrow>
     proc p (p\<lparr>open_calls := xs @ ys, crew := (crew p)\<lparr>server := (server (crew p))\<lparr>limits := l\<rparr>,
       direct_calls := dev # direct_calls (crew p)\<rparr>\<rparr>)"
| proc_direct_done:
    "direct_calls (crew p) = xs @ dev # ys \<Longrightarrow> proc p (direct_returns ev dev (xs @ ys) p)"
| proc_work:
    "work (crew p) w \<Longrightarrow> stopping w = stopping (crew p) \<Longrightarrow> direct_calls w = direct_calls (crew p) \<Longrightarrow>
     locked (db_file p) \<or> store (server w) = store (server (crew p)) \<and>
       http_events (server w) = http_events (server (crew p)) \<Longrightarrow>
     proc p (p\<lparr>crew := w\<rparr>)"
| proc_signal_seen:
    "stage p = Listening \<Longrightarrow> signalled p \<Longrightarrow> proc p (serve_returns None p)"
| proc_error_seen:
    "stage p = Listening \<Longrightarrow> serve_errs p = e # es \<Longrightarrow> proc p (serve_returns (Some e) p)"
| proc_exit:
    "stage p = Draining r \<Longrightarrow> returned (crew p) \<Longrightarrow>
     proc p (p\<lparr>stage := Exited r, db_file := Close (db_file p)\<rparr>)"

inductive_cases proc_elim: "proc p p'"

definition launched :: "process \<Rightarrow> bool" where
  "launched p \<longleftrightarrow> idle (crew p) \<and> \<not> signalled p \<and> serve_errs p = [] \<and> accepting p \<and> open_calls p = [] \<and>
     stage p = Listening \<and> locked (db_file p)"

section \<open>The invariant\<close>

definition cause :: "process \<Rightarrow> error option \<Rightarrow> bool" where
  "cause p r \<longleftrightarrow> (case r of None \<Rightarrow> signalled p | Some e \<Rightarrow> e \<in> set (serve_errs p))"

definition proc_inv :: "process \<Rightarrow> bool" where
  "proc_inv p \<longleftrightarrow> work_inv (crew p) \<and> (returned (crew p) \<longrightarrow> stopping (crew p)) \<and>
     (case stage p of
        Listening \<Rightarrow> accepting p \<and> locked (db_file p)
      | Draining r \<Rightarrow> \<not> accepting p \<and> stopping (crew p) \<and> locked (db_file p) \<and> cause p r
      | Exited r \<Rightarrow> \<not> accepting p \<and> returned (crew p) \<and> \<not> locked (db_file p) \<and> cause p r)"

lemma work_returned: "work w w' \<Longrightarrow> returned w \<longrightarrow> stopping w \<Longrightarrow> returned w' \<longrightarrow> stopping w'"
  by (induction rule: work.induct) auto

lemma work_stays_returned: "work w w' \<Longrightarrow> returned w \<Longrightarrow> returned w'"
  by (induction rule: work.induct) auto

lemma work_inv_cancel [simp]: "work_inv (cancel_worker w) = work_inv w"
  by (simp add: work_inv_def holders_def cancel_worker_def)

lemma cancel_worker_simps [simp]:
  "stopping (cancel_worker w)" "returned (cancel_worker w) = returned w" "jobs (cancel_worker w) = jobs w"
  by (simp_all add: cancel_worker_def)

lemma limits_httpAudit [simp]: "limits (httpAudit ev s) = limits s"
  by (auto simp: httpAudit_def dest: on_store_limits split: prod.splits sum.splits)

lemma work_inv_direct:
  assumes "work_inv w" "direct_calls w = xs @ dev # ys" "limits s = limits (server w)"
  shows "work_inv (w\<lparr>server := s\<lparr>limits := release dev (limits s)\<rparr>, direct_calls := xs @ ys\<rparr>)"
proof -
  from assms(1) have "work_inv (w\<lparr>server := s\<rparr>)" by (rule work_keeps [OF work_database [OF assms(3)]])
  from work_keeps [OF work_direct_done this] assms(2) show ?thesis by fastforce
qed

lemma launched_inv: "launched p \<Longrightarrow> proc_inv p"
  by (auto simp: launched_def proc_inv_def idle_inv idle_def)

lemma proc_keeps: "proc p p' \<Longrightarrow> proc_inv p \<Longrightarrow> proc_inv p'"
proof (induction rule: proc.induct)
  case (proc_slot p xs dev ys l)
  from work_keeps [OF work_direct [OF proc_slot(2)]] proc_slot.prems show ?case
    by (auto simp: proc_inv_def cause_def split: stage.splits option.splits)
next
  case (proc_direct_done p xs dev ys ev)
  let ?s = "if locked (db_file p) then httpAudit ev (server (crew p)) else server (crew p)"
  have "work_inv ((crew p)\<lparr>server := ?s\<lparr>limits := release dev (limits ?s)\<rparr>, direct_calls := xs @ ys\<rparr>)"
    using proc_direct_done by (intro work_inv_direct) (auto simp: proc_inv_def)
  with proc_direct_done.prems show ?case
    by (auto simp: proc_inv_def direct_returns_def cause_def Let_def split: stage.splits option.splits)
next
  case (proc_work p w)
  with work_keeps [OF proc_work(1)] work_returned [OF proc_work(1)] work_stays_returned [OF proc_work(1)] show ?case
    by (auto simp: proc_inv_def cause_def split: stage.splits option.splits)
qed (auto simp: proc_inv_def serve_returns_def Close_def cause_def split: stage.splits option.splits)

lemma proc_reaches_inv: "proc\<^sup>*\<^sup>* p p' \<Longrightarrow> proc_inv p \<Longrightarrow> proc_inv p'"
  by (induction rule: rtranclp_induct) (auto intro: proc_keeps)

section \<open>Stopping\<close>

text \<open>Once the worker is told to stop, its jobs return one by one, then the loop, then the process.\<close>

lemma proc_work_done:
  assumes "locked (db_file p)" "jobs (crew p) = (i, dev) # ys"
  shows "proc p (p\<lparr>crew := (crew p)\<lparr>server := (server (crew p))\<lparr>limits := release dev (limits (server (crew p)))\<rparr>,
    jobs := ys\<rparr>\<rparr>)"
  using work_done [of "crew p" "[]" i dev ys] assms by (intro proc_work) simp_all

lemma proc_work_return:
  assumes "stopping (crew p)" "jobs (crew p) = []"
  shows "proc p (p\<lparr>crew := (crew p)\<lparr>returned := True\<rparr>\<rparr>)"
  using work_return [of "crew p"] assms by (intro proc_work) simp_all

definition exits_in :: "nat \<Rightarrow> process \<Rightarrow> error option \<Rightarrow> bool" where
  "exits_in n p r \<longleftrightarrow> (\<exists>q. (proc ^^ n) p q \<and> stage q = Exited r \<and>
     open_calls q = open_calls p \<and> direct_calls (crew q) = direct_calls (crew p))"

lemma exits_in_now: "stage p = Exited r \<Longrightarrow> exits_in 0 p r"
  by (simp add: exits_in_def)

lemma exits_in_step:
  assumes "proc p q" "open_calls q = open_calls p" "direct_calls (crew q) = direct_calls (crew p)" "exits_in n q r"
  shows "exits_in (Suc n) p r"
  using assms unfolding exits_in_def by (metis relpowp_Suc_I2)

lemma draining_ends:
  assumes "stage p = Draining r" "locked (db_file p)" "stopping (crew p)"
  shows "exits_in (Suc (Suc (length (jobs (crew p))))) p r"
  using assms
proof (induction "jobs (crew p)" arbitrary: p)
  case Nil
  let ?q = "p\<lparr>crew := (crew p)\<lparr>returned := True\<rparr>\<rparr>"
  have "proc p ?q" using Nil by (intro proc_work_return) simp_all
  moreover have "proc ?q (?q\<lparr>stage := Exited r, db_file := Close (db_file ?q)\<rparr>)"
    using Nil by (intro proc_exit) simp_all
  ultimately have "exits_in (Suc (Suc 0)) p r"
    by (elim exits_in_step) (simp_all add: exits_in_now)
  with Nil(1) [symmetric] show ?case by simp
next
  case (Cons job ys)
  obtain i dev where job: "jobs (crew p) = (i, dev) # ys"
    using Cons.hyps(2) by (metis prod.exhaust)
  let ?q = "p\<lparr>crew := (crew p)\<lparr>server := (server (crew p))\<lparr>limits := release dev (limits (server (crew p)))\<rparr>,
    jobs := ys\<rparr>\<rparr>"
  have "proc p ?q" using Cons.prems job by (intro proc_work_done) simp_all
  moreover have "exits_in (Suc (Suc (length ys))) ?q r" using Cons.hyps(1) [of ?q] Cons.prems by simp
  ultimately show ?case by (simp add: job exits_in_step)
qed

text \<open>C19. The server stops in order. While a dispatch runs or a listener is open the database is open and its
  lock is held. When \<open>budge server\<close> returns, no dispatch is left and nothing is accepted any more, and it
  returns the error of a listener or was told to stop. Once it has stopped serving it can always
  return, two steps after the dispatches that run, and without a handler returning: handlers are not
  waited for.\<close>

theorem shutdown_order:
  assumes "launched p" "proc\<^sup>*\<^sup>* p p'"
  shows "(jobs (crew p') \<noteq> [] \<or> accepting p' \<longrightarrow> locked (db_file p')) \<and>
    (\<forall>r. stage p' = Exited r \<longrightarrow> jobs (crew p') = [] \<and> \<not> accepting p' \<and> cause p' r) \<and>
    (\<forall>r. stage p' = Draining r \<longrightarrow> exits_in (length (jobs (crew p')) + 2) p' r)"
proof -
  have "proc_inv p'" by (rule proc_reaches_inv [OF assms(2) launched_inv [OF assms(1)]])
  then show ?thesis
    by (auto simp: proc_inv_def work_inv_def draining_ends split: stage.splits)
qed

section \<open>A call that outlives the database\<close>

text \<open>
  A direct call is being answered when the signal comes. The process returns and closes the database;
  the call ends after that, and although no storage statement fails its audit event is lost.
\<close>

definition early :: process where
  "early = \<lparr>crew = idle_worker, signalled = False, serve_errs = [], accepting = True, open_calls = [],
     stage = Listening, db_file = \<lparr>contents = empty_file, pending = empty_file, locked = True, disk_faults = []\<rparr>\<rparr>"

definition late_event :: http_event where
  "late_event = \<lparr>ev_device = ''a'', ev_service = ''crm'', ev_permission = ''p'', ev_method = ''GET'', ev_status = 200,
     ev_duration = 5, ev_request_bytes = 0, ev_response_bytes = 2\<rparr>"

definition busy :: process where
  "busy = early\<lparr>crew := idle_worker\<lparr>server := (server idle_worker)\<lparr>limits := snd (acquire ''a'' no_slots)\<rparr>,
     direct_calls := [''a'']\<rparr>\<rparr>"

definition gone :: process where
  "gone = (serve_returns None (busy\<lparr>signalled := True\<rparr>))\<lparr>crew := (cancel_worker (crew busy))\<lparr>returned := True\<rparr>,
     stage := Exited None, db_file := Close (db_file early)\<rparr>"

lemma busy_reached: "proc\<^sup>*\<^sup>* early busy"
proof -
  have "proc early (early\<lparr>open_calls := ''a'' # open_calls early\<rparr>)"
    by (rule proc_accept) (simp add: early_def)
  moreover have "proc (early\<lparr>open_calls := ''a'' # open_calls early\<rparr>) busy"
    using proc_slot [of "early\<lparr>open_calls := ''a'' # open_calls early\<rparr>" "[]" "''a''" "[]" "snd (acquire ''a'' no_slots)"]
    by (simp add: early_def busy_def idle_worker_def acquire_def no_slots_def)
  ultimately show ?thesis by (meson converse_rtranclp_into_rtranclp rtranclp.rtrancl_refl)
qed

lemma gone_reached: "proc\<^sup>*\<^sup>* busy gone"
proof -
  let ?s = "busy\<lparr>signalled := True, crew := cancel_worker (crew busy)\<rparr>"
  let ?d = "serve_returns None ?s"
  have "proc busy ?s" by (rule proc_signal)
  moreover have "proc ?s ?d" by (rule proc_signal_seen) (simp_all add: busy_def early_def)
  moreover have "proc ?d (?d\<lparr>crew := (crew ?d)\<lparr>returned := True\<rparr>\<rparr>)"
    by (rule proc_work_return) (simp_all add: serve_returns_def busy_def idle_worker_def)
  moreover have "proc (?d\<lparr>crew := (crew ?d)\<lparr>returned := True\<rparr>\<rparr>) gone"
    using proc_exit [of "?d\<lparr>crew := (crew ?d)\<lparr>returned := True\<rparr>\<rparr>" None]
    by (simp add: serve_returns_def gone_def busy_def early_def cancel_worker_def)
  ultimately show ?thesis by (meson converse_rtranclp_into_rtranclp rtranclp.rtrancl_refl)
qed

theorem shutdown_order_witness:
  "proc\<^sup>*\<^sup>* early gone \<and> stage gone = Exited None \<and> jobs (crew gone) = [] \<and>
   (let q = direct_returns late_event ''a'' [] gone in
      proc gone q \<and> http_events (server (crew q)) = []) \<and>
   http_events (server (crew (direct_returns late_event ''a'' [] busy))) = [late_event]"
proof -
  have r: "proc\<^sup>*\<^sup>* early gone" using busy_reached gone_reached by simp
  have "launched early" by (simp add: launched_def early_def idle_def idle_worker_def)
  from shutdown_order [OF this r] have "jobs (crew gone) = []" by (simp add: gone_def)
  moreover have "proc gone (direct_returns late_event ''a'' [] gone)"
    using proc_direct_done [of gone "[]" "''a''" "[]" late_event]
    by (simp add: gone_def busy_def cancel_worker_def)
  moreover have "http_events (server (crew (direct_returns late_event ''a'' [] gone))) = []"
    by (simp add: direct_returns_def gone_def busy_def early_def Close_def cancel_worker_def idle_worker_def jam_srv_def
        serve_returns_def)
  moreover have "http_events (server (crew (direct_returns late_event ''a'' [] busy))) = [late_event]"
    by (simp add: direct_returns_def busy_def early_def httpAudit_def on_store_def exec_now_def plain_run
        Let_def idle_worker_def jam_srv_def)
  ultimately show ?thesis using r by (simp add: gone_def Let_def)
qed

end
