(* ===== verification/Device_Identity.thy ===== *)
theory Device_Identity
  imports Vault
begin

text \<open>
  The identity of a device: \<open>Save\<close>, \<open>Load\<close> and \<open>Enroll\<close> of \<open>internal/client/client.go\<close> and \<open>Refresh\<close> of
  \<open>renewal.go\<close>. The files are a map from paths to contents; every state of it that a process
  stopped at that moment would leave behind is kept in \<open>seen\<close>, a write passing through all
  prefixes of what it writes. Calls of the operating system fail as given, one \<open>fault\<close> per call;
  a write with \<open>CutAfter n\<close> writes \<open>n\<close> bytes and fails.

  The key derivation and the cipher are those of theory Vault. JSON, PEM and X.509, and the HTTPS
  exchange with the server, are parameters.
\<close>

section \<open>Files\<close>

record fsys =
  files :: "string \<Rightarrow> string option"
  fs_faults :: "fault list"
  seen :: "(string \<Rightarrow> string option) list"

type_synonym 'a fs_op = "fsys \<Rightarrow> (error + 'a) \<times> fsys"

definition fs_fault :: "fsys \<Rightarrow> fault" where
  "fs_fault s = (case fs_faults s of [] \<Rightarrow> NoFault | x # _ \<Rightarrow> x)"

definition fs_tick :: "fsys \<Rightarrow> fsys" where
  "fs_tick s = s\<lparr>fs_faults := tl (fs_faults s)\<rparr>"

definition pass_through :: "(string \<Rightarrow> string option) list \<Rightarrow> fsys \<Rightarrow> fsys" where
  "pass_through fs s = (if fs = [] then s else s\<lparr>files := last fs, seen := seen s @ fs\<rparr>)"

text \<open>\<open>MkdirAll\<close>, \<open>Sync\<close>, opening a directory: calls that do not change the map.\<close>

definition fs_call :: "unit fs_op" where
  "fs_call s = (if fs_fault s = NoFault then (Inr (), fs_tick s) else (Inl DriverErr, fs_tick s))"

text \<open>\<open>O_CREATE|O_EXCL\<close>.\<close>

definition create_file :: "string \<Rightarrow> unit fs_op" where
  "create_file path s =
     (if fs_fault s \<noteq> NoFault \<or> files s path \<noteq> None then (Inl DriverErr, fs_tick s)
      else (Inr (), pass_through [(files s)(path := Some [])] (fs_tick s)))"

definition prefixes_of :: "string \<Rightarrow> string list" where
  "prefixes_of b = map (\<lambda>n. take n b) [0..<Suc (length b)]"

definition write_file :: "string \<Rightarrow> string \<Rightarrow> unit fs_op" where
  "write_file path b s =
     (case fs_fault s of
        NoFault \<Rightarrow> (Inr (), pass_through (map (\<lambda>c. (files s)(path := Some c)) (prefixes_of b)) (fs_tick s))
      | Fail \<Rightarrow> (Inl DriverErr, fs_tick s)
      | CutAfter n \<Rightarrow> (Inl DriverErr,
          pass_through (map (\<lambda>c. (files s)(path := Some c)) (prefixes_of (take n b))) (fs_tick s)))"

definition read_file :: "string \<Rightarrow> string fs_op" where
  "read_file path s =
     (case files s path of
        None \<Rightarrow> (Inl DriverErr, fs_tick s)
      | Some b \<Rightarrow> if fs_fault s = NoFault then (Inr b, fs_tick s) else (Inl DriverErr, fs_tick s))"

definition rename_file :: "string \<Rightarrow> string \<Rightarrow> unit fs_op" where
  "rename_file a b s =
     (if fs_fault s \<noteq> NoFault \<or> files s a = None then (Inl DriverErr, fs_tick s)
      else (Inr (), pass_through [(files s)(a := None, b := files s a)] (fs_tick s)))"

text \<open>\<open>defer os.Remove(..)\<close>: an error is ignored.\<close>

definition remove_after :: "string \<Rightarrow> 'a fs_op \<Rightarrow> 'a fs_op" where
  "remove_after path m s =
     (case m s of (r, s') \<Rightarrow>
        (r, if fs_fault s' \<noteq> NoFault \<or> files s' path = None then fs_tick s'
            else pass_through [(files s')(path := None)] (fs_tick s')))"

section \<open>The identity file\<close>

record identity =
  id_URL :: string
  id_Root :: string
  id_Certificate :: string
  id_PrivateKey :: string
  id_DeviceID :: string

record client_env = vault_env +
  marshal_identity :: "identity \<Rightarrow> string"
  unmarshal_identity :: "string \<Rightarrow> identity option"
  marshal_encrypted :: "int \<Rightarrow> string \<Rightarrow> string \<Rightarrow> string"
  unmarshal_encrypted :: "string \<Rightarrow> (int \<times> string \<times> string) option"
  pem_block :: "string \<Rightarrow> string option"
  parse_leaf :: "string \<Rightarrow> (int \<times> string) option"
  parse_key :: "string \<Rightarrow> string option"
  make_csr :: "string \<Rightarrow> string option"
  key_pair :: "string \<Rightarrow> string \<Rightarrow> string option"
  pool_ok :: "string \<Rightarrow> bool"
  verifies :: "string \<Rightarrow> string \<Rightarrow> bool"
  read_certificate :: "string \<Rightarrow> (string \<times> string) option"
  read_invitation :: "string \<Rightarrow> (string \<times> string \<times> string) option"

definition identity_purpose :: string where
  "identity_purpose = ''budge-client-identity-v1''"

definition identity_file :: "'a client_env_scheme \<Rightarrow> string \<Rightarrow> string \<Rightarrow> string \<Rightarrow> identity \<Rightarrow> string" where
  "identity_file C pass salt nonce i = marshal_encrypted C 1 salt
     (Seal (cipher C (kdf C pass salt)) nonce identity_purpose (marshal_identity C i))"

definition Save :: "'a client_env_scheme \<Rightarrow> string \<Rightarrow> string \<Rightarrow> string \<Rightarrow> string \<Rightarrow> identity \<Rightarrow> unit fs_op" where
  "Save C path pass salt nonce i =
     (if length pass < 12 then fail (Err ''identity passphrase must have at least 12 characters'')
      else
        bind fs_call (\<lambda>_.
        bind (create_file path) (\<lambda>_.
        bind (write_file path (identity_file C pass salt nonce i)) (\<lambda>_. fs_call))))"

definition open_identity :: "'a client_env_scheme \<Rightarrow> string \<Rightarrow> string \<Rightarrow> error + identity" where
  "open_identity C pass b =
     (case unmarshal_encrypted C b of
        None \<Rightarrow> Inl (Err ''invalid identity file'')
      | Some (version, salt, data) \<Rightarrow>
          if version \<noteq> 1 \<or> length salt \<noteq> 16 then Inl (Err ''invalid identity file'')
          else (case Unseal (cipher C (kdf C pass salt)) identity_purpose data of
              Inl _ \<Rightarrow> Inl (Err ''cannot unlock identity'')
            | Inr x \<Rightarrow> (case unmarshal_identity C x of None \<Rightarrow> Inl DriverErr | Some i \<Rightarrow> Inr i)))"

definition Load :: "'a client_env_scheme \<Rightarrow> string \<Rightarrow> string \<Rightarrow> identity fs_op" where
  "Load C path pass =
     bind (read_file path) (\<lambda>b. case open_identity C pass b of Inl e \<Rightarrow> fail e | Inr i \<Rightarrow> ret i)"

section \<open>Enrolment\<close>

definition server_origin :: "string \<Rightarrow> bool" where
  "server_origin raw =
     (case Parse raw of
        None \<Rightarrow> False
      | Some u \<Rightarrow> Scheme u = ''https'' \<and> Host u \<noteq> [] \<and> URLPath u = [] \<and> User u = None \<and> RawQuery u = [] \<and>
          Fragment u = [])"

text \<open>The URL, the root and the secret of an invitation.\<close>

definition open_invitation :: "'a client_env_scheme \<Rightarrow> string \<Rightarrow> error + string \<times> string \<times> string" where
  "open_invitation C text =
     (case decode_raw URLSafe (TrimSpace text) of
        None \<Rightarrow> Inl (Err ''invalid invitation'')
      | Some b \<Rightarrow>
          (case read_invitation C b of
             None \<Rightarrow> Inl (Err ''invalid invitation'')
           | Some (url, root, secret) \<Rightarrow>
               if \<not> server_origin url then Inl (Err ''invalid server origin'')
               else if \<not> pool_ok C root then Inl (Err ''invalid trust root'')
               else Inr (url, root, secret)))"

definition identity_ok :: "'a client_env_scheme \<Rightarrow> identity \<Rightarrow> bool" where
  "identity_ok C i \<longleftrightarrow> key_pair C (id_Certificate i) (id_PrivateKey i) \<noteq> None \<and> pool_ok C (id_Root i)"

definition response_limit :: nat where
  "response_limit = 32 * 1024"

text \<open>\<open>key\<close> is the generated key, \<open>None\<close> when that fails; \<open>post\<close> is the HTTPS exchange: \<open>None\<close> without a connection, else the status and the body.\<close>

definition Enroll :: "'a client_env_scheme \<Rightarrow> string option \<Rightarrow> (string \<Rightarrow> string \<Rightarrow> string \<Rightarrow> (int \<times> string) option) \<Rightarrow>
    string \<Rightarrow> error + identity" where
  "Enroll C key post text =
     (case open_invitation C text of
        Inl e \<Rightarrow> Inl e
      | Inr (url, root, secret) \<Rightarrow>
          (case Option.bind key (make_csr C) of
             None \<Rightarrow> Inl DriverErr
           | Some csr \<Rightarrow>
               (case post (url @ ''/enroll'') secret csr of
                  None \<Rightarrow> Inl (Err ''enrollment connection failed'')
                | Some (st, body) \<Rightarrow>
                    if st \<noteq> 200 then Inl (Err ''enrollment rejected'')
                    else (case read_certificate C (take response_limit body) of
                        None \<Rightarrow> Inl DriverErr
                      | Some (dev, cert) \<Rightarrow>
                          let i = \<lparr>id_URL = url, id_Root = root, id_Certificate = cert, id_PrivateKey = the key,
                            id_DeviceID = dev\<rparr> in
                          if identity_ok C i then Inr i else Inl DriverErr))))"

section \<open>Renewal\<close>

record live =
  live_id :: identity
  live_cert :: string

text \<open>The exchange: a new certificate for the same device and key, verified against the root.\<close>

definition renewed :: "'a client_env_scheme \<Rightarrow> (string \<Rightarrow> string \<Rightarrow> (int \<times> string) option) \<Rightarrow> identity \<Rightarrow>
    error + identity \<times> string" where
  "renewed C post i =
     (case Option.bind (pem_block C (id_PrivateKey i)) (parse_key C) of
        None \<Rightarrow> Inl (if pem_block C (id_PrivateKey i) = None then Err ''invalid local key'' else DriverErr)
      | Some key \<Rightarrow>
          (case make_csr C key of
             None \<Rightarrow> Inl DriverErr
           | Some csr \<Rightarrow>
               (case post (id_URL i @ ''/device/renew'') csr of
                  None \<Rightarrow> Inl (Err ''certificate renewal connection failed'')
                | Some (st, body) \<Rightarrow>
                    if st \<noteq> 200 then Inl (Err ''certificate renewal rejected; check device status'')
                    else (case read_certificate C (take response_limit body) of
                        None \<Rightarrow> Inl (Err ''invalid renewed identity'')
                      | Some (dev, cert) \<Rightarrow>
                          if dev \<noteq> id_DeviceID i then Inl (Err ''invalid renewed identity'')
                          else (case key_pair C cert (id_PrivateKey i) of
                              None \<Rightarrow> Inl DriverErr
                            | Some leaf \<Rightarrow>
                                (case parse_leaf C leaf of
                                   None \<Rightarrow> Inl DriverErr
                                 | Some (not_after, name) \<Rightarrow>
                                     if \<not> verifies C (id_Root i) leaf \<or> name \<noteq> id_DeviceID i
                                     then Inl (Err ''renewed certificate verification failed'')
                                     else Inr (i\<lparr>id_Certificate := cert\<rparr>, leaf)))))))"

definition replace_identity :: "'a client_env_scheme \<Rightarrow> string \<Rightarrow> string \<Rightarrow> string \<Rightarrow> string \<Rightarrow> string \<Rightarrow> identity \<Rightarrow> unit fs_op" where
  "replace_identity C path pass salt nonce temp i =
     bind (Save C temp pass salt nonce i) (\<lambda>_.
     remove_after temp (
       bind (rename_file temp path) (\<lambda>_.
       bind fs_call (\<lambda>_. fs_call))))"

definition Refresh :: "'a client_env_scheme \<Rightarrow> int \<Rightarrow> (string \<Rightarrow> string \<Rightarrow> (int \<times> string) option) \<Rightarrow> string \<Rightarrow> string \<Rightarrow>
    string \<Rightarrow> string \<Rightarrow> string \<Rightarrow> live \<Rightarrow> fsys \<Rightarrow> (error + unit) \<times> live \<times> fsys" where
  "Refresh C now post path pass salt nonce temp l s =
     (case pem_block C (id_Certificate (live_id l)) of
        None \<Rightarrow> (Inl (Err ''invalid local certificate''), l, s)
      | Some block \<Rightarrow>
          (case parse_leaf C block of
             None \<Rightarrow> (Inl DriverErr, l, s)
           | Some (not_after, name) \<Rightarrow>
               if renewal_window < not_after * second - now then (Inr (), l, s)
               else if not_after * second < now
               then (Inl (Err ''device certificate expired; obtain a new invitation''), l, s)
               else (case renewed C post (live_id l) of
                   Inl e \<Rightarrow> (Inl e, l, s)
                 | Inr (i, leaf) \<Rightarrow>
                     (case replace_identity C path pass salt nonce temp i s of
                        (Inl e, s) \<Rightarrow> (Inl e, l, s)
                      | (Inr _, s) \<Rightarrow> (Inr (), \<lparr>live_id = i, live_cert = leaf\<rparr>, s)))))"

end
