(* ===== verification/Connector.thy ===== *)
theory Connector
  imports Handlers Device_Identity
begin

text \<open>
  The two ways in which a device offers its identity to local programs: the HTTP connector on
  127.0.0.1 (\<open>ConnectorTransport\<close> of \<open>internal/client/client.go\<close>) and the Unix socket (\<open>ListenSocket\<close>,
  \<open>SocketTransport\<close> and \<open>SocketClient\<close> of \<open>socket.go\<close>). A handler is a function of the local request;
  the exchange with the server over the device's TLS transport is its argument, and what the
  handler sends is a definition of its own. Calls of the HTTP connector share four slots; their
  concurrent run is the step relation \<open>connector_step\<close>.
\<close>

section \<open>The request target\<close>

text \<open>\<open>URL.RequestURI\<close>.\<close>

definition RequestURI :: "URL \<Rightarrow> string" where
  "RequestURI u =
     (let p = (if Opaque u = [] then (if EscapedPath u = [] then ''/'' else EscapedPath u)
               else if HasPrefix (Opaque u) ''//'' then Scheme u @ '':'' @ Opaque u else Opaque u)
      in p @ (if ForceQuery u \<or> RawQuery u \<noteq> [] then ''?'' @ RawQuery u else []))"

text \<open>
  \<open>url.ParseRequestURI\<close>, by which an HTTP server reads the request line: no fragment, no empty
  text, and an authority only behind a scheme.
\<close>

definition request_hier :: "URL \<Rightarrow> string \<Rightarrow> URL option" where
  "request_hier u rest =
     (if \<not> prefix ''/'' rest then (if Scheme u \<noteq> [] then Some (u\<lparr>Opaque := rest\<rparr>) else None)
      else if Scheme u \<noteq> [] then parse_hier u rest
      else setPath u rest)"

definition ParseRequestURI :: "string \<Rightarrow> URL option" where
  "ParseRequestURI raw =
     (if has_ctl raw \<or> raw = [] then None
      else if raw = ''*'' then Some (empty_URL\<lparr>URLPath := ''*''\<rparr>)
      else (case getScheme raw [] raw of
        None \<Rightarrow> None
      | Some (sch, rest) \<Rightarrow>
          (case parse_query (empty_URL\<lparr>Scheme := ToLower sch\<rparr>) rest of
             (u, rest') \<Rightarrow> request_hier u rest')))"

section \<open>The local HTTP connector\<close>

record local_request = request +
  LocalHost :: string
  LocalBody :: "string \<times> bool"

text \<open>\<open>Refused\<close> is a reply of \<open>http.Error\<close>; \<open>Cut_off\<close> an answer ended by \<open>panic(http.ErrAbortHandler)\<close>.\<close>

datatype local_reply = Refused int string | Relayed int header string | Cut_off int header string

definition connector_host :: "string \<Rightarrow> bool" where
  "connector_host host = (case SplitHostPort host of
     None \<Rightarrow> False | Some (h, p) \<Rightarrow> h = ''127.0.0.1'' \<and> p \<noteq> [])"

definition foreign_caller :: "string \<Rightarrow> local_request \<Rightarrow> bool" where
  "foreign_caller host r \<longleftrightarrow> LocalHost r \<noteq> host \<or> Get (ReqHeader r) ''Origin'' \<noteq> [] \<or>
     Get (ReqHeader r) ''Sec-Fetch-Site'' \<noteq> [] \<or> Get (ReqHeader r) ''Access-Control-Request-Method'' \<noteq> []"

definition caller_header :: "header \<Rightarrow> header" where
  "caller_header h = Del (Del (Del h ''Authorization'') ''Proxy-Authorization'') ''Cookie''"

text \<open>
  The slots of \<open>ConnectorTransport\<close> are a channel of capacity four, of which only the number of values
  in it matters: a call puts one in, or is turned away where that would block, and takes one out
  when it returns, whichever way (\<open>defer\<close>).
\<close>

definition take_token :: "nat \<Rightarrow> nat option" where
  "take_token n = (if n < 4 then Some (Suc n) else None)"

definition give_token :: "nat \<Rightarrow> nat" where
  "give_token n = n - 1"

text \<open>What a call does before it asks for a slot, and with the slot until it sends.\<close>

definition connector_refuses :: "string \<Rightarrow> local_request \<Rightarrow> local_reply option" where
  "connector_refuses host r =
     (if foreign_caller host r then Some (Refused 403 ''local caller rejected'')
      else if Route (request.truncate r) = None then Some (Refused 400 ''invalid request'')
      else None)"

definition connector_request :: "identity \<Rightarrow> local_request \<Rightarrow> local_reply + outgoing" where
  "connector_request i r =
     (case read_all (8 * 1024 * 1024) (LocalBody r) of
        None \<Rightarrow> Inl (Refused 413 ''body too large'')
      | Some b \<Rightarrow>
          (case new_request (ReqMethod r) (id_URL i @ RequestURI (ReqURL r)) (caller_header (ReqHeader r)) b of
             None \<Rightarrow> Inl (Refused 400 ''invalid request'')
           | Some q \<Rightarrow> Inr q))"

definition overloaded_reply :: local_reply where
  "overloaded_reply = Refused 429 ''connector overloaded''"

text \<open>What is sent for a call that finds \<open>n\<close> slots taken, or the error it answers.\<close>

definition connector_sends :: "identity \<Rightarrow> string \<Rightarrow> nat \<Rightarrow> local_request \<Rightarrow> local_reply + outgoing" where
  "connector_sends i host n r =
     (case connector_refuses host r of
        Some e \<Rightarrow> Inl e
      | None \<Rightarrow> (case take_token n of None \<Rightarrow> Inl overloaded_reply | Some _ \<Rightarrow> connector_request i r))"

text \<open>The answer is streamed with all its header names; \<open>None\<close> while it is still being copied.\<close>

definition relay :: "response \<Rightarrow> (string \<times> read_end) list \<Rightarrow> (nat \<times> bool) list \<Rightarrow> local_reply option" where
  "relay res rds wrs =
     (case Stream res (map fst (ResHeader res)) rds wrs of
        (st, h, None) \<Rightarrow> None
      | (st, h, Some (n, out, torn)) \<Rightarrow> Some (if torn then Cut_off st h out else Relayed st h out))"

definition unavailable_reply :: local_reply where
  "unavailable_reply = Refused 502 ''Budge connection unavailable''"

text \<open>
  The handler for one call with nothing in between: its reply, and the slots as it leaves them.
\<close>

definition Connector :: "identity \<Rightarrow> string \<Rightarrow> (outgoing \<Rightarrow> exchange) \<Rightarrow> (string \<times> read_end) list \<Rightarrow>
    (nat \<times> bool) list \<Rightarrow> local_request \<Rightarrow> nat \<Rightarrow> (local_reply \<times> nat) option" where
  "Connector i host server rds wrs r n =
     (case connector_refuses host r of
        Some e \<Rightarrow> Some (e, n)
      | None \<Rightarrow>
          (case take_token n of
             None \<Rightarrow> Some (overloaded_reply, n)
           | Some n' \<Rightarrow>
               map_option (\<lambda>rep. (rep, give_token n'))
                 (case connector_request i r of
                    Inl e \<Rightarrow> Some e
                  | Inr q \<Rightarrow>
                      (case server q of
                         DoErr _ \<Rightarrow> Some unavailable_reply
                       | DoOk res \<Rightarrow> relay res rds wrs))))"

definition ConnectorTransport :: "identity \<Rightarrow> string \<Rightarrow>
    error + ((outgoing \<Rightarrow> exchange) \<Rightarrow> (string \<times> read_end) list \<Rightarrow> (nat \<times> bool) list \<Rightarrow> local_request \<Rightarrow>
      nat \<Rightarrow> (local_reply \<times> nat) option)" where
  "ConnectorTransport i host =
     (if \<not> connector_host host then Inl (Err ''connector must bind 127.0.0.1'') else Inr (Connector i host))"

text \<open>
  Calls run concurrently and share only the slots. The state of the handler is the number of values
  in the channel, the calls with how far each has come, and, as history, what was sent for whom.
  Each rule is the part of the handler up to the next wait: for the slot, for the body, for the
  answer, for the end of the copy.
\<close>

datatype call_stage = Arrived | Holding | Asked outgoing | Copying response | Replied local_reply

record connector_state =
  tokens :: nat
  local_calls :: "(local_request \<times> call_stage) list"
  forwarded :: "(local_request \<times> outgoing) list"

definition fresh_connector :: connector_state where
  "fresh_connector = \<lparr>tokens = 0, local_calls = [], forwarded = []\<rparr>"

inductive connector_step :: "identity \<Rightarrow> string \<Rightarrow> connector_state \<Rightarrow> connector_state \<Rightarrow> bool" for i host where
  call_arrives:
    "connector_step i host c (c\<lparr>local_calls := local_calls c @ [(r, Arrived)]\<rparr>)"
| call_refused:
    "local_calls c = xs @ (r, Arrived) # ys \<Longrightarrow> connector_refuses host r = Some e \<Longrightarrow>
     connector_step i host c (c\<lparr>local_calls := xs @ (r, Replied e) # ys\<rparr>)"
| call_turned_away:
    "local_calls c = xs @ (r, Arrived) # ys \<Longrightarrow> connector_refuses host r = None \<Longrightarrow> take_token (tokens c) = None \<Longrightarrow>
     connector_step i host c (c\<lparr>local_calls := xs @ (r, Replied overloaded_reply) # ys\<rparr>)"
| call_admitted:
    "local_calls c = xs @ (r, Arrived) # ys \<Longrightarrow> connector_refuses host r = None \<Longrightarrow> take_token (tokens c) = Some n \<Longrightarrow>
     connector_step i host c (c\<lparr>tokens := n, local_calls := xs @ (r, Holding) # ys\<rparr>)"
| call_unfit:
    "local_calls c = xs @ (r, Holding) # ys \<Longrightarrow> connector_request i r = Inl e \<Longrightarrow>
     connector_step i host c (c\<lparr>tokens := give_token (tokens c), local_calls := xs @ (r, Replied e) # ys\<rparr>)"
| call_sent:
    "local_calls c = xs @ (r, Holding) # ys \<Longrightarrow> connector_request i r = Inr q \<Longrightarrow>
     connector_step i host c (c\<lparr>local_calls := xs @ (r, Asked q) # ys, forwarded := forwarded c @ [(r, q)]\<rparr>)"
| call_unanswered:
    "local_calls c = xs @ (r, Asked q) # ys \<Longrightarrow>
     connector_step i host c (c\<lparr>tokens := give_token (tokens c), local_calls := xs @ (r, Replied unavailable_reply) # ys\<rparr>)"
| call_answered:
    "local_calls c = xs @ (r, Asked q) # ys \<Longrightarrow>
     connector_step i host c (c\<lparr>local_calls := xs @ (r, Copying res) # ys\<rparr>)"
| call_returns:
    "local_calls c = xs @ (r, Copying res) # ys \<Longrightarrow> relay res rds wrs = Some rep \<Longrightarrow>
     connector_step i host c (c\<lparr>tokens := give_token (tokens c), local_calls := xs @ (r, Replied rep) # ys\<rparr>)"

text \<open>The calls that hold a slot.\<close>

fun in_flight :: "call_stage \<Rightarrow> bool" where
  "in_flight Arrived = False"
| "in_flight (Replied rep) = False"
| "in_flight stage = True"

section \<open>The socket\<close>

definition socket_path :: "string \<Rightarrow> string \<Rightarrow> string option" where
  "socket_path m p =
     (if m = ''GET'' \<and> p = ''/services'' then Some ''/device/services''
      else if m = ''POST'' \<and> p = ''/request'' then Some ''/device/request''
      else if m = ''POST'' \<and> p = ''/status'' then Some ''/device/status''
      else None)"

text \<open>\<open>http.MaxBytesReader\<close> as a body: the bytes up to the limit, and an error after them.\<close>

definition limited :: "nat \<Rightarrow> string \<times> bool \<Rightarrow> string \<times> bool" where
  "limited limit b = (take limit (fst b), snd b \<and> length (fst b) \<le> limit)"

definition socket_sends :: "identity \<Rightarrow> local_request \<Rightarrow> local_reply + outgoing \<times> bool" where
  "socket_sends i r =
     (case socket_path (ReqMethod r) (URLPath (ReqURL r)) of
        None \<Rightarrow> Inl (Refused 404 ''unknown connector operation'')
      | Some path \<Rightarrow>
          (case limited (512 * 1024) (LocalBody r) of
             (b, whole) \<Rightarrow>
               (case new_request (ReqMethod r) (id_URL i @ path) (Set [] ''Content-Type'' ''application/json'') b of
                  None \<Rightarrow> Inl (Refused 400 ''invalid request'')
                | Some q \<Rightarrow> Inr (q, whole))))"

text \<open>The copy of the answer stops without an error at 2 MiB, or where a read fails.\<close>

definition SocketTransport :: "identity \<Rightarrow> (outgoing \<Rightarrow> bool \<Rightarrow> exchange) \<Rightarrow> local_request \<Rightarrow> local_reply" where
  "SocketTransport i server r =
     (case socket_sends i r of
        Inl e \<Rightarrow> e
      | Inr (q, whole) \<Rightarrow>
          (case server q whole of
             DoErr _ \<Rightarrow> Refused 502 ''Budge connection unavailable''
           | DoOk res \<Rightarrow> Relayed (StatusCode res) (Set [] ''Content-Type'' ''application/json'')
               (take (2 * 1024 * 1024) (fst (ResBody res)))))"

text \<open>What \<open>Lstat\<close> tells of a file: its kind, its permission bits, its owner.\<close>

datatype file_kind = Directory | Socket | Other

record file_info =
  fi_kind :: file_kind
  fi_perm :: "32 word"
  fi_uid :: "32 word"

definition owned_only :: "32 word \<Rightarrow> file_info \<Rightarrow> bool" where
  "owned_only uid st \<longleftrightarrow> \<not> (and (fi_perm st) 0x3F \<noteq> 0 \<or> fi_uid st \<noteq> uid)"

text \<open>The calls of \<open>ListenSocket\<close> in order; each argument says how one of them ends.\<close>

datatype listener = Listening "32 word"

definition ListenSocket :: "32 word \<Rightarrow> bool \<Rightarrow> file_info option \<Rightarrow> bool \<Rightarrow> bool \<Rightarrow> error + listener" where
  "ListenSocket uid mkdir dir listen chmod =
     (if \<not> mkdir then Inl DriverErr
      else (case dir of
          None \<Rightarrow> Inl DriverErr
        | Some st \<Rightarrow>
            if \<not> (fi_kind st = Directory \<and> owned_only uid st)
            then Inl (Err ''socket directory must be user-owned with mode 0700'')
            else if \<not> listen
            then Inl (Err ''cannot create connector socket; stop any running connector and remove a stale socket if necessary'')
            else if \<not> chmod then Inl DriverErr
            else Inr (Listening 0x180)))"

definition SocketClient :: "32 word \<Rightarrow> file_info option \<Rightarrow> file_info option \<Rightarrow> error + unit" where
  "SocketClient uid parent sock =
     (case parent of
        None \<Rightarrow> Inl (Err ''connector directory ownership or mode is unsafe'')
      | Some d \<Rightarrow>
          if \<not> (fi_kind d = Directory \<and> owned_only uid d)
          then Inl (Err ''connector directory ownership or mode is unsafe'')
          else (case sock of
              None \<Rightarrow> Inl (Err ''connector socket unavailable; start budge connect'')
            | Some st \<Rightarrow>
                if \<not> (fi_kind st = Socket \<and> owned_only uid st)
                then Inl (Err ''connector socket ownership or mode is unsafe'')
                else Inr ()))"

end
