(* ===== verification/Connector_Facts.thy ===== *)
theory Connector_Facts
  imports Connector Device_Calls
begin

text \<open>
  Facts on the connectors: the target of a forwarded request is read by the server as the local
  caller wrote it, what the HTTP connector lets through and how many calls at a time, and what the socket can ask for.
\<close>

section \<open>The target on its way to the server\<close>

text \<open>What the server reads in the request line of a request for \<open>origin @ target\<close>.\<close>

definition arrives :: "string \<Rightarrow> URL option" where
  "arrives raw = (case Parse raw of None \<Rightarrow> None | Some u \<Rightarrow> ParseRequestURI (RequestURI u))"

definition clean_origin :: "string \<Rightarrow> bool" where
  "clean_origin raw \<longleftrightarrow> server_origin raw \<and> \<not> ContainsAny raw ''?#''"

lemma getScheme_append:
  "getScheme raw acc s = Some (sch, rest) \<Longrightarrow> sch \<noteq> [] \<Longrightarrow>
     getScheme (raw @ t) acc (s @ t) = Some (sch, rest @ t)"
  by (induction raw acc s rule: getScheme.induct) (auto split: if_splits)

lemma getScheme_rest:
  "getScheme raw acc s = Some (sch, rest) \<Longrightarrow> set rest \<subseteq> set raw \<union> set s"
  by (induction raw acc s rule: getScheme.induct) (auto split: if_splits)

lemma unescape_empty: "unescape encodePath s = Some [] \<Longrightarrow> s = []"
  by (cases s) (auto split: if_splits list.splits)

lemma parse_hier_Scheme: "parse_hier u rest = Some v \<Longrightarrow> Scheme v = Scheme u"
  by (auto simp: parse_hier_def setPath_def Let_def split: if_splits option.splits prod.splits)

lemma clean_origin_parts:
  assumes "clean_origin raw"
  obtains sch hp h where "getScheme raw [] raw = Some (sch, ''//'' @ hp)" "ToLower sch = ''https''"
    "CHR ''/'' \<notin> set hp" "CHR ''?'' \<notin> set hp" "parseAuthority hp = Some (None, h)" "\<not> has_ctl raw"
    "CHR ''#'' \<notin> set raw"
proof -
  obtain u where u: "Parse raw = Some u" "Scheme u = ''https''" "Host u \<noteq> []" "URLPath u = []" "User u = None"
    using assms by (auto simp: clean_origin_def server_origin_def split: option.splits)
  have free: "CHR ''?'' \<notin> set raw" "CHR ''#'' \<notin> set raw"
    using assms by (auto simp: clean_origin_def ContainsAny_def list_ex_iff)
  have up: "url_parse raw = Some u"
    using u(1) free(2) by (simp add: Parse_def Cut_missing split: option.splits)
  have ctl: "\<not> has_ctl raw" using up by (auto simp: url_parse_def split: if_splits)
  have "raw \<noteq> ''*''" using up u(2) ctl by (auto simp: url_parse_def empty_URL_def)
  then obtain sch rest where g: "getScheme raw [] raw = Some (sch, rest)"
    and h: "(case parse_query (empty_URL\<lparr>Scheme := ToLower sch\<rparr>) rest of (u, rest') \<Rightarrow> parse_hier u rest') = Some u"
    using up ctl by (auto simp: url_parse_def split: option.splits prod.splits)
  have "CHR ''?'' \<notin> set rest" using getScheme_rest [OF g] free(1) by auto
  then have q: "parse_hier (empty_URL\<lparr>Scheme := ToLower sch, RawQuery := []\<rparr>) rest = Some u"
    using h parse_query_append [of rest _ "[]"] by simp
  let ?u = "empty_URL\<lparr>Scheme := ToLower sch, RawQuery := []\<rparr>" and ?a = "drop 2 rest"
  have slashes: "prefix ''//'' rest"
    using q u(3) by (auto simp: parse_hier_def empty_URL_def setPath_def split: if_splits option.splits)
  obtain hp where hp: "rest = ''//'' @ hp" using slashes by (auto simp: prefix_def)
  let ?aut = "takeWhile (\<lambda>c. c \<noteq> CHR ''/'') hp" and ?path = "dropWhile (\<lambda>c. c \<noteq> CHR ''/'') hp"
  have sch: "ToLower sch \<noteq> []" using parse_hier_Scheme [OF q] u(2) by auto
  have "parse_hier ?u rest = (case parseAuthority ?aut of None \<Rightarrow> None
      | Some (usr, h) \<Rightarrow> setPath (?u\<lparr>User := usr, Host := h\<rparr>) ?path)"
    using hp sch by (simp add: parse_hier_def Let_def)
  with q obtain usr h where a: "parseAuthority ?aut = Some (usr, h)"
    and s: "setPath (?u\<lparr>User := usr, Host := h\<rparr>) ?path = Some u"
    by (auto split: option.splits prod.splits)
  have f: "usr = None" "ToLower sch = ''https''" "unescape encodePath ?path = Some []"
    using s u(2,4,5) by (auto simp: setPath_def empty_URL_def split: option.splits)
  have n: "CHR ''/'' \<notin> set hp" using unescape_empty [OF f(3)] unfolding dropWhile_eq_Nil_conv by blast
  with f show ?thesis
    using that [of sch hp h] g a ctl free hp \<open>CHR ''?'' \<notin> set rest\<close> by (simp add: takeWhile_all)
qed

definition query_part :: "bool \<Rightarrow> string \<Rightarrow> string" where
  "query_part force q = (if force \<or> q \<noteq> [] then ''?'' @ q else [])"

lemma parse_query_part:
  assumes "CHR ''?'' \<notin> set x" and "force \<Longrightarrow> q = []"
  shows "parse_query (u\<lparr>RawQuery := [], ForceQuery := False\<rparr>) (x @ query_part force q) =
    (u\<lparr>RawQuery := q, ForceQuery := force\<rparr>, x)"
proof (cases force)
  case True
  have "count_list x CHR ''?'' = 0" using assms(1) by (simp add: count_list_0_iff)
  then show ?thesis using True assms(2) by (simp add: query_part_def parse_query_def)
next
  case False
  then show ?thesis
    using parse_query_append [OF assms(1), of "u\<lparr>RawQuery := [], ForceQuery := False\<rparr>" q]
    by (simp add: query_part_def)
qed

lemma RequestURI_hier:
  assumes "Opaque u = []" and "RawPath u = []" and "URLPath u = CHR ''/'' # p"
  shows "RequestURI u = escape encodePath (URLPath u) @ query_part (ForceQuery u) (RawQuery u)"
  using assms by (simp add: RequestURI_def EscapedPath_def query_part_def escape_leading_slash)

lemma ParseRequestURI_target:
  assumes "p = CHR ''/'' # p'" and "\<not> has_ctl q" and "force \<Longrightarrow> q = []"
  shows "ParseRequestURI (escape encodePath p @ query_part force q) =
    Some (empty_URL\<lparr>URLPath := p, ForceQuery := force, RawQuery := q\<rparr>)"
proof -
  let ?x = "escape encodePath p" and ?raw = "escape encodePath p @ query_part force q"
  have x: "?x = CHR ''/'' # escape encodePath p'" by (simp add: assms(1) escape_leading_slash)
  have ctl: "\<not> has_ctl ?raw"
    using assms(2) by (simp add: has_ctl_append query_part_def) (simp add: has_ctl_def)
  have g: "getScheme ?raw [] ?raw = Some ([], ?raw)"
    by (simp add: x byte_class_defs)
  have "parse_query (empty_URL\<lparr>Scheme := ToLower []\<rparr>) ?raw =
      (empty_URL\<lparr>RawQuery := q, ForceQuery := force\<rparr>, ?x)"
    using parse_query_part [of ?x force q empty_URL] assms(3)
    by (simp add: escape_excludes empty_URL_def ToLower_def)
  then show ?thesis
    using ctl g by (simp add: ParseRequestURI_def request_hier_def x)
      (simp add: x [symmetric] setPath_escape empty_URL_def)
qed

lemma Parse_target:
  assumes "clean_origin raw" and "p = CHR ''/'' # p'" and "\<not> has_ctl q" and "CHR ''#'' \<notin> set q"
    and "force \<Longrightarrow> q = []"
  obtains h where "Parse (raw @ escape encodePath p @ query_part force q) =
    Some (empty_URL\<lparr>Scheme := ''https'', Host := h, URLPath := p, ForceQuery := force, RawQuery := q\<rparr>)"
proof -
  obtain sch hp h where o: "getScheme raw [] raw = Some (sch, ''//'' @ hp)" "ToLower sch = ''https''"
    "CHR ''/'' \<notin> set hp" "CHR ''?'' \<notin> set hp" "parseAuthority hp = Some (None, h)" "\<not> has_ctl raw"
    "CHR ''#'' \<notin> set raw"
    using clean_origin_parts [OF assms(1)] by blast
  let ?ep = "escape encodePath p"
  let ?t = "?ep @ query_part force q"
  have ep: "?ep = CHR ''/'' # escape encodePath p'" by (simp add: assms(2) escape_leading_slash)
  have "CHR ''#'' \<notin> set (raw @ ?t)" using o(7) assms(4) by (simp add: query_part_def escape_excludes)
  then have P: "Parse (raw @ ?t) = url_parse (raw @ ?t)"
    by (simp add: Parse_def Cut_missing split: option.splits)
  have ctl: "\<not> has_ctl (raw @ ?t)"
    using o(6) assms(3) by (simp add: has_ctl_append query_part_def) (simp add: has_ctl_def)
  have "sch \<noteq> []" using o(2) by (auto simp: ToLower_def)
  then have g: "getScheme (raw @ ?t) [] (raw @ ?t) = Some (sch, (''//'' @ hp @ ?ep) @ query_part force q)"
    using getScheme_append [OF o(1), of ?t] by simp
  let ?u = "empty_URL\<lparr>Scheme := ''https'', RawQuery := q, ForceQuery := force\<rparr>"
  have pq: "parse_query (empty_URL\<lparr>Scheme := ToLower sch\<rparr>) ((''//'' @ hp @ ?ep) @ query_part force q) =
      (?u, ''//'' @ hp @ ?ep)"
    using parse_query_part [of "''//'' @ hp @ ?ep" force q "empty_URL\<lparr>Scheme := ''https''\<rparr>"] o(2,4) assms(5)
    by (simp add: escape_excludes empty_URL_def)
  have "takeWhile (\<lambda>c. c \<noteq> CHR ''/'') (hp @ ?ep) = hp" "dropWhile (\<lambda>c. c \<noteq> CHR ''/'') (hp @ ?ep) = ?ep"
    using o(3) by (simp_all add: ep takeWhile_stop dropWhile_stop)
  then have "parse_hier ?u (''//'' @ hp @ ?ep) =
      Some (empty_URL\<lparr>Scheme := ''https'', Host := h, URLPath := p, ForceQuery := force, RawQuery := q\<rparr>)"
    using o(5) by (simp add: parse_hier_def setPath_escape empty_URL_def)
  moreover have "raw @ ?t \<noteq> ''*''"
    using ep by (auto simp: append_eq_Cons_conv)
  ultimately have "url_parse (raw @ ?t) =
      Some (empty_URL\<lparr>Scheme := ''https'', Host := h, URLPath := p, ForceQuery := force, RawQuery := q\<rparr>)"
    using ctl g pq by (simp only: url_parse_def if_False option.case prod.case)
  then show ?thesis using that P by simp
qed

lemma arrives_target:
  assumes "clean_origin raw" and "p = CHR ''/'' # p'" and "\<not> has_ctl q" and "CHR ''#'' \<notin> set q"
    and "force \<Longrightarrow> q = []"
  shows "arrives (raw @ escape encodePath p @ query_part force q) =
    Some (empty_URL\<lparr>URLPath := p, ForceQuery := force, RawQuery := q\<rparr>)"
proof -
  obtain h where h: "Parse (raw @ escape encodePath p @ query_part force q) =
    Some (empty_URL\<lparr>Scheme := ''https'', Host := h, URLPath := p, ForceQuery := force, RawQuery := q\<rparr>)"
    using Parse_target [OF assms] by blast
  let ?u = "empty_URL\<lparr>Scheme := ''https'', Host := h, URLPath := p, ForceQuery := force, RawQuery := q\<rparr>"
  have "RequestURI ?u = escape encodePath p @ query_part force q"
    using RequestURI_hier [where u = ?u and p = p'] assms(2) by (simp add: empty_URL_def)
  then show ?thesis
    using ParseRequestURI_target [OF assms(2,3,5)] unfolding arrives_def h by simp
qed

lemma has_ctl_subset: "\<not> has_ctl s \<Longrightarrow> set t \<subseteq> set s \<Longrightarrow> \<not> has_ctl t"
  by (auto simp: has_ctl_def list_ex_iff)

lemma parse_query_fields:
  assumes "parse_query (empty_URL\<lparr>Scheme := c\<rparr>) rest = (u, rest')"
  shows "Scheme u = c \<and> Opaque u = [] \<and> User u = None \<and> Host u = [] \<and> Fragment u = [] \<and>
    (ForceQuery u \<longrightarrow> RawQuery u = []) \<and> set (RawQuery u) \<subseteq> set rest"
  using assms by (auto simp: parse_query_def empty_URL_def Cut_def split: if_splits
      dest!: in_set_dropD dest: set_dropWhileD)

lemma ParseRequestURI_origin_form:
  assumes "ParseRequestURI line = Some u" and "Scheme u = []" and "RawPath u = []" and "HasPrefix (URLPath u) ''/s/''"
  shows "u = empty_URL\<lparr>URLPath := URLPath u, ForceQuery := ForceQuery u, RawQuery := RawQuery u\<rparr> \<and>
    \<not> has_ctl (RawQuery u) \<and> (ForceQuery u \<longrightarrow> RawQuery u = []) \<and> set (RawQuery u) \<subseteq> set line"
proof -
  have "u \<noteq> empty_URL\<lparr>URLPath := ''*''\<rparr>" using assms(4) by (auto simp: HasPrefix_iff)
  then obtain sch rest u0 path where ctl: "\<not> has_ctl line"
    and g: "getScheme line [] line = Some (sch, rest)"
    and pq: "parse_query (empty_URL\<lparr>Scheme := ToLower sch\<rparr>) rest = (u0, path)"
    and h: "request_hier u0 path = Some u"
    using assms(1) by (auto simp: ParseRequestURI_def split: if_splits option.splits prod.splits)
  have q: "Scheme u0 = ToLower sch \<and> Opaque u0 = [] \<and> User u0 = None \<and> Host u0 = [] \<and> Fragment u0 = [] \<and>
    (ForceQuery u0 \<longrightarrow> RawQuery u0 = []) \<and> set (RawQuery u0) \<subseteq> set rest"
    using parse_query_fields [OF pq] .
  have "Scheme u = Scheme u0"
    using h by (auto simp: request_hier_def setPath_def dest: parse_hier_Scheme split: if_splits option.splits)
  with h assms(2) have "setPath u0 path = Some u"
    by (auto simp: request_hier_def split: if_splits)
  then obtain p rp where "u = u0\<lparr>URLPath := p, RawPath := rp\<rparr>"
    by (auto simp: setPath_def split: option.splits)
  with q assms(2,3) have "u = empty_URL\<lparr>URLPath := URLPath u, ForceQuery := ForceQuery u, RawQuery := RawQuery u\<rparr>"
    "ForceQuery u \<longrightarrow> RawQuery u = []" "set (RawQuery u) \<subseteq> set line"
    using getScheme_rest [OF g] by (auto simp: empty_URL_def)
  with ctl show ?thesis using has_ctl_subset by blast
qed

section \<open>What the connectors send\<close>

lemma connector_sends_iff:
  "connector_sends i host busy r = Inr q \<longleftrightarrow>
     \<not> foreign_caller host r \<and> Route (request.truncate r) \<noteq> None \<and> busy < 4 \<and>
     read_all (8 * 1024 * 1024) (LocalBody r) = Some (fst (LocalBody r)) \<and>
     new_request (ReqMethod r) (id_URL i @ RequestURI (ReqURL r)) (caller_header (ReqHeader r)) (fst (LocalBody r)) = Some q"
  by (auto simp: connector_sends_def connector_refuses_def take_token_def connector_request_def read_all_def
      split: option.splits)

lemma new_request_fields:
  "new_request m t h b = Some q \<Longrightarrow> m \<noteq> [] \<Longrightarrow> q = \<lparr>out_Method = m, out_URL = t, out_Header = h, out_Body = b\<rparr>"
  by (auto simp: new_request_def split: if_splits)

lemma Route_Some:
  "Route r \<noteq> None \<Longrightarrow> Scheme (ReqURL r) = [] \<and> RawPath (ReqURL r) = [] \<and> Method (ReqMethod r) \<and>
     HasPrefix (URLPath (ReqURL r)) ''/s/''"
  by (auto simp: Route_def split: if_splits)

lemma Route_same:
  assumes "ReqMethod a = ReqMethod b" and "ReqURL a = ReqURL b"
    and "Get (ReqHeader a) ''Upgrade'' = Get (ReqHeader b) ''Upgrade''"
  shows "Route a = Route b"
  using assms by (simp add: Route_def)

lemma credential_names:
  "CanonicalHeaderKey ''Proxy-Authorization'' = ''Proxy-Authorization''"
  "CanonicalHeaderKey ''Cookie'' = ''Cookie''" "CanonicalHeaderKey ''Upgrade'' = ''Upgrade''"
  by code_simp+

lemma Values_caller_header:
  "Values (caller_header h) k =
     (if CanonicalHeaderKey k \<in> {''Authorization'', ''Proxy-Authorization'', ''Cookie''} then [] else Values h k)"
  by (simp add: caller_header_def credential_names)

lemma connector_sends_fields:
  assumes "connector_sends i host busy r = Inr q"
  shows "q = \<lparr>out_Method = ReqMethod r, out_URL = id_URL i @ RequestURI (ReqURL r),
    out_Header = caller_header (ReqHeader r), out_Body = fst (LocalBody r)\<rparr>"
proof -
  have "ReqMethod r \<noteq> []"
    using assms Route_Some [of "request.truncate r"]
    by (auto simp: connector_sends_iff request.truncate_def Method_def)
  with assms show ?thesis by (auto simp: connector_sends_iff dest: new_request_fields)
qed

lemma connector_sends_confined:
  assumes "connector_sends i host n r = Inr q"
  shows "LocalHost r = host \<and> Get (ReqHeader r) ''Origin'' = [] \<and> Get (ReqHeader r) ''Sec-Fetch-Site'' = [] \<and>
    Get (ReqHeader r) ''Access-Control-Request-Method'' = [] \<and>
    Route (request.truncate r) \<noteq> None \<and> length (fst (LocalBody r)) \<le> 8 * 1024 * 1024 \<and> snd (LocalBody r) \<and>
    out_Method q = ReqMethod r \<and> out_Body q = fst (LocalBody r) \<and>
    out_URL q = id_URL i @ RequestURI (ReqURL r) \<and>
    (\<forall>k. Values (out_Header q) k =
      (if CanonicalHeaderKey k \<in> {''Authorization'', ''Proxy-Authorization'', ''Cookie''} then []
       else Values (ReqHeader r) k))"
proof -
  have "\<not> foreign_caller host r \<and> Route (request.truncate r) \<noteq> None \<and>
      read_all (8 * 1024 * 1024) (LocalBody r) = Some (fst (LocalBody r))"
    using assms by (simp add: connector_sends_iff)
  then show ?thesis
    using connector_sends_fields [OF assms]
    by (auto simp: foreign_caller_def read_all_def Values_caller_header split: if_splits)
qed

text \<open>The slots count the calls in flight, and what was sent passed the checks.\<close>

definition connector_inv :: "identity \<Rightarrow> string \<Rightarrow> connector_state \<Rightarrow> bool" where
  "connector_inv i host c \<longleftrightarrow> tokens c = length (filter (in_flight \<circ> snd) (local_calls c)) \<and> tokens c \<le> 4 \<and>
     (\<forall>(r, p) \<in> set (local_calls c). in_flight p \<longrightarrow> connector_refuses host r = None) \<and>
     (\<forall>(r, q) \<in> set (forwarded c). connector_refuses host r = None \<and> connector_request i r = Inr q)"

interpretation connector: invariant "\<lambda>c. c = fresh_connector" "connector_step i host" "connector_inv i host" for i host
proof
  fix c c' assume "connector_inv i host c" "connector_step i host c c'"
  from this(2,1) show "connector_inv i host c'"
    by cases (auto simp: connector_inv_def take_token_def give_token_def split: if_splits)
qed (simp add: connector_inv_def fresh_connector_def)

text \<open>A call on its own is a run, and it leaves the slots as it found them.\<close>

lemma connector_call_runs:
  assumes "Connector i host server rds wrs r (tokens c) = Some (rep, n)"
  shows "n = tokens c \<and> (\<exists>qs. (connector_step i host)\<^sup>*\<^sup>* c
    (c\<lparr>local_calls := local_calls c @ [(r, Replied rep)], forwarded := forwarded c @ qs\<rparr>))"
proof -
  let ?at = "\<lambda>p n qs. c\<lparr>tokens := n, local_calls := local_calls c @ [(r, p)], forwarded := forwarded c @ qs\<rparr>"
  let ?R = "connector_step i host"
  have arrive: "?R\<^sup>*\<^sup>* c (?at Arrived (tokens c) [])"
    using call_arrives [of i host c r] by auto
  have finish: ?thesis if "?R\<^sup>*\<^sup>* c (?at (Replied rep) (tokens c) qs)" "n = tokens c" for qs
    using that by auto
  show ?thesis
  proof (cases "connector_refuses host r")
    case (Some e)
    with arrive have "?R\<^sup>*\<^sup>* c (?at (Replied e) (tokens c) [])"
      using call_refused [of "?at Arrived (tokens c) []" "local_calls c" r "[]" host e i]
      by (auto intro: rtranclp.rtrancl_into_rtrancl)
    with Some assms show ?thesis by (intro finish [of "[]"]) (auto simp: Connector_def)
  next
    case ok: None
    show ?thesis
    proof (cases "take_token (tokens c)")
      case None
      with ok arrive have "?R\<^sup>*\<^sup>* c (?at (Replied overloaded_reply) (tokens c) [])"
        using call_turned_away [of "?at Arrived (tokens c) []" "local_calls c" r "[]" host i]
        by (auto intro: rtranclp.rtrancl_into_rtrancl)
      with ok None assms show ?thesis by (intro finish [of "[]"]) (auto simp: Connector_def)
    next
      case t: (Some m)
      have given: "give_token m = tokens c" using t by (auto simp: take_token_def give_token_def split: if_splits)
      have holding: "?R\<^sup>*\<^sup>* c (?at Holding m [])"
        using call_admitted [of "?at Arrived (tokens c) []" "local_calls c" r "[]" host m i] ok t arrive
        by (auto intro: rtranclp.rtrancl_into_rtrancl)
      show ?thesis
      proof (cases "connector_request i r")
        case (Inl e)
        then have "?R\<^sup>*\<^sup>* c (?at (Replied e) (tokens c) [])"
          using call_unfit [of "?at Holding m []" "local_calls c" r "[]" i e host] holding given
          by (auto intro: rtranclp.rtrancl_into_rtrancl)
        with ok t Inl assms given show ?thesis by (intro finish [of "[]"]) (auto simp: Connector_def)
      next
        case q: (Inr q)
        then have asked: "?R\<^sup>*\<^sup>* c (?at (Asked q) m [(r, q)])"
          using call_sent [of "?at Holding m []" "local_calls c" r "[]" i q host] holding
          by (auto intro: rtranclp.rtrancl_into_rtrancl)
        show ?thesis
        proof (cases "server q")
          case (DoErr b)
          have "?R\<^sup>*\<^sup>* c (?at (Replied unavailable_reply) (tokens c) [(r, q)])"
            using call_unanswered [of "?at (Asked q) m [(r, q)]" "local_calls c" r q "[]" i host] asked given
            by (cases c) (auto intro: rtranclp.rtrancl_into_rtrancl)
          with ok t q DoErr assms given show ?thesis by (intro finish [of "[(r, q)]"]) (auto simp: Connector_def)
        next
          case (DoOk res)
          have "?R\<^sup>*\<^sup>* c (?at (Copying res) m [(r, q)])"
            using call_answered [of "?at (Asked q) m [(r, q)]" "local_calls c" r q "[]" i host res] asked
            by (cases c) (auto intro: rtranclp.rtrancl_into_rtrancl)
          moreover have rep: "relay res rds wrs = Some rep" "n = tokens c"
            using ok t q DoOk assms given by (auto simp: Connector_def)
          ultimately have "?R\<^sup>*\<^sup>* c (?at (Replied rep) (tokens c) [(r, q)])"
            using call_returns [of "?at (Copying res) m [(r, q)]" "local_calls c" r res "[]" rds wrs rep i host] given
            by (cases c) (auto intro: rtranclp.rtrancl_into_rtrancl)
          then show ?thesis by (rule finish) (rule rep(2))
        qed
      qed
    qed
  qed
qed

text \<open>C28. The HTTP connector only works for a local program that addresses it by its own loopback
  name and that no web page drives: a request with another host name or with a browser's
  \<open>Origin\<close>, \<open>Sec-Fetch-Site\<close> or preflight field sends nothing. However calls come, wait and end, at
  most four are in flight, and a slot is taken exactly while its call is: it is free again when the call
  has replied, in whatever way. What is sent has the caller's method and body, the server's origin
  and all header values of the caller but those of \<open>Authorization\<close>, \<open>Proxy-Authorization\<close> and
  \<open>Cookie\<close>.\<close>

theorem connector_confines:
  assumes "(connector_step i host)\<^sup>*\<^sup>* fresh_connector c"
  shows "length (filter (in_flight \<circ> snd) (local_calls c)) \<le> 4 \<and>
    tokens c = length (filter (in_flight \<circ> snd) (local_calls c)) \<and>
    (\<forall>(r, q) \<in> set (forwarded c).
      LocalHost r = host \<and> Get (ReqHeader r) ''Origin'' = [] \<and> Get (ReqHeader r) ''Sec-Fetch-Site'' = [] \<and>
      Get (ReqHeader r) ''Access-Control-Request-Method'' = [] \<and>
      Route (request.truncate r) \<noteq> None \<and> length (fst (LocalBody r)) \<le> 8 * 1024 * 1024 \<and> snd (LocalBody r) \<and>
      out_Method q = ReqMethod r \<and> out_Body q = fst (LocalBody r) \<and>
      out_URL q = id_URL i @ RequestURI (ReqURL r) \<and>
      (\<forall>k. Values (out_Header q) k =
        (if CanonicalHeaderKey k \<in> {''Authorization'', ''Proxy-Authorization'', ''Cookie''} then []
         else Values (ReqHeader r) k)))"
proof -
  have inv: "connector_inv i host c" by (rule connector.reachable [OF refl assms])
  then have "connector_sends i host 0 r = Inr q" if "(r, q) \<in> set (forwarded c)" for r q
    using that by (auto simp: connector_inv_def connector_sends_def take_token_def)
  note confined = connector_sends_confined [OF this]
  from inv have slots: "length (filter (in_flight \<circ> snd) (local_calls c)) \<le> 4"
    "tokens c = length (filter (in_flight \<circ> snd) (local_calls c))"
    by (simp_all add: connector_inv_def)
  show ?thesis
    by (intro conjI slots ballI) (simp only: split_paired_all split_conv, rule confined)
qed

text \<open>C27. The target of a request survives the connector: for a local request line without \<open>#\<close>, the
  server reads the very URL that the connector read (the path unescaped, the query byte for
  byte), and routes the request to the same service and path.\<close>

theorem target_travels:
  assumes "clean_origin (id_URL i)" and "ParseRequestURI line = Some (ReqURL r)" and "CHR ''#'' \<notin> set line"
    and "connector_sends i host busy r = Inr q"
  shows "arrives (out_URL q) = Some (ReqURL r) \<and>
    Route \<lparr>ReqMethod = out_Method q, ReqURL = ReqURL r, ReqHeader = out_Header q\<rparr> = Route (request.truncate r)"
proof -
  let ?u = "ReqURL r"
  have rt: "Route (request.truncate r) \<noteq> None" using assms(4) by (simp add: connector_sends_iff)
  then have loc: "Scheme ?u = []" "RawPath ?u = []" "HasPrefix (URLPath ?u) ''/s/''"
    using Route_Some [OF rt] by (simp_all add: request.truncate_def)
  obtain p f x where u: "?u = empty_URL\<lparr>URLPath := p, ForceQuery := f, RawQuery := x\<rparr>"
    and x: "\<not> has_ctl x" "f \<longrightarrow> x = []" "set x \<subseteq> set line"
    using ParseRequestURI_origin_form [OF assms(2) loc] by blast
  then obtain p' where p': "p = CHR ''/'' # p'"
    using loc(3) by (auto simp: HasPrefix_iff)
  have t: "RequestURI ?u = escape encodePath p @ query_part f x"
    using RequestURI_hier [of ?u p'] p' by (simp add: u empty_URL_def)
  have "arrives (id_URL i @ RequestURI ?u) = Some ?u"
    unfolding t unfolding u using x assms(3) by (intro arrives_target [OF assms(1) p']) auto
  moreover have "Route \<lparr>ReqMethod = out_Method q, ReqURL = ?u, ReqHeader = out_Header q\<rparr> = Route (request.truncate r)"
    using connector_sends_fields [OF assms(4)]
    by (intro Route_same) (simp_all add: request.truncate_def Get_def Values_caller_header credential_names)
  ultimately show ?thesis
    using connector_sends_fields [OF assms(4)] by simp
qed

section \<open>What the socket can ask for\<close>

lemma socket_path_cases:
  "socket_path m p = Some t \<Longrightarrow>
     (m, t) \<in> {(''GET'', ''/device/services''), (''POST'', ''/device/request''), (''POST'', ''/device/status'')}"
  by (auto simp: socket_path_def split: if_splits)

lemma socket_sends_iff:
  "socket_sends i r = Inr (q, whole) \<longleftrightarrow>
     (\<exists>t. socket_path (ReqMethod r) (URLPath (ReqURL r)) = Some t \<and>
       new_request (ReqMethod r) (id_URL i @ t) (Set [] ''Content-Type'' ''application/json'')
         (take (512 * 1024) (fst (LocalBody r))) = Some q \<and>
       whole = (snd (LocalBody r) \<and> length (fst (LocalBody r)) \<le> 512 * 1024))"
  by (auto simp: socket_sends_def limited_def split: option.splits)

lemma escape_device_paths:
  "escape encodePath ''/device/services'' = ''/device/services''"
  "escape encodePath ''/device/request'' = ''/device/request''"
  "escape encodePath ''/device/status'' = ''/device/status''"
  by code_simp+

lemma content_type_only:
  "Set [] ''Content-Type'' ''application/json'' = [(''Content-Type'', [''application/json''])]"
  by code_simp

lemma arrives_plain:
  assumes "clean_origin raw" and "p = CHR ''/'' # p'" and "escape encodePath p = p"
  shows "arrives (raw @ p) = Some (empty_URL\<lparr>URLPath := p\<rparr>)"
proof -
  have "\<not> has_ctl []" by (simp add: has_ctl_def)
  then show ?thesis
    using arrives_target [OF assms(1,2), of "[]" False] assms(3)
    by (simp add: query_part_def empty_URL_def)
qed

definition three_calls :: "'a environment_scheme \<Rightarrow> json \<Rightarrow> call \<Rightarrow> device_request \<Rightarrow> string \<Rightarrow> srv \<Rightarrow> (reply \<times> srv) option set" where
  "three_calls E J c r dev s =
     {Some (services_reply c dev s), Some (submit E J c r dev s), map_option (\<lambda>rep. (rep, s)) (status E J c r dev)}"

text \<open>C29. A program that holds the socket can list the services, submit a request and ask for a
  status, and nothing else: whatever it sends, the server runs one of these three handlers for
  it, never a direct request or a renewal, and none of its own header fields is passed on.\<close>

theorem socket_reaches_three:
  assumes "clean_origin (id_URL i)" and "socket_sends i r = Inr (q, whole)"
  shows "\<exists>v. arrives (out_URL q) = Some v \<and> RawQuery v = [] \<and>
    authenticated E J c (d\<lparr>ReqMethod := out_Method q, ReqURL := v\<rparr>) dev s \<in>
      three_calls E J c (d\<lparr>ReqMethod := out_Method q, ReqURL := v\<rparr>) dev s \<and>
    out_Header q = [(''Content-Type'', [''application/json''])] \<and>
    length (out_Body q) \<le> 512 * 1024 \<and> (whole \<longrightarrow> (out_Body q, True) = LocalBody r)"
proof -
  obtain t where t: "socket_path (ReqMethod r) (URLPath (ReqURL r)) = Some t"
    and n: "new_request (ReqMethod r) (id_URL i @ t) (Set [] ''Content-Type'' ''application/json'')
         (take (512 * 1024) (fst (LocalBody r))) = Some q"
    and w: "whole = (snd (LocalBody r) \<and> length (fst (LocalBody r)) \<le> 512 * 1024)"
    using assms(2) by (auto simp: socket_sends_iff)
  have mt: "(ReqMethod r, t) \<in> {(''GET'', ''/device/services''), (''POST'', ''/device/request''), (''POST'', ''/device/status'')}"
    using t by (rule socket_path_cases)
  then have "ReqMethod r \<noteq> []" by auto
  with n have q: "q = \<lparr>out_Method = ReqMethod r, out_URL = id_URL i @ t,
      out_Header = Set [] ''Content-Type'' ''application/json'', out_Body = take (512 * 1024) (fst (LocalBody r))\<rparr>"
    by (rule new_request_fields)
  have "escape encodePath t = t"
    using mt escape_device_paths by auto
  moreover obtain t' where "t = CHR ''/'' # t'" using mt by auto
  ultimately have a: "arrives (out_URL q) = Some (empty_URL\<lparr>URLPath := t\<rparr>)"
    using arrives_plain [OF assms(1), of t t'] unfolding q by simp
  have h: "out_Header q = [(''Content-Type'', [''application/json''])]"
    by (simp add: q content_type_only)
  have "authenticated E J c (d\<lparr>ReqMethod := ReqMethod r, ReqURL := empty_URL\<lparr>URLPath := t\<rparr>\<rparr>) dev s \<in>
      three_calls E J c (d\<lparr>ReqMethod := ReqMethod r, ReqURL := empty_URL\<lparr>URLPath := t\<rparr>\<rparr>) dev s"
    using mt by (auto simp: authenticated_def three_calls_def is_call_def)
  then show ?thesis
    using a h w by (intro exI [of _ "empty_URL\<lparr>URLPath := t\<rparr>"])
      (auto simp: q empty_URL_def prod_eq_iff)
qed

text \<open>The permission bits that \<open>ListenSocket\<close> and \<open>SocketClient\<close> look at are those of group and others.\<close>

lemma owned_only_iff: "owned_only uid st \<longleftrightarrow> fi_uid st = uid \<and> (\<forall>n < 6. \<not> bit (fi_perm st) n)"
proof -
  have "bit (0x3F :: 32 word) n \<longleftrightarrow> n < 6" for n
  proof -
    have e: "(0x3F :: 32 word) = mask 6" by (simp add: mask_eq_exp_minus_1)
    show ?thesis unfolding e bit_mask_iff by auto
  qed
  then show ?thesis
    by (auto simp: owned_only_def bit_eq_iff bit_and_iff) 
qed

lemma SocketClient_iff:
  "SocketClient uid parent sock = Inr () \<longleftrightarrow>
     (\<exists>d st. parent = Some d \<and> sock = Some st \<and> fi_kind d = Directory \<and> fi_kind st = Socket \<and>
       owned_only uid d \<and> owned_only uid st)"
  by (auto simp: SocketClient_def split: option.splits)

section \<open>A caller on this machine\<close>

definition local_identity :: identity where
  "local_identity = \<lparr>id_URL = ''https://budge.example.com'', id_Root = ''r'', id_Certificate = ''c'',
     id_PrivateKey = ''k'', id_DeviceID = ''dev''\<rparr>"

definition local_get :: local_request where
  "local_get = \<lparr>ReqMethod = ''GET'', ReqURL = (path_url ''/s/crm/status'')\<lparr>RawQuery := ''q=1''\<rparr>,
     ReqHeader = [(''Cookie'', [''c'']), (''Accept'', [''text/plain''])],
     LocalHost = ''127.0.0.1:7321'', LocalBody = ([], True)\<rparr>"

lemma local_origin: "clean_origin (id_URL local_identity)"
  by code_simp

definition local_out :: outgoing where
  "local_out = \<lparr>out_Method = ''GET'', out_URL = ''https://budge.example.com/s/crm/status?q=1'',
     out_Header = [(''Accept'', [''text/plain''])], out_Body = []\<rparr>"

lemma local_sends: "connector_sends local_identity ''127.0.0.1:7321'' 3 local_get = Inr local_out"
proof -
  have "\<not> foreign_caller ''127.0.0.1:7321'' local_get" "Route (request.truncate local_get) \<noteq> None"
    by code_simp+
  moreover have "new_request (ReqMethod local_get) (id_URL local_identity @ RequestURI (ReqURL local_get))
      (caller_header (ReqHeader local_get)) [] = Some local_out"
    by code_simp
  moreover have "LocalBody local_get = ([], True)" by (simp add: local_get_def)
  ultimately show ?thesis by (simp add: connector_sends_iff read_all_def)
qed

lemma local_line: "ParseRequestURI ''/s/crm/status?q=1'' = Some (ReqURL local_get)"
  by code_simp

text \<open>Five calls: four wait for the server, and the fifth is turned away.\<close>

definition local_calls5 :: "(local_request \<times> call_stage) list" where
  "local_calls5 = replicate 4 (local_get, Asked local_out) @ [(local_get, Replied overloaded_reply)]"

definition full_connector :: connector_state where
  "full_connector = \<lparr>tokens = 4, local_calls = local_calls5, forwarded = replicate 4 (local_get, local_out)\<rparr>"

lemma local_passes: "connector_refuses ''127.0.0.1:7321'' local_get = None"
  "connector_request local_identity local_get = Inr local_out"
  using local_sends by (auto simp: connector_sends_def take_token_def split: option.splits)

lemma one_more:
  assumes "tokens c < 4"
  shows "(connector_step local_identity ''127.0.0.1:7321'')\<^sup>*\<^sup>* c (c\<lparr>tokens := Suc (tokens c),
    local_calls := local_calls c @ [(local_get, Asked local_out)], forwarded := forwarded c @ [(local_get, local_out)]\<rparr>)"
proof -
  let ?R = "connector_step local_identity ''127.0.0.1:7321''" and ?L = "local_calls c"
  let ?a = "c\<lparr>local_calls := ?L @ [(local_get, Arrived)]\<rparr>"
  let ?h = "c\<lparr>tokens := Suc (tokens c), local_calls := ?L @ [(local_get, Holding)]\<rparr>"
  have "?R c ?a" by (rule call_arrives)
  moreover have "?R ?a ?h"
    using call_admitted [of ?a ?L local_get "[]" "''127.0.0.1:7321''" "Suc (tokens c)" local_identity] local_passes(1) assms
    by (simp add: take_token_def)
  moreover have "?R ?h (c\<lparr>tokens := Suc (tokens c), local_calls := ?L @ [(local_get, Asked local_out)],
      forwarded := forwarded c @ [(local_get, local_out)]\<rparr>)"
    using call_sent [of ?h ?L local_get "[]" local_identity local_out "''127.0.0.1:7321''"] local_passes(2) by simp
  ultimately show ?thesis by (meson r_into_rtranclp rtranclp_trans)
qed

lemma full_reached: "(connector_step local_identity ''127.0.0.1:7321'')\<^sup>*\<^sup>* fresh_connector full_connector"
proof -
  let ?R = "connector_step local_identity ''127.0.0.1:7321''"
  have run: "?R\<^sup>*\<^sup>* fresh_connector \<lparr>tokens = n, local_calls = replicate n (local_get, Asked local_out),
      forwarded = replicate n (local_get, local_out)\<rparr>" if "n \<le> 4" for n
    using that
  proof (induction n)
    case (Suc n)
    with one_more [of "\<lparr>tokens = n, local_calls = replicate n (local_get, Asked local_out),
        forwarded = replicate n (local_get, local_out)\<rparr>"] show ?case
      by (simp add: replicate_append_same)
  qed (simp add: fresh_connector_def)
  let ?f = "\<lparr>tokens = 4, local_calls = replicate 4 (local_get, Asked local_out),
      forwarded = replicate 4 (local_get, local_out)\<rparr>"
  let ?a = "?f\<lparr>local_calls := replicate 4 (local_get, Asked local_out) @ [(local_get, Arrived)]\<rparr>"
  have "?R ?f ?a" using call_arrives [of local_identity "''127.0.0.1:7321''" ?f local_get] by simp
  moreover have "?R ?a full_connector"
    using call_turned_away [of ?a "replicate 4 (local_get, Asked local_out)" local_get "[]" "''127.0.0.1:7321''" local_identity]
      local_passes(1)
    by (simp add: take_token_def full_connector_def local_calls5_def)
  ultimately show ?thesis using run [of 4] by (meson order_refl rtranclp.rtrancl_into_rtrancl)
qed

theorem connector_confines_witness:
  "length (filter (in_flight \<circ> snd) (local_calls full_connector)) = 4 \<and>
     (local_get, Replied overloaded_reply) \<in> set (local_calls full_connector) \<and>
     Values (out_Header local_out) ''Cookie'' = [] \<and> Values (out_Header local_out) ''Accept'' = [''text/plain'']"
proof -
  have k: "CanonicalHeaderKey ''Cookie'' = ''Cookie''" "CanonicalHeaderKey ''Accept'' = ''Accept''"
    "Values (ReqHeader local_get) ''Accept'' = [''text/plain'']" by code_simp+
  have m: "(local_get, local_out) \<in> set (forwarded full_connector)"
    "(local_get, Replied overloaded_reply) \<in> set (local_calls full_connector)" "tokens full_connector = 4"
    by (simp_all add: full_connector_def local_calls5_def)
  note c = connector_confines [OF full_reached]
  from c m(1) have "\<forall>k. Values (out_Header local_out) k =
        (if CanonicalHeaderKey k \<in> {''Authorization'', ''Proxy-Authorization'', ''Cookie''} then []
         else Values (ReqHeader local_get) k)"
    by blast
  from this [rule_format, of "''Cookie''"] this [rule_format, of "''Accept''"] c m(2,3) k show ?thesis by simp
qed

theorem target_travels_witness:
  "arrives (out_URL local_out) = Some (ReqURL local_get) \<and>
     Route \<lparr>ReqMethod = out_Method local_out, ReqURL = ReqURL local_get, ReqHeader = out_Header local_out\<rparr> =
       Some (''crm'', ''/status'')"
proof -
  have "CHR ''#'' \<notin> set ''/s/crm/status?q=1''" by simp
  moreover have "Route (request.truncate local_get) = Some (''crm'', ''/status'')" by code_simp
  ultimately show ?thesis
    using target_travels [OF local_origin local_line _ local_sends] by simp
qed

definition local_post :: local_request where
  "local_post = \<lparr>ReqMethod = ''POST'', ReqURL = path_url ''/status'', ReqHeader = [(''Cookie'', [''c''])],
     LocalHost = ''budge'', LocalBody = (''{}'', True)\<rparr>"

lemma local_status: "socket_sends local_identity local_post = Inr
    (\<lparr>out_Method = ''POST'', out_URL = ''https://budge.example.com/device/status'',
      out_Header = [(''Content-Type'', [''application/json''])], out_Body = ''{}''\<rparr>, True)"
  by (simp add: socket_sends_def local_post_def path_url_def socket_path_def limited_def content_type_only)
    code_simp

theorem socket_reaches_three_witness:
  "\<exists>v. arrives ''https://budge.example.com/device/status'' = Some v \<and>
     authenticated demo demo_json demo_call (demo_request\<lparr>ReqMethod := ''POST'', ReqURL := v\<rparr>) device0 (demo_srv db9) \<in>
       three_calls demo demo_json demo_call (demo_request\<lparr>ReqMethod := ''POST'', ReqURL := v\<rparr>) device0 (demo_srv db9)"
  using socket_reaches_three [OF local_origin local_status, of demo demo_json demo_call demo_request device0 "demo_srv db9"]
  by auto

lemma origin_with_empty_query: "server_origin ''https://budge.example.com?''"
  by code_simp

end
