(* ===== verification/Submissions.thy ===== *)
theory Submissions
  imports Requests "HOL-Library.Multiset"
begin

text \<open>
  The normal form of a submission and its digest: \<open>Normalize\<close> is idempotent, and neither it nor
  the digest depends on the order in which Go iterates over the header map.
\<close>

definition header_ok :: "string \<times> string \<Rightarrow> bool" where
  "header_ok x \<longleftrightarrow> HeaderName (fst x) \<and> HeaderValue (snd x) \<and> \<not> Reserved (fst x)"

definition canonical :: "string \<times> string \<Rightarrow> string \<times> string" where
  "canonical x = (CanonicalHeaderKey (fst x), snd x)"

definition weight :: "string \<times> string \<Rightarrow> nat" where
  "weight x = length (fst x) + length (snd x)"

lemma canonical_simps [simp]:
  "canonical (canonical x) = canonical x" "header_ok (canonical x) = header_ok x"
  by (simp_all add: canonical_def header_ok_def)

lemma normalize_headers_iff:
  "normalize_headers out sz hs = Inr (out', sz') \<longleftrightarrow>
     list_all header_ok hs \<and> distinct (map (fst \<circ> canonical) hs) \<and>
     (fst \<circ> canonical) ` set hs \<inter> fst ` set out = {} \<and>
     out' = out @ map canonical hs \<and> sz' = sz + sum_list (map (weight \<circ> canonical) hs)"
proof (induction out sz hs rule: normalize_headers.induct)
  case (1 out sz)
  then show ?case by auto
next
  case (2 out sz n v hs)
  show ?case
  proof (cases "header_ok (n, v) \<and> CanonicalHeaderKey n \<notin> fst ` set out")
    case True
    then have "normalize_headers out sz ((n, v) # hs) =
        normalize_headers (out @ [canonical (n, v)]) (sz + weight (canonical (n, v))) hs"
      by (simp add: header_ok_def Let_def canonical_def weight_def)
    with True "2.IH" show ?thesis
      by (auto simp: header_ok_def canonical_def weight_def)
  next
    case False
    then have "\<exists>e. normalize_headers out sz ((n, v) # hs) = Inl e"
      by (auto simp: header_ok_def Let_def)
    with False show ?thesis by (auto simp: canonical_def)
  qed
qed

lemma normalize_headers_start:
  "normalize_headers [] 0 hs = Inr (out, sz) \<longleftrightarrow>
     list_all header_ok hs \<and> distinct (map (fst \<circ> canonical) hs) \<and> out = map canonical hs \<and>
     sz = sum_list (map (weight \<circ> canonical) hs)"
  by (simp add: normalize_headers_iff)

lemma Normalize_iff:
  "Normalize inp = Inr n \<longleftrightarrow>
     (\<exists>n0. Normalize (inp\<lparr>sub_Headers := []\<rparr>) = Inr n0) \<and>
     list_all header_ok (sub_Headers inp) \<and> distinct (map (fst \<circ> canonical) (sub_Headers inp)) \<and>
     sum_list (map (weight \<circ> canonical) (sub_Headers inp)) \<le> 16 * 1024 \<and>
     n = inp\<lparr>sub_Headers := map canonical (sub_Headers inp)\<rparr>"
proof (cases "normalize_headers [] 0 (sub_Headers inp)")
  case (Inl e)
  have "\<not> (list_all header_ok (sub_Headers inp) \<and> distinct (map (fst \<circ> canonical) (sub_Headers inp)))"
    using normalize_headers_start [of "sub_Headers inp"] Inl by (metis Inl_Inr_False)
  then show ?thesis
    using Inl by (auto simp: Normalize_def split: if_splits sum.splits)
next
  case (Inr x)
  obtain out sz where x: "x = (out, sz)" by (cases x)
  with Inr have "list_all header_ok (sub_Headers inp)" "distinct (map (fst \<circ> canonical) (sub_Headers inp))"
    "out = map canonical (sub_Headers inp)" "sz = sum_list (map (weight \<circ> canonical) (sub_Headers inp))"
    using normalize_headers_start [of "sub_Headers inp" out sz] by simp_all
  then show ?thesis
    using Inr x by (auto simp: Normalize_def split: if_splits sum.splits)
qed

text \<open>A submission whose header name is not in canonical form.\<close>

definition sample_submission :: "(string \<times> string) list \<Rightarrow> Submission" where
  "sample_submission hs = \<lparr>sub_Service = ''crm'', sub_Method = ''GET'', sub_Path = ''/a'', sub_Query = [],
      sub_Headers = hs, sub_Body = [], IdempotencyKey = ''k''\<rparr>"

lemma sample_normal:
  assumes "normalize_headers [] 0 hs = Inr (out, sz)" "sz \<le> 16 * 1024"
  shows "Normalize (sample_submission hs) = Inr (sample_submission out)"
proof -
  have "Slug ''crm''" "Method ''GET''" "Path ''/a''" "list_all key_byte ''k''" by code_simp+
  moreover have "Target ''https://example.invalid'' ''/a'' [] = Inr ''https://example.invalid/a''" by code_simp
  ultimately show ?thesis using assms by (simp add: Normalize_def sample_submission_def)
qed

text \<open>Normalizing is idempotent: what \<open>Normalize\<close> returns it accepts again, unchanged, so the
  digest that a retry is compared by is the digest of the stored form.\<close>

lemma normalize_idempotent:
  assumes "Normalize inp = Inr n"
  shows "Normalize n = Inr n"
proof -
  note i = assms [unfolded Normalize_iff [of inp]]
  then have n: "n = inp\<lparr>sub_Headers := map canonical (sub_Headers inp)\<rparr>" by blast
  then have h: "sub_Headers n = map canonical (sub_Headers inp)" and same: "n\<lparr>sub_Headers := []\<rparr> = inp\<lparr>sub_Headers := []\<rparr>"
    by simp_all
  have f: "f \<circ> canonical \<circ> canonical = f \<circ> canonical" for f :: "string \<times> string \<Rightarrow> 'z"
    by (simp add: fun_eq_iff)
  have "list_all header_ok (map canonical (sub_Headers inp))"
    using i by (simp add: list_all_iff)
  moreover have "n\<lparr>sub_Headers := map canonical (map canonical (sub_Headers inp))\<rparr> = n"
    by (simp add: n)
  ultimately show ?thesis
    unfolding Normalize_iff [of n] same h map_map f using i by simp
qed

lemma normalize_example:
  "Normalize (sample_submission [(''accept'', ''text/plain'')]) = Inr (sample_submission [(''Accept'', ''text/plain'')]) \<and>
   Normalize (sample_submission [(''Accept'', ''text/plain'')]) = Inr (sample_submission [(''Accept'', ''text/plain'')])"
proof -
  have h: "normalize_headers [] 0 [(''accept'', ''text/plain'')] = Inr ([(''Accept'', ''text/plain'')], 16)"
    by code_simp
  have "Normalize (sample_submission [(''accept'', ''text/plain'')]) = Inr (sample_submission [(''Accept'', ''text/plain'')])"
    by (rule sample_normal [OF h]) simp
  from this normalize_idempotent [OF this] show ?thesis by blast
qed

text \<open>The order of the header map is immaterial: when the same headers are iterated over in any
  other order, the submission is accepted just the same and has the same digest.\<close>

lemma digest_ignores_order:
  assumes "Normalize inp = Inr n" "mset hs = mset (sub_Headers inp)"
  shows "\<exists>n'. Normalize (inp\<lparr>sub_Headers := hs\<rparr>) = Inr n' \<and> SubmissionDigest E n' = SubmissionDigest E n"
proof -
  let ?h = "sub_Headers inp"
  from assms(1) have i: "\<exists>n0. Normalize (inp\<lparr>sub_Headers := []\<rparr>) = Inr n0" "list_all header_ok ?h"
    "distinct (map (fst \<circ> canonical) ?h)" "sum_list (map (weight \<circ> canonical) ?h) \<le> 16 * 1024"
    and n: "n = inp\<lparr>sub_Headers := map canonical ?h\<rparr>"
    by (simp_all add: Normalize_iff [of inp])
  have m: "mset (map f hs) = mset (map f ?h)" for f :: "string \<times> string \<Rightarrow> 'z"
    using assms(2) by simp
  have "set hs = set ?h" using assms(2) by (metis set_mset_mset)
  with i(2) have ok: "list_all header_ok hs" by (simp add: list_all_iff)
  have d: "distinct (map (fst \<circ> canonical) hs)"
    using mset_eq_imp_distinct_iff [OF m] i(3) by blast
  have "sum_list (map (weight \<circ> canonical) hs) = sum_list (map (weight \<circ> canonical) ?h)"
    using m [of "weight \<circ> canonical"] by (metis sum_mset_sum_list)
  with i(1,4) ok d have "Normalize (inp\<lparr>sub_Headers := hs\<rparr>) = Inr (inp\<lparr>sub_Headers := map canonical hs\<rparr>)"
    by (simp add: Normalize_iff [of "inp\<lparr>sub_Headers := hs\<rparr>"])
  moreover have "sort_key fst (map canonical hs) = sort_key fst (map canonical ?h)"
  proof (rule sort_key_inj_key_eq)
    show "mset (map canonical hs) = mset (sort_key fst (map canonical ?h))" using m by simp
    show "inj_on fst (set (map canonical hs))" using d by (metis distinct_map map_map)
  qed simp
  ultimately show ?thesis by (auto simp: SubmissionDigest_def n)
qed

definition sample_codec :: codec where
  "sample_codec = \<lparr>sha256 = (\<lambda>s. s), aead_seal = (\<lambda>n b ad. b), aead_open = (\<lambda>n c ad. Some c),
     marshal_submission = (\<lambda>s. concat (map (\<lambda>(n, v). n @ '':'' @ v @ '';'') (sub_Headers s))),
     marshal_snapshot = snap_URL, unmarshal_snapshot = (\<lambda>b. None), marshal_result = res_Body,
     unmarshal_result = (\<lambda>b. None), marshal_strings = Join '','', unmarshal_strings = (\<lambda>s. None),
     parse_rfc3339 = (\<lambda>s. None)\<rparr>"

theorem digest_ignores_order_witness:
  "\<exists>n'. Normalize (sample_submission [(''Content-Type'', ''a/b''), (''Accept'', ''a/b'')]) = Inr n' \<and>
     SubmissionDigest sample_codec n' = SubmissionDigest sample_codec (sample_submission [(''Accept'', ''a/b''), (''Content-Type'', ''a/b'')])"
proof -
  let ?h = "[(''Accept'', ''a/b''), (''Content-Type'', ''a/b'')]" and ?g = "[(''Content-Type'', ''a/b''), (''Accept'', ''a/b'')]"
  have h: "normalize_headers [] 0 ?h = Inr (?h, 24)" by code_simp
  have n: "Normalize (sample_submission ?h) = Inr (sample_submission ?h)" by (rule sample_normal [OF h]) simp
  have m: "mset ?g = mset (sub_Headers (sample_submission ?h))" by (simp add: sample_submission_def)
  have "sample_submission ?h\<lparr>sub_Headers := ?g\<rparr> = sample_submission ?g" by (simp add: sample_submission_def)
  with digest_ignores_order [OF n m] show ?thesis by metis
qed

end
