(* ===== verification/Mcp.thy ===== *)
theory Mcp
  imports Connector_Facts Submissions
begin

text \<open>
  The MCP tools of \<open>internal/mcp/mcp.go\<close>: what each tool checks, what it asks the connector socket,
  and how the answer becomes a result or an error. JSON is a parameter, the connector an argument;
  \<open>through_socket\<close> puts \<open>SocketTransport\<close> there.
\<close>

record 'o mcp_env =
  marshal_input :: "Submission \<Rightarrow> string"
  marshal_status :: "StatusInput \<Rightarrow> string"
  read_object :: "string \<Rightarrow> 'o option"
  read_code :: "'o \<Rightarrow> string option"

text \<open>The end of \<open>call\<close>: the first JSON object of at most 2 MiB, and the error code of a refusal.\<close>

definition answer :: "('o, 'a) mcp_env_scheme \<Rightarrow> int \<Rightarrow> string \<Rightarrow> error + 'o" where
  "answer M st body =
     (case read_object M (take (2 * 1024 * 1024) body) of
        None \<Rightarrow> Inl (Err ''invalid connector response'')
      | Some out \<Rightarrow>
          if st \<noteq> 200 then
            (case read_code M out of Some code \<Rightarrow> Inl (Err code) | None \<Rightarrow> Inl (Err ''request rejected''))
          else Inr out)"

definition mcp_call :: "('o, 'a) mcp_env_scheme \<Rightarrow> (outgoing \<Rightarrow> (int \<times> string) option) \<Rightarrow> string \<Rightarrow> string \<Rightarrow> string \<Rightarrow>
    error + 'o" where
  "mcp_call M conn m path body =
     (case new_request m (''http://budge-socket'' @ path) (Set [] ''Content-Type'' ''application/json'') body of
        None \<Rightarrow> Inl DriverErr
      | Some q \<Rightarrow>
          (case conn q of
             None \<Rightarrow> Inl (Err ''connector unavailable'')
           | Some (st, b) \<Rightarrow> answer M st b))"

definition budge_services :: "('o, 'a) mcp_env_scheme \<Rightarrow> (outgoing \<Rightarrow> (int \<times> string) option) \<Rightarrow> error + 'o" where
  "budge_services M conn = mcp_call M conn ''GET'' ''/services'' []"

definition budge_request :: "('o, 'a) mcp_env_scheme \<Rightarrow> (outgoing \<Rightarrow> (int \<times> string) option) \<Rightarrow> Submission \<Rightarrow> error + 'o" where
  "budge_request M conn inp =
     (case Normalize inp of
        Inl e \<Rightarrow> Inl e
      | Inr n \<Rightarrow> mcp_call M conn ''POST'' ''/request'' (marshal_input M n))"

definition budge_request_status :: "('o, 'a) mcp_env_scheme \<Rightarrow> (outgoing \<Rightarrow> (int \<times> string) option) \<Rightarrow> StatusInput \<Rightarrow> error + 'o" where
  "budge_request_status M conn inp =
     (if WaitSeconds inp < 0 \<or> 15 < WaitSeconds inp then Inl (Err ''wait_seconds must be between 0 and 15'')
      else mcp_call M conn ''POST'' ''/status'' (marshal_status M inp))"

section \<open>The tools on the connector socket\<close>

definition on_socket :: "outgoing \<Rightarrow> URL \<Rightarrow> local_request" where
  "on_socket q v = \<lparr>ReqMethod = out_Method q, ReqURL = v, ReqHeader = out_Header q, LocalHost = ''budge-socket'',
     LocalBody = (out_Body q, True)\<rparr>"

definition through_socket :: "identity \<Rightarrow> (outgoing \<Rightarrow> bool \<Rightarrow> exchange) \<Rightarrow> outgoing \<Rightarrow> (int \<times> string) option" where
  "through_socket i server q =
     (case arrives (out_URL q) of
        None \<Rightarrow> None
      | Some v \<Rightarrow>
          (case SocketTransport i server (on_socket q v) of
             Refused st t \<Rightarrow> Some (st, t @ [CHR 0x0A])
           | Relayed st h b \<Rightarrow> Some (st, b)
           | Cut_off st h b \<Rightarrow> None))"

definition device_call :: "identity \<Rightarrow> string \<Rightarrow> string \<Rightarrow> string \<Rightarrow> outgoing" where
  "device_call i m path body = \<lparr>out_Method = m, out_URL = id_URL i @ path,
     out_Header = [(''Content-Type'', [''application/json''])], out_Body = body\<rparr>"

definition device_answer :: "('o, 'a) mcp_env_scheme \<Rightarrow> exchange \<Rightarrow> error + 'o" where
  "device_answer M x =
     (case x of
        DoErr _ \<Rightarrow> answer M 502 (''Budge connection unavailable'' @ [CHR 0x0A])
      | DoOk res \<Rightarrow> answer M (StatusCode res) (fst (ResBody res)))"

lemma local_targets:
  "arrives ''http://budge-socket/services'' = Some (empty_URL\<lparr>URLPath := ''/services''\<rparr>)"
  "arrives ''http://budge-socket/request'' = Some (empty_URL\<lparr>URLPath := ''/request''\<rparr>)"
  "arrives ''http://budge-socket/status'' = Some (empty_URL\<lparr>URLPath := ''/status''\<rparr>)"
  "Parse ''http://budge-socket/services'' \<noteq> None" "Parse ''http://budge-socket/request'' \<noteq> None"
  "Parse ''http://budge-socket/status'' \<noteq> None"
  by code_simp+

lemma three_tools:
  "list_all token_byte ''GET''" "list_all token_byte ''POST''"
  "escape encodePath ''/services'' = ''/services''" "escape encodePath ''/request'' = ''/request''"
  "escape encodePath ''/status'' = ''/status''"
  by code_simp+

lemma clean_origin_Parse:
  assumes "clean_origin raw" and "p = CHR ''/'' # p'" and "escape encodePath p = p"
  shows "Parse (raw @ p) \<noteq> None"
proof -
  have "\<not> has_ctl []" by (simp add: has_ctl_def)
  then show ?thesis
    using Parse_target [OF assms(1,2), of "[]" False] assms(3) by (fastforce simp: query_part_def)
qed

lemma answer_take: "answer M st (take (2 * 1024 * 1024) b) = answer M st b"
  by (simp add: answer_def)

lemma mcp_call_through_socket:
  assumes "clean_origin (id_URL i)" and "length body \<le> 512 * 1024"
    and "(m, path) \<in> {(''GET'', ''/services''), (''POST'', ''/request''), (''POST'', ''/status'')}"
  shows "mcp_call M (through_socket i server) m path body =
    device_answer M (server (device_call i m (''/device'' @ path) body) True)"
proof -
  let ?h = "[(''Content-Type'', [''application/json''])] :: header"
  have m: "m \<noteq> []" "list_all token_byte m" using assms(3) three_tools by auto
  have a: "arrives (''http://budge-socket'' @ path) = Some (empty_URL\<lparr>URLPath := path\<rparr>)"
    "Parse (''http://budge-socket'' @ path) \<noteq> None"
    using assms(3) local_targets by auto
  have sp: "socket_path m path = Some (''/device'' @ path)"
    using assms(3) by (auto simp: socket_path_def)
  have "Parse (id_URL i @ ''/device'' @ path) \<noteq> None"
    using assms(3) escape_device_paths by (intro clean_origin_Parse [OF assms(1)]) auto
  then have n: "new_request m (id_URL i @ ''/device'' @ path) ?h body = Some (device_call i m (''/device'' @ path) body)"
    using m by (simp add: new_request_def device_call_def)
  have s: "socket_sends i (on_socket q (empty_URL\<lparr>URLPath := path\<rparr>)) = Inr (device_call i m (''/device'' @ path) body, True)"
    if "out_Method q = m" "out_Body q = body" for q
    using that sp n assms(2)
    by (simp add: socket_sends_def on_socket_def empty_URL_def limited_def content_type_only)
  show ?thesis
    using m a s
    by (auto simp: mcp_call_def new_request_def content_type_only through_socket_def SocketTransport_def device_answer_def
        answer_take [simplified] split: exchange.splits)
qed

section \<open>From the tool to the server\<close>

text \<open>The server as the other end of the device's TLS connection; \<open>enc\<close> writes a reply as a response.\<close>

definition received :: "peer \<Rightarrow> URL \<Rightarrow> outgoing \<Rightarrow> bool \<Rightarrow> device_request" where
  "received p v q whole = \<lparr>ReqMethod = out_Method q, ReqURL = v, ReqHeader = out_Header q, Peer = Some p,
     Body = (out_Body q, whole)\<rparr>"

definition device_server :: "'a environment_scheme \<Rightarrow> json \<Rightarrow> call \<Rightarrow> peer \<Rightarrow> srv \<Rightarrow> (reply \<Rightarrow> response) \<Rightarrow> outgoing \<Rightarrow> bool \<Rightarrow> exchange" where
  "device_server E J c p s enc q whole =
     (case arrives (out_URL q) of
        None \<Rightarrow> DoErr True
      | Some v \<Rightarrow>
          (case DeviceHandler E J c (received p v q whole) s of
             None \<Rightarrow> DoErr True
           | Some (rep, s') \<Rightarrow> DoOk (enc rep)))"

definition submission_call :: "peer \<Rightarrow> string \<Rightarrow> device_request" where
  "submission_call p body = received p (empty_URL\<lparr>URLPath := ''/device/request''\<rparr>)
     \<lparr>out_Method = ''POST'', out_URL = [], out_Header = [(''Content-Type'', [''application/json''])], out_Body = body\<rparr> True"

lemma device_server_submits:
  assumes "clean_origin (id_URL i)" and "on_store (device (at_time c) (Some p)) s = (Inr dev, s1)"
  shows "device_server E J c p s enc (device_call i ''POST'' ''/device/request'' body) True =
    DoOk (enc (fst (submit E J c (submission_call p body) dev s1)))"
proof -
  have "arrives (id_URL i @ ''/device/request'') = Some (empty_URL\<lparr>URLPath := ''/device/request''\<rparr>)"
    using escape_device_paths by (intro arrives_plain [OF assms(1)]) auto
  moreover have "received p (empty_URL\<lparr>URLPath := ''/device/request''\<rparr>) (device_call i ''POST'' ''/device/request'' body) True =
      submission_call p body"
    by (simp add: received_def submission_call_def device_call_def)
  moreover have "DeviceHandler E J c (submission_call p body) s = Some (submit E J c (submission_call p body) dev s1)"
    using assms(2) by (simp add: DeviceHandler_def authenticated_def is_call_def submission_call_def received_def)
  ultimately show ?thesis
    by (simp add: device_server_def device_call_def split: prod.splits)
qed

text \<open>C30. The tool \<open>budge_request\<close> is the server's \<open>submit\<close>: what an agent submits is refused where the
  tool runs, with the error of \<open>Normalize\<close>, or reaches \<open>submit\<close> of the device that owns the
  connector, whole and in normal form (which \<open>submit\<close> accepts and keeps), and the answer of the
  tool is that of the server.\<close>

theorem request_tool_submits:
  assumes "clean_origin (id_URL i)" and "on_store (device (at_time c) (Some p)) s = (Inr dev, s1)"
    and "\<forall>n. Normalize inp = Inr n \<longrightarrow> read_submission J (marshal_input M n) = Some (n, []) \<and>
      length (marshal_input M n) \<le> 512 * 1024"
  shows "case Normalize inp of
      Inl e \<Rightarrow> budge_request M (through_socket i (device_server E J c p s enc)) inp = Inl e
    | Inr n \<Rightarrow>
        budge_request M (through_socket i (device_server E J c p s enc)) inp =
          device_answer M (DoOk (enc (fst (submit E J c (submission_call p (marshal_input M n)) dev s1)))) \<and>
        decode (read_submission J) (512 * 1024) (Body (submission_call p (marshal_input M n))) = Some n \<and>
        Normalize n = Inr n"
proof (cases "Normalize inp")
  case (Inl e)
  then show ?thesis by (simp add: budge_request_def)
next
  case (Inr n)
  then have len: "length (marshal_input M n) \<le> 512 * 1024"
    and rd: "read_submission J (marshal_input M n) = Some (n, [])" using assms(3) by auto
  have "mcp_call M (through_socket i (device_server E J c p s enc)) ''POST'' ''/request'' (marshal_input M n) =
      device_answer M (device_server E J c p s enc (device_call i ''POST'' (''/device'' @ ''/request'') (marshal_input M n)) True)"
    by (rule mcp_call_through_socket [OF assms(1) len]) simp
  moreover have "decode (read_submission J) (512 * 1024) (Body (submission_call p (marshal_input M n))) = Some n"
    using len rd by (simp add: decode_def submission_call_def received_def)
  ultimately show ?thesis
    using Inr normalize_idempotent [OF Inr] device_server_submits [OF assms(1,2), of E J enc "marshal_input M n"] by (simp add: budge_request_def)
qed

definition sample_mcp :: "string mcp_env" where
  "sample_mcp = \<lparr>marshal_input = (\<lambda>n. sub_Path n), marshal_status = (\<lambda>x. si_RequestID x),
     read_object = Some, read_code = (\<lambda>x. None)\<rparr>"

definition sample_reader :: json where
  "sample_reader = demo_json\<lparr>read_submission := (\<lambda>b. Some (submission0, []))\<rparr>"

theorem request_tool_submits_witness:
  "budge_request sample_mcp (through_socket local_identity
       (device_server demo sample_reader demo_call demo_peer (demo_srv db9) (\<lambda>rep. response0))) submission0 =
     device_answer sample_mcp (DoOk response0)"
proof -
  have d: "on_store (device (at_time demo_call) (Some demo_peer)) (demo_srv db9) = (Inr device0, demo_srv db9)"
    using demo_device by (simp add: on_store_def demo_srv_def demo_call_def)
  have "\<forall>n. Normalize submission0 = Inr n \<longrightarrow>
      read_submission sample_reader (marshal_input sample_mcp n) = Some (n, []) \<and>
      length (marshal_input sample_mcp n) \<le> 512 * 1024"
    unfolding submission0_normal by (simp add: sample_reader_def sample_mcp_def) (simp add: submission0_def)
  from request_tool_submits [OF local_origin d this, of demo "\<lambda>rep. response0"] submission0_normal
  show ?thesis by simp
qed

end
