(* ===== verification/Authority.thy ===== *)
theory Authority
  imports Vault Access
begin

text \<open>
  The trust root of the server: \<open>initTLS\<close>, \<open>issue\<close> of \<open>internal/server/tls.go\<close> and \<open>renewLeaf\<close>,
  \<open>currentCertificate\<close> of \<open>renewal.go\<close>. The authority (root and server leaf with their keys, and the
  origin) is kept in memory and, sealed, in the \<open>metadata\<close> row \<open>authority\<close>; the file is that of theory
  Vault. Keys, PEM, X.509 and JSON are parameters; a certificate is described by its template.
  Instants are nanoseconds; a certificate holds whole seconds.
\<close>

record authority =
  ca_Root :: string
  ca_RootKey :: string
  ca_Leaf :: string
  ca_LeafKey :: string
  ca_URL :: string

datatype usage = CertSign | ServerAuth | ClientAuth

datatype san = NoSAN | IPAddress addr | DNSName string

record template =
  tp_CommonName :: string
  tp_NotBefore :: int
  tp_NotAfter :: int
  tp_usage :: usage
  tp_san :: san

text \<open>
  \<open>create t key parent signer\<close> is \<open>CreateCertificate\<close> (DER), \<open>x_parse\<close> gives the \<open>NotAfter\<close> and the
  common name of a certificate, \<open>csr_key\<close> the public key of a signing request whose signature
  holds, and \<open>is_p256\<close> tells whether that is a P-256 key.
\<close>

record pki =
  create :: "template \<Rightarrow> string \<Rightarrow> string \<Rightarrow> string \<Rightarrow> string option"
  certPEM :: "string \<Rightarrow> string"
  keyPEM :: "string \<Rightarrow> string"
  pem_Decode :: "string \<Rightarrow> string option"
  x_parse :: "string \<Rightarrow> (int \<times> string) option"
  x_key :: "string \<Rightarrow> string option"
  csr_key :: "string \<Rightarrow> string option"
  is_p256 :: "string \<Rightarrow> bool"
  x_pair :: "string \<Rightarrow> string \<Rightarrow> bool"
  marshal_authority :: "authority \<Rightarrow> string"
  unmarshal_authority :: "string \<Rightarrow> authority option"

definition minute :: int where "minute = 60 * second"
definition month :: int where "month = 30 * 24 * 3600 * second"

text \<open>
  \<open>AddDate(10, 0, 0)\<close> in UTC: the day number of a date of the Gregorian calendar and back (days
  since 1970-01-01, years beginning in March).
\<close>

definition days_from_civil :: "int \<Rightarrow> int \<Rightarrow> int \<Rightarrow> int" where
  "days_from_civil y m d =
     (let y' = (if m \<le> 2 then y - 1 else y); era = y' div 400; yoe = y' mod 400;
          doy = (153 * (if m > 2 then m - 3 else m + 9) + 2) div 5 + d - 1
      in era * 146097 + yoe * 365 + yoe div 4 - yoe div 100 + doy - 719468)"

definition civil_from_days :: "int \<Rightarrow> int \<times> int \<times> int" where
  "civil_from_days z0 =
     (let z = z0 + 719468; era = z div 146097; doe = z mod 146097;
          yoe = (doe - doe div 1460 + doe div 36524 - doe div 146096) div 365;
          doy = doe - (365 * yoe + yoe div 4 - yoe div 100); mp = (5 * doy + 2) div 153;
          d = doy - (153 * mp + 2) div 5 + 1; m = (if mp < 10 then mp + 3 else mp - 9)
      in (yoe + era * 400 + (if m \<le> 2 then 1 else 0), m, d))"

definition day :: int where "day = 24 * 3600 * second"

definition add_years :: "int \<Rightarrow> int \<Rightarrow> int" where
  "add_years n t = (case civil_from_days (t div day) of
     (y, m, d) \<Rightarrow> days_from_civil (y + n) m d * day + t mod day)"

definition root_template :: "int \<Rightarrow> template" where
  "root_template now = \<lparr>tp_CommonName = ''Budge trust root'', tp_NotBefore = now - minute,
     tp_NotAfter = add_years 10 now, tp_usage = CertSign, tp_san = NoSAN\<rparr>"

definition san_of :: "string \<Rightarrow> san" where
  "san_of host =
     (case ParseAddr host of
        Some (V4 w) \<Rightarrow> IPAddress (V4 w)
      | Some (V6 w zone) \<Rightarrow> if zone = [] then IPAddress (V6 w zone) else DNSName host
      | _ \<Rightarrow> DNSName host)"

definition leaf_template :: "int \<Rightarrow> string \<Rightarrow> template" where
  "leaf_template now host = \<lparr>tp_CommonName = [], tp_NotBefore = now - minute, tp_NotAfter = now + month,
     tp_usage = ServerAuth, tp_san = san_of host\<rparr>"

definition device_template :: "int \<Rightarrow> string \<Rightarrow> template" where
  "device_template now dev = \<lparr>tp_CommonName = dev, tp_NotBefore = now - minute, tp_NotAfter = now + month,
     tp_usage = ClientAuth, tp_san = NoSAN\<rparr>"

definition https_origin :: "URL \<Rightarrow> bool" where
  "https_origin u \<longleftrightarrow> Scheme u = ''https'' \<and> Hostname u \<noteq> [] \<and> User u = None \<and> URLPath u = [] \<and>
     RawQuery u = [] \<and> Fragment u = []"

section \<open>\<open>initTLS\<close>\<close>

definition put_metadata :: "string \<Rightarrow> string \<Rightarrow> vault_file \<Rightarrow> vault_file option" where
  "put_metadata k x v =
     (if map_of (tables v) ''metadata'' = None then None
      else Some (v\<lparr>metadata := AList.update k x (metadata v)\<rparr>))"

text \<open>A single statement outside a transaction commits by itself.\<close>

definition d_auto :: "(vault_file \<Rightarrow> vault_file option) \<Rightarrow> unit disk_op" where
  "d_auto f = d_call (\<lambda>s. case f (contents s) of
     None \<Rightarrow> (Inl DriverErr, s) | Some v \<Rightarrow> (Inr (), s\<lparr>contents := v\<rparr>))"

definition seal_authority :: "pki \<Rightarrow> crypto \<Rightarrow> string \<Rightarrow> authority \<Rightarrow> string" where
  "seal_authority P E nonce ca = Seal E nonce ''authority'' (marshal_authority P ca)"

definition open_authority :: "pki \<Rightarrow> crypto \<Rightarrow> string \<Rightarrow> error + authority" where
  "open_authority P E x =
     (case Unseal E ''authority'' x of
        Inl e \<Rightarrow> Inl e
      | Inr b \<Rightarrow> (case unmarshal_authority P b of None \<Rightarrow> Inl DriverErr | Some ca \<Rightarrow> Inr ca))"

text \<open>The keys are the results of \<open>GenerateKey\<close>: the private key, or an error.\<close>

definition new_authority :: "pki \<Rightarrow> int \<Rightarrow> string option \<Rightarrow> string \<Rightarrow> error + authority" where
  "new_authority P now key url =
     (case key of
        None \<Rightarrow> Inl DriverErr
      | Some k \<Rightarrow>
          (case create P (root_template now) k [] k of
             None \<Rightarrow> Inl DriverErr
           | Some der \<Rightarrow> Inr \<lparr>ca_Root = certPEM P der, ca_RootKey = keyPEM P k, ca_Leaf = [], ca_LeafKey = [],
               ca_URL = url\<rparr>))"

text \<open>The parsed root certificate and key, \<open>s.root\<close> and \<open>s.rootKey\<close>.\<close>

definition root_of :: "pki \<Rightarrow> authority \<Rightarrow> error + string \<times> string" where
  "root_of P ca =
     (case (pem_Decode P (ca_Root ca), pem_Decode P (ca_RootKey ca)) of
        (Some root, Some key) \<Rightarrow>
          (case x_parse P root of
             None \<Rightarrow> Inl DriverErr
           | Some _ \<Rightarrow> (case x_key P key of None \<Rightarrow> Inl DriverErr | Some k \<Rightarrow> Inr (root, k)))
      | _ \<Rightarrow> Inl (Err ''invalid authority''))"

definition leaf_expiry :: "pki \<Rightarrow> authority \<Rightarrow> int option" where
  "leaf_expiry P ca =
     (case pem_Decode P (ca_Leaf ca) of None \<Rightarrow> None | Some b \<Rightarrow> map_option fst (x_parse P b))"

definition fresh_leaf :: "pki \<Rightarrow> int \<Rightarrow> string option \<Rightarrow> string \<Rightarrow> string \<times> string \<Rightarrow> authority \<Rightarrow> error + authority" where
  "fresh_leaf P now key host root ca =
     (case key of
        None \<Rightarrow> Inl DriverErr
      | Some k \<Rightarrow>
          (case create P (leaf_template now host) k (fst root) (snd root) of
             None \<Rightarrow> Inl DriverErr
           | Some der \<Rightarrow> Inr (ca\<lparr>ca_Leaf := certPEM P der, ca_LeafKey := keyPEM P k\<rparr>)))"

definition lift_error :: "error + 'a \<Rightarrow> 'a disk_op" where
  "lift_error r = (case r of Inl e \<Rightarrow> fail e | Inr x \<Rightarrow> ret x)"

definition load_authority :: "pki \<Rightarrow> crypto \<Rightarrow> int \<Rightarrow> string option \<Rightarrow> string \<Rightarrow> authority disk_op" where
  "load_authority P E now rootkey url =
     bind (d_query (get_metadata ''authority'')) (\<lambda>row.
       case row of
         Some x \<Rightarrow> bind (lift_error (open_authority P E x)) (\<lambda>ca.
           if ca_URL ca \<noteq> url then fail (Err ''server URL differs from initialized identity'') else ret ca)
       | None \<Rightarrow> lift_error (new_authority P now rootkey url))"

definition initTLS :: "pki \<Rightarrow> crypto \<Rightarrow> int \<Rightarrow> string option \<Rightarrow> string option \<Rightarrow> string \<Rightarrow> string \<Rightarrow> authority disk_op" where
  "initTLS P E now rootkey leafkey nonce url =
     (case Parse url of
        None \<Rightarrow> fail (Err ''server URL must be an HTTPS origin'')
      | Some u \<Rightarrow>
          if \<not> https_origin u then fail (Err ''server URL must be an HTTPS origin'')
          else
            bind (load_authority P E now rootkey url) (\<lambda>ca.
            bind (lift_error (root_of P ca)) (\<lambda>root.
            bind (lift_error (case leaf_expiry P ca of
                None \<Rightarrow> fresh_leaf P now leafkey (Hostname u) root ca
              | Some t \<Rightarrow> if renewal_window < t * second - now then Inr ca
                  else fresh_leaf P now leafkey (Hostname u) root ca)) (\<lambda>ca.
            bind (d_auto (put_metadata ''authority'' (seal_authority P E nonce ca))) (\<lambda>_. ret ca)))))"

section \<open>Certificates\<close>

text \<open>\<open>UPDATE .. WHERE key='authority'\<close>.\<close>

definition set_metadata :: "string \<Rightarrow> string \<Rightarrow> vault_file \<Rightarrow> vault_file option" where
  "set_metadata k x v =
     (if map_of (tables v) ''metadata'' = None then None
      else Some (v\<lparr>metadata := map (\<lambda>(j, y). (j, if j = k then x else y)) (metadata v)\<rparr>))"

text \<open>\<open>renewLeaf\<close> with the authority in memory; it is replaced only after the row is.\<close>

definition renewLeaf :: "pki \<Rightarrow> crypto \<Rightarrow> int \<Rightarrow> string option \<Rightarrow> string \<Rightarrow> string \<times> string \<Rightarrow> authority \<Rightarrow> authority disk_op" where
  "renewLeaf P E now leafkey nonce root ca =
     (if leafkey = None then fail DriverErr
      else (case Parse (ca_URL ca) of
          None \<Rightarrow> fail DriverErr
        | Some u \<Rightarrow>
            bind (lift_error (fresh_leaf P now leafkey (Hostname u) root ca)) (\<lambda>next.
            bind (d_auto (set_metadata ''authority'' (seal_authority P E nonce next))) (\<lambda>_. ret next))))"

text \<open>The certificate pair or the error, the authority in memory after it, and the file.\<close>

definition currentCertificate :: "pki \<Rightarrow> crypto \<Rightarrow> int \<Rightarrow> string option \<Rightarrow> string \<Rightarrow> string \<times> string \<Rightarrow> authority \<Rightarrow> disk \<Rightarrow>
    (error + string \<times> string) \<times> authority \<times> disk" where
  "currentCertificate P E now leafkey nonce root ca s =
     (let pair = (\<lambda>ca. if x_pair P (ca_Leaf ca) (ca_LeafKey ca) then Inr (ca_Leaf ca, ca_LeafKey ca) else Inl DriverErr)
      in case pem_Decode P (ca_Leaf ca) of
        None \<Rightarrow> (Inl (Err ''invalid server leaf''), ca, s)
      | Some b \<Rightarrow>
          (case x_parse P b of
             None \<Rightarrow> (Inl DriverErr, ca, s)
           | Some (t, _) \<Rightarrow>
               if t * second - now \<le> renewal_window
               then (case renewLeaf P E now leafkey nonce root ca s of
                   (Inl e, s) \<Rightarrow> (Inl e, ca, s)
                 | (Inr ca, s) \<Rightarrow> (pair ca, ca, s))
               else (pair ca, ca, s)))"

text \<open>
  The configuration that \<open>TLSConfig\<close> makes: TLS 1.3, the certificate, a client certificate verified
  against the root when there is one, and a hook that runs for every \<open>ClientHello\<close>.
\<close>

record tls_config =
  MinVersion :: nat
  Certificates :: "(string \<times> string) list"
  VerifyClientCertIfGiven :: bool
  ClientCAs :: string
  per_hello :: bool

definition server_config :: "string \<times> string \<Rightarrow> authority \<Rightarrow> tls_config" where
  "server_config pair ca = \<lparr>MinVersion = 0x0304, Certificates = [pair], VerifyClientCertIfGiven = True,
     ClientCAs = ca_Root ca, per_hello = True\<rparr>"

text \<open>A handshake, with the clock, the key and the nonce that it takes.\<close>

record hello =
  he_now :: int
  he_key :: "string option"
  he_nonce :: string

definition GetConfigForClient :: "pki \<Rightarrow> crypto \<Rightarrow> string \<times> string \<Rightarrow> tls_config \<Rightarrow> hello \<Rightarrow> authority \<Rightarrow> disk \<Rightarrow>
    (error + tls_config) \<times> authority \<times> disk" where
  "GetConfigForClient P E root cfg h ca s =
     (case currentCertificate P E (he_now h) (he_key h) (he_nonce h) root ca s of
        (Inl e, ca, s) \<Rightarrow> (Inl e, ca, s)
      | (Inr pair, ca, s) \<Rightarrow> (Inr (cfg\<lparr>Certificates := [pair], per_hello := False\<rparr>), ca, s))"

fun handshakes :: "pki \<Rightarrow> crypto \<Rightarrow> string \<times> string \<Rightarrow> tls_config \<Rightarrow> hello list \<Rightarrow> authority \<Rightarrow> disk \<Rightarrow>
    (error + tls_config) list \<times> authority \<times> disk" where
  "handshakes P E root cfg [] ca s = ([], ca, s)"
| "handshakes P E root cfg (h # hs) ca s =
     (case GetConfigForClient P E root cfg h ca s of (r, ca, s) \<Rightarrow>
      case handshakes P E root cfg hs ca s of (rs, ca, s) \<Rightarrow> (r # rs, ca, s))"

text \<open>\<open>issue\<close>: a certificate for the key of a signing request, of 30 days.\<close>

definition issue_device :: "pki \<Rightarrow> int \<Rightarrow> string \<times> string \<Rightarrow> string \<Rightarrow> string \<Rightarrow> error + string" where
  "issue_device P now root dev csr =
     (case csr_key P csr of
        None \<Rightarrow> Inl (Err ''invalid CSR'')
      | Some k \<Rightarrow>
          if \<not> is_p256 P k then Inl (Err ''CSR requires P-256 key'')
          else (case create P (device_template now dev) k (fst root) (snd root) of
              None \<Rightarrow> Inl DriverErr
            | Some der \<Rightarrow> Inr (certPEM P der)))"

end
