(* ===== verification/Identity_Facts.thy ===== *)
theory Identity_Facts
  imports Device_Identity Requests
begin

text \<open>
  What the identity file survives: a saved identity loads again, saving never overwrites, and a
  renewal leaves the old or the new identity behind at every moment, exposing the new one only
  when it is on disk.
\<close>

section \<open>What the calls do to the files\<close>

text \<open>The calls that leave a path alone, in every state that is passed through.\<close>

definition unmoved :: "string \<Rightarrow> fsys \<Rightarrow> fsys \<Rightarrow> bool" where
  "unmoved p s s' \<longleftrightarrow> files s' p = files s p \<and> (\<exists>fs. seen s' = seen s @ fs \<and> (\<forall>f \<in> set fs. f p = files s p))"

text \<open>The states passed through are all kept, the last one being the present one.\<close>

definition logged :: "fsys \<Rightarrow> fsys \<Rightarrow> bool" where
  "logged s s' \<longleftrightarrow> (\<exists>fs. seen s' = seen s @ fs \<and> files s' = last (files s # fs))"

interpretation unmoved: passage "unmoved p" for p
  by unfold_locales (auto simp: unmoved_def)

interpretation logged: passage logged
proof unfold_locales
  fix s t u
  assume "logged s t" "logged t u"
  then obtain fs gs where "seen t = seen s @ fs" "files t = last (files s # fs)"
    "seen u = seen t @ gs" "files u = last (files t # gs)" by (auto simp: logged_def)
  then show "logged s u" by (auto simp: logged_def intro!: exI [of _ "fs @ gs"])
qed (simp add: logged_def)

abbreviation leaves :: "string \<Rightarrow> 'a fs_op \<Rightarrow> bool" where
  "leaves p \<equiv> follows (unmoved p)"

lemma fs_tick_simps [simp]: "files (fs_tick s) = files s" "seen (fs_tick s) = seen s"
  "fs_faults (fs_tick s) = tl (fs_faults s)"
  by (simp_all add: fs_tick_def)

lemma pass_through_simps:
  "files (pass_through fs s) = (if fs = [] then files s else last fs)" "seen (pass_through fs s) = seen s @ fs"
  "fs_faults (pass_through fs s) = fs_faults s"
  by (simp_all add: pass_through_def)

lemma prefixes_of_simps: "prefixes_of b \<noteq> []" "last (prefixes_of b) = b"
  by (simp_all add: prefixes_of_def)

lemma unmoved_tick: "unmoved p s (fs_tick s)"
  by (simp add: unmoved_def)

lemma unmoved_pass:
  assumes "\<And>f. f \<in> set fs \<Longrightarrow> f p = files s p"
  shows "unmoved p s (pass_through fs (fs_tick s))"
  unfolding unmoved_def pass_through_simps fs_tick_simps using assms by auto

lemma logged_tick: "logged s (fs_tick s)"
  by (simp add: logged_def)

lemma logged_pass: "logged s (pass_through fs (fs_tick s))"
  unfolding logged_def pass_through_simps fs_tick_simps by (intro exI [of _ fs]) simp

lemma unmoved_calls:
  "leaves p fs_call" "p \<noteq> q \<Longrightarrow> leaves p (create_file q)" "p \<noteq> q \<Longrightarrow> leaves p (write_file q b)"
  unfolding follows_def fs_call_def create_file_def write_file_def
  by (auto split: fault.split intro!: unmoved_tick unmoved_pass)

lemma logged_calls:
  "follows logged fs_call" "follows logged (create_file q)" "follows logged (write_file q b)"
  "follows logged (rename_file q p)"
  unfolding follows_def fs_call_def create_file_def write_file_def rename_file_def
  by (simp_all add: logged_tick logged_pass split: fault.split)

lemma logged_remove_after:
  assumes "follows logged m"
  shows "follows logged (remove_after p m)"
  unfolding follows_def
proof
  fix s
  obtain r t where m: "m s = (r, t)" by (metis prod.exhaust)
  from followsD [OF assms m] have "logged s t" .
  then show "logged s (snd (remove_after p m s))"
    by (auto simp: remove_after_def m intro: logged.joins logged_tick logged_pass)
qed

lemma logged_replace: "follows logged (replace_identity C path pass salt nonce temp i)"
  unfolding replace_identity_def Save_def
  by (auto intro!: logged.binds logged.returns logged_calls logged_remove_after)

lemma leaves_Save: "p \<noteq> q \<Longrightarrow> leaves p (Save C q pass salt nonce i)"
  by (auto simp: Save_def intro!: unmoved.returns unmoved.binds unmoved_calls)

text \<open>An existing file is not opened for writing.\<close>

lemma create_existing: "files s q = Some x \<Longrightarrow> create_file q s = (Inl DriverErr, fs_tick s)"
  by (simp add: create_file_def)

lemma Save_existing:
  assumes "files s q = Some x"
  shows "\<exists>e s'. Save C q pass salt nonce i s = (Inl e, s') \<and> files s' = files s \<and> seen s' = seen s"
  using assms by (auto simp: Save_def fail_def bind_def fs_call_def create_existing)

lemma Save_other:
  assumes "Save C q pass salt nonce i s = (r, s')" "p \<noteq> q \<or> files s p \<noteq> None"
  shows "files s' p = files s p \<and> (\<exists>fs. seen s' = seen s @ fs \<and> (\<forall>f \<in> set fs. f p = files s p))"
proof (cases "p = q")
  case True
  with assms obtain x where "files s q = Some x" by auto
  from Save_existing [OF this, of C pass salt nonce i] assms(1) show ?thesis by auto
next
  case False
  with followsD [OF leaves_Save [OF False] assms(1)] show ?thesis by (simp add: unmoved_def)
qed

lemma Save_Inr:
  assumes "Save C q pass salt nonce i s = (Inr x, s')"
  shows "files s q = None \<and> files s' q = Some (identity_file C pass salt nonce i) \<and> 12 \<le> length pass"
  using assms
  by (auto simp: Save_def fail_def bind_def fs_call_def create_file_def write_file_def pass_through_simps
      prefixes_of_simps last_map split: if_splits fault.splits)

section \<open>Saving and loading\<close>

text \<open>
  The documented laws of the cipher and of \<open>encoding/json\<close> on these types. JSON text is UTF-8: a Go
  string with other bytes is changed by encoding it, and decoding never makes one. So an identity
  comes back from its encoding if its URL and device id are UTF-8 (the other fields are byte slices,
  encoded in base64), and everything decoded is of this kind.
\<close>

definition text_identity :: "identity \<Rightarrow> bool" where
  "text_identity i \<longleftrightarrow> valid_utf8 (id_URL i) \<and> valid_utf8 (id_DeviceID i)"

definition lawful :: "'a client_env_scheme \<Rightarrow> bool" where
  "lawful C \<longleftrightarrow> (\<forall>k. aead_ok (cipher C k)) \<and>
     (\<forall>i. text_identity i \<longrightarrow> unmarshal_identity C (marshal_identity C i) = Some i) \<and>
     (\<forall>b i. unmarshal_identity C b = Some i \<longrightarrow> text_identity i) \<and>
     (\<forall>b url root secret. read_invitation C b = Some (url, root, secret) \<longrightarrow> valid_utf8 url) \<and>
     (\<forall>b dev cert. read_certificate C b = Some (dev, cert) \<longrightarrow> valid_utf8 dev) \<and>
     (\<forall>salt data. unmarshal_encrypted C (marshal_encrypted C 1 salt data) = Some (1, salt, data))"

lemma open_identity_file:
  assumes "lawful C" "length salt = 16" "length nonce = nonce_size" "text_identity i"
  shows "open_identity C pass (identity_file C pass salt nonce i) = Inr i"
  using assms by (simp add: open_identity_def identity_file_def lawful_def Unseal_Seal)

lemma opened_text: "lawful C \<Longrightarrow> open_identity C pass b = Inr i \<Longrightarrow> text_identity i"
  by (auto simp: open_identity_def lawful_def split: option.splits if_splits sum.splits)

lemma lawful_texts:
  "lawful C \<Longrightarrow> read_invitation C b = Some (url, root, secret) \<Longrightarrow> valid_utf8 url"
  "lawful C \<Longrightarrow> read_certificate C b = Some (dev, cert) \<Longrightarrow> valid_utf8 dev"
  unfolding lawful_def by blast+

lemma enrolled_text: "lawful C \<Longrightarrow> Enroll C key post t = Inr i \<Longrightarrow> text_identity i"
  by (auto simp: Enroll_def open_invitation_def text_identity_def Let_def dest: lawful_texts
      split: sum.splits option.splits if_splits prod.splits)

text \<open>An identity that was saved loads again under its passphrase, and saving it touched nothing else:
  there was no file at its path before, and every other file is as it was.\<close>

lemma saved_identity_loads:
  assumes "lawful C" "length salt = 16" "length nonce = nonce_size" "text_identity i"
    and "Save C path pass salt nonce i s = (Inr (), s')"
  shows "fst (Load C path pass (s'\<lparr>fs_faults := []\<rparr>)) = Inr i \<and> files s path = None \<and>
    (\<forall>p. p \<noteq> path \<longrightarrow> files s' p = files s p)"
proof -
  from Save_Inr [OF assms(5)] have f: "files s path = None" "files s' path = Some (identity_file C pass salt nonce i)"
    by auto
  have "p \<noteq> path \<Longrightarrow> files s' p = files s p" for p
    using Save_other [OF assms(5), of p] by simp
  with f open_identity_file [OF assms(1-4), of pass] show ?thesis
    by (simp add: Load_def bind_def read_file_def fs_fault_def ret_def)
qed

section \<open>Renewal\<close>

lemma renewed_Inr:
  assumes "renewed C post i = Inr (j, leaf)"
  shows "j = i\<lparr>id_Certificate := id_Certificate j\<rparr> \<and> verifies C (id_Root i) leaf \<and>
    key_pair C (id_Certificate j) (id_PrivateKey i) = Some leaf"
  using assms unfolding renewed_def
  by (auto split: option.splits prod.splits if_splits)

lemma replace_identity_states:
  assumes "files s path = Some old" "replace_identity C path pass salt nonce temp i s = (r, s')"
  shows "\<exists>fs. seen s' = seen s @ fs \<and>
    (\<forall>f \<in> set (files s' # fs). f path = Some old \<or> f path = Some (identity_file C pass salt nonce i)) \<and>
    (r = Inr () \<longrightarrow> files s' path = Some (identity_file C pass salt nonce i))"
proof -
  obtain r1 s1 where sv: "Save C temp pass salt nonce i s = (r1, s1)" by (metis prod.exhaust)
  from Save_other [OF sv, of path] assms(1) obtain fs where
    1: "files s1 path = Some old" "seen s1 = seen s @ fs" "\<forall>f \<in> set fs. f path = Some old" by auto
  show ?thesis
  proof (cases r1)
    case (Inl e)
    with sv assms(2) 1 show ?thesis by (auto simp: replace_identity_def bind_def)
  next
    case (Inr u)
    with Save_Inr sv have t: "files s temp = None" "files s1 temp = Some (identity_file C pass salt nonce i)"
      by (metis old.unit.exhaust)+
    with assms(1) have ne: "temp \<noteq> path" by auto
    let ?F = "identity_file C pass salt nonce i"
    let ?m = "bind (rename_file temp path) (\<lambda>_. bind fs_call (\<lambda>_. fs_call))"
    from assms(2) sv Inr have rep: "remove_after temp ?m s1 = (r, s')"
      by (simp add: replace_identity_def bind_def)
    show ?thesis
    proof (cases "fs_fault s1 = NoFault")
      case True
      let ?g = "(files s1)(temp := None, path := Some ?F)"
      obtain r2 s2 where m: "?m s1 = (r2, s2)" by (metis prod.exhaust)
      with True t have 2: "files s2 = ?g" "seen s2 = seen s1 @ [?g]"
        by (auto simp: bind_def rename_file_def pass_through_simps fs_call_def split: if_splits)
      with m rep ne have "s' = fs_tick s2" by (auto simp: remove_after_def)
      with 1 2 show ?thesis by (intro exI [of _ "fs @ [?g]"]) auto
    next
      case False
      then have "?m s1 = (Inl DriverErr, fs_tick s1)" by (simp add: bind_def rename_file_def)
      with rep have "r = Inl DriverErr" "s' = fs_tick (fs_tick s1) \<or>
          s' = pass_through [(files s1)(temp := None)] (fs_tick (fs_tick s1))"
        by (auto simp: remove_after_def split: if_splits)
      with 1 ne show ?thesis
        by (elim disjE) (auto simp: pass_through_simps)
    qed
  qed
qed

text \<open>The contents that may be found at the path: the old file, or the whole of the renewed one.\<close>

definition intact :: "'a client_env_scheme \<Rightarrow> (string \<Rightarrow> string \<Rightarrow> (int \<times> string) option) \<Rightarrow> string \<Rightarrow> string \<Rightarrow>
    string \<Rightarrow> string \<Rightarrow> identity \<Rightarrow> string option \<Rightarrow> bool" where
  "intact C post pass salt nonce old i b \<longleftrightarrow> b = Some old \<or>
     (\<exists>j leaf. renewed C post i = Inr (j, leaf) \<and> j = i\<lparr>id_Certificate := id_Certificate j\<rparr> \<and>
        verifies C (id_Root i) leaf \<and> b = Some (identity_file C pass salt nonce j))"

lemma Refresh_states:
  assumes "files s path = Some old"
    and "Refresh C now post path pass salt nonce temp l s = (r, l', s')"
  shows "\<exists>fs. seen s' = seen s @ fs \<and>
    (\<forall>f \<in> set (files s' # fs). intact C post pass salt nonce old (live_id l) (f path)) \<and>
    (l' = l \<or> r = Inr () \<and> files s' path = Some (identity_file C pass salt nonce (live_id l')) \<and>
       renewed C post (live_id l) = Inr (live_id l', live_cert l'))"
proof (cases "l' = l \<and> s' = s")
  case True
  with assms show ?thesis by (simp add: intact_def)
next
  case False
  from assms(2) False obtain i leaf where i: "renewed C post (live_id l) = Inr (i, leaf)"
    unfolding Refresh_def by (auto split: option.splits prod.splits if_splits sum.splits)
  obtain r1 s1 where rep: "replace_identity C path pass salt nonce temp i s = (r1, s1)" by (metis prod.exhaust)
  with assms(2) False i have res: "s' = s1" "l' = (case r1 of Inl _ \<Rightarrow> l | Inr _ \<Rightarrow> \<lparr>live_id = i, live_cert = leaf\<rparr>)"
    "r1 = Inr () \<longrightarrow> r = Inr ()"
    unfolding Refresh_def by (auto split: option.splits prod.splits if_splits sum.splits)
  from replace_identity_states [OF assms(1) rep] res(1) obtain fs where
    st: "seen s' = seen s @ fs" "\<forall>f \<in> set (files s' # fs). f path = Some old \<or> f path = Some (identity_file C pass salt nonce i)"
    "r1 = Inr () \<longrightarrow> files s' path = Some (identity_file C pass salt nonce i)" by auto
  have "\<forall>f \<in> set (files s' # fs). intact C post pass salt nonce old (live_id l) (f path)"
    unfolding intact_def using st(2) i renewed_Inr [OF i] by blast
  moreover have "l' = l \<or> r = Inr () \<and> files s' path = Some (identity_file C pass salt nonce (live_id l')) \<and>
       renewed C post (live_id l) = Inr (live_id l', live_cert l')"
    using res st(3) i by (cases r1) simp_all
  ultimately show ?thesis using st(1) by blast
qed

lemma logged_Refresh:
  assumes "Refresh C now post path pass salt nonce temp l s = (r, l', s')"
  shows "logged s s'"
  using assms unfolding Refresh_def
  by (auto split: option.splits prod.splits if_splits sum.splits
      intro: logged.stays followsD [OF logged_replace])

text \<open>A renewal is atomic: whenever the process stops and whatever call fails, the identity file is the old
  one or the complete renewed one, which differs in nothing but a certificate that verifies; and the
  connector uses a new certificate only when the identity on disk has it.\<close>

lemma renewal_is_atomic:
  assumes "files s path = Some old" "seen s = []"
    and "Refresh C now post path pass salt nonce temp l s = (r, l', s')"
  shows "list_all (\<lambda>f. intact C post pass salt nonce old (live_id l) (f path)) (files s' # seen s') \<and>
    (l' = l \<or> r = Inr () \<and> files s' path = Some (identity_file C pass salt nonce (live_id l')) \<and>
       renewed C post (live_id l) = Inr (live_id l', live_cert l'))"
  using Refresh_states [OF assms(1,3)] assms(2) by (auto simp: list_all_iff)

section \<open>Invitations\<close>

lemma encode_raw_tokens: "list_all token_byte (encode_raw URLSafe s)"
proof -
  have "token_byte (letter URLSafe n)" if "n < 64" for n
  proof (cases "n < 62")
    case True
    then have "is_upper (letter URLSafe n) \<or> is_lower (letter URLSafe n) \<or> is_digit (letter URLSafe n)"
      unfolding byte_class_defs byte_of_letter [OF that] by (cases "n < 26"; cases "n < 52") auto
    then show ?thesis by (auto simp: token_byte_def)
  next
    case False
    with that show ?thesis by (auto simp: letter_def token_byte_def token_punct_def)
  qed
  with split_sextets_bound [of s] show ?thesis by (auto simp: encode_raw_sextets list_all_iff)
qed

text \<open>The text of an invitation is read as it was written: what the owner's page shows for an invitation
  gives the device the URL, the root and the secret of that invitation.\<close>

lemma invitation_is_read:
  assumes "read_invitation C json = Some (url, root, secret)" "server_origin url" "pool_ok C root"
  shows "open_invitation C (RawURLEncoding json) = Inr (url, root, secret)"
  using assms TrimSpace_token [OF encode_raw_tokens, of json]
  by (simp add: open_invitation_def RawURLEncoding_def decode_encode_raw)

section \<open>Witnesses\<close>

text \<open>A concrete encoding: each byte marked, each field ended by a dot.\<close>

fun pack :: "string list \<Rightarrow> string" where
  "pack [] = []"
| "pack ([] # ss) = CHR ''.'' # pack ss"
| "pack ((c # s) # ss) = CHR ''x'' # c # pack (s # ss)"

fun unpack :: "string \<Rightarrow> string list" where
  "unpack [] = []"
| "unpack [c] = [[]]"
| "unpack (m # c # s) =
     (if m = CHR ''.'' then [] # unpack (c # s)
      else (case unpack s of [] \<Rightarrow> [[c]] | t # ts \<Rightarrow> (c # t) # ts))"

lemma unpack_dot: "unpack (CHR ''.'' # s) = [] # unpack s"
  by (cases s) simp_all

lemma unpack_pack: "unpack (pack ss) = ss"
  by (induction ss rule: pack.induct) (simp_all add: unpack_dot)

definition sample_client :: client_env where
  "sample_client = \<lparr>kdf = (\<lambda>p s. p @ s), cipher = sample_cipher,
     marshal_identity = (\<lambda>i. pack [id_URL i, id_Root i, id_Certificate i, id_PrivateKey i, id_DeviceID i]),
     unmarshal_identity = (\<lambda>b. case unpack b of [u, r, c, k, d] \<Rightarrow>
       if valid_utf8 u \<and> valid_utf8 d then Some \<lparr>id_URL = u, id_Root = r,
         id_Certificate = c, id_PrivateKey = k, id_DeviceID = d\<rparr> else None | _ \<Rightarrow> None),
     marshal_encrypted = (\<lambda>v s d. pack [s, d]),
     unmarshal_encrypted = (\<lambda>b. case unpack b of [s, d] \<Rightarrow> Some (1, s, d) | _ \<Rightarrow> None),
     pem_block = Some, parse_leaf = (\<lambda>c. Some (1000, ''dev'')), parse_key = Some, make_csr = Some,
     key_pair = (\<lambda>c k. Some c), pool_ok = (\<lambda>r. r \<noteq> []), verifies = (\<lambda>r c. True),
     read_certificate = (\<lambda>b. Some (''dev'', b)),
     read_invitation = (\<lambda>b. Some (''https://budge.example.com'', ''root'', b))\<rparr>"

lemma sample_client_lawful: "lawful sample_client"
proof -
  have "valid_utf8 ''dev''" "valid_utf8 ''https://budge.example.com''" by code_simp+
  then show ?thesis
    by (auto simp: lawful_def text_identity_def sample_client_def sample_cipher_ok unpack_pack
        split: list.splits if_splits)
qed

definition sample_identity :: identity where
  "sample_identity = \<lparr>id_URL = ''u'', id_Root = ''r'', id_Certificate = ''c'', id_PrivateKey = ''k'', id_DeviceID = ''dev''\<rparr>"

lemma sample_text: "text_identity sample_identity"
  by code_simp

definition sample_fs :: "fault list \<Rightarrow> (string \<Rightarrow> string option) \<Rightarrow> fsys" where
  "sample_fs fs f = \<lparr>files = f, fs_faults = fs, seen = []\<rparr>"

abbreviation sample_save :: "fsys \<Rightarrow> (error + unit) \<times> fsys" where
  "sample_save \<equiv> Save sample_client ''id'' ''a passphrase'' ''sixteen byte sal'' ''twelve bytes'' sample_identity"

theorem saved_identity_loads_witness:
  "\<exists>s. sample_save (sample_fs [] (\<lambda>_. None)) = (Inr (), s) \<and>
     fst (Load sample_client ''id'' ''a passphrase'' (s\<lparr>fs_faults := []\<rparr>)) = Inr sample_identity"
proof -
  have "\<exists>s. sample_save (sample_fs [] (\<lambda>_. None)) = (Inr (), s)"
    by (simp add: Save_def bind_def fs_call_def create_file_def write_file_def fs_fault_def fs_tick_def
        sample_fs_def pass_through_simps pass_through_def)
  then obtain s where s: "sample_save (sample_fs [] (\<lambda>_. None)) = (Inr (), s)" ..
  from saved_identity_loads [OF sample_client_lawful _ _ sample_text s] s show ?thesis by (simp add: nonce_size_def)
qed

text \<open>A renewal whose first write is cut after 3 bytes.\<close>

theorem renewal_is_atomic_witness:
  "\<exists>r l s. Refresh sample_client (900 * second) (\<lambda>url csr. Some (200, ''new'')) ''id'' ''a passphrase''
       ''sixteen byte sal'' ''twelve bytes'' ''.renew-1'' \<lparr>live_id = sample_identity, live_cert = ''c''\<rparr>
       (sample_fs [NoFault, NoFault, CutAfter 3] [''id'' \<mapsto> ''old'']) = (r, l, s) \<and> r \<noteq> Inr () \<and>
     list_all (\<lambda>f. intact sample_client (\<lambda>url csr. Some (200, ''new'')) ''a passphrase'' ''sixteen byte sal''
       ''twelve bytes'' ''old'' sample_identity (f ''id'')) (files s # seen s) \<and> seen s \<noteq> []"
proof -
  let ?run = "Refresh sample_client (900 * second) (\<lambda>url csr. Some (200, ''new'')) ''id'' ''a passphrase''
       ''sixteen byte sal'' ''twelve bytes'' ''.renew-1'' \<lparr>live_id = sample_identity, live_cert = ''c''\<rparr>
       (sample_fs [NoFault, NoFault, CutAfter 3] [''id'' \<mapsto> ''old''])"
  obtain r l s where run: "?run = (r, l, s)" by (metis prod.exhaust)
  have "renewed sample_client (\<lambda>url csr. Some (200, ''new'')) sample_identity =
      Inr (sample_identity\<lparr>id_Certificate := ''new''\<rparr>, ''new'')"
    by (simp add: renewed_def sample_client_def sample_identity_def response_limit_def)
  moreover have "pem_block sample_client (id_Certificate sample_identity) = Some ''c''" "parse_leaf sample_client ''c'' = Some (1000, ''dev'')"
    by (simp_all add: sample_client_def sample_identity_def)
  ultimately have "r = Inl DriverErr \<and> seen s \<noteq> []"
    using run
    by (auto simp: Refresh_def second_def renewal_window_def replace_identity_def Save_def bind_def fs_call_def
        create_file_def write_file_def fs_fault_def sample_fs_def fs_tick_def pass_through_def
        prefixes_of_simps)
  then have "r \<noteq> Inr ()" "seen s \<noteq> []" by auto
  with run renewal_is_atomic [OF _ _ run, of "''old''"] show ?thesis by (simp add: sample_fs_def)
qed

theorem invitation_is_read_witness:
  "open_invitation sample_client (RawURLEncoding ''secret'') = Inr (''https://budge.example.com'', ''root'', ''secret'')"
proof (rule invitation_is_read)
  show "server_origin ''https://budge.example.com''" by code_simp
qed (simp_all add: sample_client_def)

end
