(* ===== verification/Authority_Facts.thy ===== *)
theory Authority_Facts
  imports Authority Identity_Facts
begin

text \<open>
  What the authority promises: the root that devices have stored stays, the file follows the
  memory, and no connection is served with a leaf in its last week, however long the server runs.
\<close>

section \<open>What is kept on the disk\<close>

definition pki_ok :: "'a pki_scheme \<Rightarrow> bool" where
  "pki_ok P \<longleftrightarrow> (\<forall>ca. unmarshal_authority P (marshal_authority P ca) = Some ca) \<and>
     (\<forall>der. pem_Decode P (certPEM P der) = Some der) \<and>
     (\<forall>t k p s der. create P t k p s = Some der \<longrightarrow> x_parse P der = Some (tp_NotAfter t div second, tp_CommonName t))"

definition kept :: "pki \<Rightarrow> crypto \<Rightarrow> authority \<Rightarrow> vault_file \<Rightarrow> bool" where
  "kept P E ca v \<longleftrightarrow> map_of (tables v) ''metadata'' \<noteq> None \<and>
     (\<exists>x. map_of (metadata v) ''authority'' = Some x \<and> open_authority P E x = Inr ca)"

definition same_root :: "authority \<Rightarrow> authority \<Rightarrow> bool" where
  "same_root a b \<longleftrightarrow> ca_Root a = ca_Root b \<and> ca_RootKey a = ca_RootKey b \<and> ca_URL a = ca_URL b"

definition fresh_until :: "pki \<Rightarrow> int \<Rightarrow> authority \<Rightarrow> bool" where
  "fresh_until P now ca = (case leaf_expiry P ca of None \<Rightarrow> False | Some t \<Rightarrow> renewal_window < t * second - now)"

lemma open_seal_authority:
  "pki_ok P \<Longrightarrow> aead_ok E \<Longrightarrow> length nonce = nonce_size \<Longrightarrow>
     open_authority P E (seal_authority P E nonce ca) = Inr ca"
  by (simp add: open_authority_def seal_authority_def pki_ok_def Unseal_Seal)

lemma kept_put:
  assumes "pki_ok P" "aead_ok E" "length nonce = nonce_size"
    and "put_metadata ''authority'' (seal_authority P E nonce ca) v = Some v'"
  shows "kept P E ca v'"
  using assms by (auto simp: put_metadata_def kept_def update_conv' open_seal_authority split: if_splits)

lemma map_of_replace:
  "map_of (map (\<lambda>(j, y). (j, if j = k then x else y)) m) k = (case map_of m k of None \<Rightarrow> None | Some _ \<Rightarrow> Some x)"
  by (induction m) auto

lemma kept_set:
  assumes "pki_ok P" "aead_ok E" "length nonce = nonce_size" "kept P E ca0 v"
    and "set_metadata ''authority'' (seal_authority P E nonce ca) v = Some v'"
  shows "kept P E ca v'"
  using assms by (auto simp: set_metadata_def kept_def map_of_replace open_seal_authority split: if_splits)

lemma second_div: "x - second < x div second * second" "x div second * second \<le> x"
proof -
  have "x div second * second = x - x mod second" by (simp add: minus_mod_eq_div_mult)
  moreover have "0 \<le> x mod second" "x mod second < second" by (simp_all add: second_def)
  ultimately show "x - second < x div second * second" "x div second * second \<le> x" by simp_all
qed

lemma fresh_leaf_facts:
  assumes "pki_ok P" and "fresh_leaf P now key host root ca = Inr ca'"
  shows "same_root ca ca' \<and> fresh_until P now ca'"
proof -
  obtain k der where "create P (leaf_template now host) k (fst root) (snd root) = Some der"
    and ca': "ca' = ca\<lparr>ca_Leaf := certPEM P der, ca_LeafKey := keyPEM P k\<rparr>"
    using assms(2) by (auto simp: fresh_leaf_def split: option.splits)
  with assms(1) have "leaf_expiry P ca' = Some ((now + month) div second)"
    by (auto simp: leaf_expiry_def pki_ok_def leaf_template_def)
  moreover have "renewal_window < (now + month) div second * second - now"
    using second_div(1) [of "now + month"] by (simp add: renewal_window_def month_def second_def)
  ultimately show ?thesis by (simp add: fresh_until_def same_root_def ca')
qed

lemma lift_error_Inr: "lift_error r s = (Inr x, s') \<longleftrightarrow> r = Inr x \<and> s' = s"
  by (auto simp: lift_error_def fail_def ret_def split: sum.splits)

lemma d_query_contents: "d_query f s = (r, s') \<Longrightarrow> contents s' = contents s"
  by (auto simp: d_query_def d_call_def Let_def split: if_splits)

lemma d_auto_contents:
  "d_auto f s = (r, s') \<Longrightarrow>
     (r = Inr () \<and> f (contents s) = Some (contents s')) \<or> (r = Inl DriverErr \<and> contents s' = contents s)"
  by (auto simp: d_auto_def d_call_def Let_def split: if_splits option.splits)

lemma load_authority_kept:
  assumes "kept P E ca0 (contents s)" and "load_authority P E now key url s = (r, s')"
  shows "contents s' = contents s \<and> (\<forall>ca. r = Inr ca \<longrightarrow> ca = ca0 \<and> url = ca_URL ca0)"
proof -
  obtain x where x: "get_metadata ''authority'' (contents s) = Inr (Some x)" "open_authority P E x = Inr ca0"
    using assms(1) by (auto simp: kept_def get_metadata_def)
  then show ?thesis
    using assms(2)
    by (auto simp: load_authority_def bind_def d_query_def d_call_def lift_error_def fail_def ret_def Let_def
        split: if_splits)
qed

lemma initTLS_Inr:
  assumes "initTLS P E now rootkey leafkey nonce url s = (Inr ca, s')"
  obtains u ca1 s1 root where "Parse url = Some u" "https_origin u"
    "load_authority P E now rootkey url s = (Inr ca1, s1)" "root_of P ca1 = Inr root"
    "ca = ca1 \<and> fresh_until P now ca1 \<or> fresh_leaf P now leafkey (Hostname u) root ca1 = Inr ca"
    "d_auto (put_metadata ''authority'' (seal_authority P E nonce ca)) s1 = (Inr (), s')"
proof -
  obtain u where u: "Parse url = Some u" "https_origin u"
    using assms by (auto simp: initTLS_def fail_def split: option.splits if_splits)
  then obtain ca1 s1 root where "load_authority P E now rootkey url s = (Inr ca1, s1)" "root_of P ca1 = Inr root"
    "(case leaf_expiry P ca1 of
        None \<Rightarrow> fresh_leaf P now leafkey (Hostname u) root ca1
      | Some t \<Rightarrow> if renewal_window < t * second - now then Inr ca1
          else fresh_leaf P now leafkey (Hostname u) root ca1) = Inr ca"
    "d_auto (put_metadata ''authority'' (seal_authority P E nonce ca)) s1 = (Inr (), s')"
    using assms by (auto simp: initTLS_def bind_Inr lift_error_Inr) (auto simp: ret_def)
  then show ?thesis
    using u that by (auto simp: fresh_until_def split: option.splits if_splits)
qed

lemma initTLS_error:
  assumes "initTLS P E now rootkey leafkey nonce url s = (Inl e, s')" and "kept P E ca0 (contents s)"
  shows "contents s' = contents s"
proof -
  have lift: "\<And>r s r' s'. lift_error r s = (r', s') \<Longrightarrow> s' = s"
    by (auto simp: lift_error_def fail_def ret_def split: sum.splits)
  obtain r1 s1 where l: "load_authority P E now rootkey url s = (r1, s1)" by (metis prod.exhaust)
  have k: "contents s1 = contents s" using load_authority_kept [OF assms(2) l] by simp
  have m: "contents s2 = contents s1" if "bind (lift_error a) (\<lambda>root. bind (lift_error (b root)) (\<lambda>ca.
      bind (d_auto (f ca)) (\<lambda>_. ret ca))) s1 = (Inl e, s2)" for a b f s2
    using that by (auto simp: bind_def ret_def dest!: lift d_auto_contents split: sum.splits prod.splits)
  show ?thesis
    using assms(1) l k
    by (auto simp: initTLS_def fail_def bind_def [of "load_authority P E now rootkey url"] dest: m
        split: option.splits if_splits sum.splits)
qed

text \<open>C22. The trust root that the devices have stored is never replaced: a start with an authority on
  the disk keeps its root, root key and origin, refuses any other origin, serves a leaf with more
  than a week to live, and leaves in the file the authority that it serves; a start that fails
  leaves the old one there.\<close>

theorem trust_root_is_stable:
  assumes "pki_ok P" "aead_ok E" "length nonce = nonce_size"
    and "kept P E ca0 (contents s)" and "initTLS P E now rootkey leafkey nonce url s = (r, s')"
  shows "case r of
      Inr ca \<Rightarrow> url = ca_URL ca0 \<and> same_root ca0 ca \<and> fresh_until P now ca \<and> kept P E ca (contents s')
    | Inl e \<Rightarrow> kept P E ca0 (contents s')"
proof (cases r)
  case (Inl e)
  then show ?thesis using initTLS_error assms(4,5) by simp
next
  case (Inr ca)
  obtain u ca1 s1 root where l: "load_authority P E now rootkey url s = (Inr ca1, s1)"
    and f: "ca = ca1 \<and> fresh_until P now ca1 \<or> fresh_leaf P now leafkey (Hostname u) root ca1 = Inr ca"
    and w: "d_auto (put_metadata ''authority'' (seal_authority P E nonce ca)) s1 = (Inr (), s')"
    by (rule initTLS_Inr [OF assms(5) [unfolded Inr]])
  have "ca1 = ca0 \<and> url = ca_URL ca0" using load_authority_kept [OF assms(4) l] by simp
  moreover have "same_root ca1 ca \<and> fresh_until P now ca"
    using f fresh_leaf_facts [OF assms(1), of now leafkey "Hostname u" root ca1 ca] by (auto simp: same_root_def)
  moreover have "kept P E ca (contents s')"
    using d_auto_contents [OF w] kept_put [OF assms(1-3)] by auto
  ultimately show ?thesis using Inr by simp
qed

text \<open>The first start creates the root and stores it.\<close>

lemma first_start_keeps:
  assumes "pki_ok P" "aead_ok E" "length nonce = nonce_size"
    and "initTLS P E now rootkey leafkey nonce url s = (Inr ca, s')"
  shows "kept P E ca (contents s') \<and> fresh_until P now ca"
  using assms by (auto elim!: initTLS_Inr dest!: d_auto_contents dest: fresh_leaf_facts kept_put)

lemma renewLeaf_facts:
  assumes "pki_ok P" "aead_ok E" "length nonce = nonce_size" "kept P E ca (contents s)"
    and "renewLeaf P E now leafkey nonce root ca s = (r, s')"
  shows "case r of Inl e \<Rightarrow> contents s' = contents s
    | Inr next \<Rightarrow> same_root ca next \<and> fresh_until P now next \<and> kept P E next (contents s')"
  using assms(5)
  by (auto simp: renewLeaf_def bind_def ret_def fail_def lift_error_def split: if_splits option.splits sum.splits prod.splits
      dest!: d_auto_contents dest: fresh_leaf_facts [OF assms(1)] kept_set [OF assms(1-4)])

lemma served_leaf_is_fresh:
  assumes "pki_ok P" "aead_ok E" "length nonce = nonce_size" "kept P E ca (contents s)"
    and "currentCertificate P E now leafkey nonce root ca s = (r, ca', s')"
  shows "same_root ca ca' \<and> kept P E ca' (contents s') \<and>
    (\<forall>leaf key. r = Inr (leaf, key) \<longrightarrow> leaf = ca_Leaf ca' \<and> key = ca_LeafKey ca' \<and> fresh_until P now ca')"
proof -
  have old: "same_root ca ca" by (simp add: same_root_def)
  obtain r1 s1 where n: "renewLeaf P E now leafkey nonce root ca s = (r1, s1)" by (metis prod.exhaust)
  have facts: "case r1 of Inl e \<Rightarrow> contents s1 = contents s
    | Inr next \<Rightarrow> same_root ca next \<and> fresh_until P now next \<and> kept P E next (contents s1)"
    using renewLeaf_facts [OF assms(1-4) n] .
  show ?thesis
    using assms(4,5) n facts old
    by (auto simp: currentCertificate_def Let_def fresh_until_def leaf_expiry_def
        split: option.splits if_splits sum.splits prod.splits)
qed

lemma same_root_trans: "same_root a b \<Longrightarrow> same_root b c \<Longrightarrow> same_root a c"
  by (simp add: same_root_def)

text \<open>What a connection is configured with: a pair of the same root, with more than a week to live.\<close>

definition well_served :: "pki \<Rightarrow> tls_config \<Rightarrow> authority \<Rightarrow> hello \<Rightarrow> error + tls_config \<Rightarrow> bool" where
  "well_served P cfg ca h r \<longleftrightarrow> (case r of Inl e \<Rightarrow> True
     | Inr c \<Rightarrow> \<exists>now. same_root ca now \<and> fresh_until P (he_now h) now \<and>
         c = cfg\<lparr>Certificates := [(ca_Leaf now, ca_LeafKey now)], per_hello := False\<rparr>)"

lemma GetConfigForClient_facts:
  assumes "pki_ok P" "aead_ok E" "length (he_nonce h) = nonce_size" "kept P E ca (contents s)"
    and "GetConfigForClient P E root cfg h ca s = (r, ca', s')"
  shows "same_root ca ca' \<and> kept P E ca' (contents s') \<and> well_served P cfg ca h r"
proof -
  obtain r1 ca1 s1 where c: "currentCertificate P E (he_now h) (he_key h) (he_nonce h) root ca s = (r1, ca1, s1)"
    by (metis prod.exhaust)
  with served_leaf_is_fresh [OF assms(1-4) c] assms(5) show ?thesis
    by (auto simp: GetConfigForClient_def well_served_def split: sum.splits)
qed

lemma well_served_root: "same_root ca ca' \<Longrightarrow> well_served P cfg ca' h r \<Longrightarrow> well_served P cfg ca h r"
  by (auto simp: well_served_def split: sum.splits intro: same_root_trans)

text \<open>C23. However long the server runs and at whatever times devices connect, every connection is given a
  certificate with more than a week to live, of the root, key and origin the server started with,
  under the settings of \<open>TLSConfig\<close>; and after every handshake, whether it gave a certificate or an
  error, the file holds the authority that the server has in memory.\<close>

theorem connections_get_fresh_leaves:
  assumes "pki_ok P" "aead_ok E" "list_all (\<lambda>h. length (he_nonce h) = nonce_size) hs" "kept P E ca (contents s)"
    and "handshakes P E root cfg hs ca s = (rs, ca', s')"
  shows "same_root ca ca' \<and> kept P E ca' (contents s') \<and> list_all2 (well_served P cfg ca) hs rs"
  using assms(3-5)
proof (induction hs arbitrary: ca s rs)
  case Nil
  then show ?case by (simp add: same_root_def)
next
  case (Cons h hs)
  obtain r ca1 s1 where g: "GetConfigForClient P E root cfg h ca s = (r, ca1, s1)" by (metis prod.exhaust)
  obtain rs' where rest: "handshakes P E root cfg hs ca1 s1 = (rs', ca', s')" and rs: "rs = r # rs'"
    using Cons.prems(3) g by (auto split: prod.splits)
  have 1: "same_root ca ca1" "kept P E ca1 (contents s1)" "well_served P cfg ca h r"
    using GetConfigForClient_facts [OF assms(1,2) _ Cons.prems(2) g] Cons.prems(1) by auto
  from Cons.IH [OF _ 1(2) rest] Cons.prems(1) have "same_root ca1 ca'" "kept P E ca' (contents s')"
    "list_all2 (well_served P cfg ca1) hs rs'" by auto
  with 1 rs show ?case
    by (auto intro: same_root_trans elim!: list_all2_mono well_served_root)
qed

text \<open>A certificate of \<open>issue\<close> names the device and lives thirty days.\<close>

lemma issued_certificate:
  assumes "pki_ok P" and "issue_device P now root dev csr = Inr cert"
  shows "\<exists>der t k. pem_Decode P cert = Some der \<and> x_parse P der = Some (t, dev) \<and> csr_key P csr = Some k \<and>
    is_p256 P k \<and> now + month - second < t * second \<and> t * second \<le> now + month"
  using assms second_div [of "now + month"]
  by (auto simp: issue_device_def pki_ok_def device_template_def split: option.splits if_splits)

section \<open>A server over its lifetime\<close>

text \<open>A toy PKI: a certificate is its common name and its expiry in unary seconds.\<close>

definition unary :: "int \<Rightarrow> string" where
  "unary z = replicate (nat z) CHR ''s'' @ replicate (nat (- z)) CHR ''n''"

definition sample_pki :: pki where
  "sample_pki = \<lparr>create = (\<lambda>t k p s. Some (pack [tp_CommonName t, unary (tp_NotAfter t div second)])),
     certPEM = (\<lambda>d. d), keyPEM = (\<lambda>k. k), pem_Decode = Some,
     x_parse = (\<lambda>d. case unpack d of
         [n, z] \<Rightarrow> Some (int (count_list z CHR ''s'') - int (count_list z CHR ''n''), n) | _ \<Rightarrow> None),
     x_key = Some, csr_key = Some, is_p256 = (\<lambda>k. True), x_pair = (\<lambda>c k. True),
     marshal_authority = (\<lambda>ca. pack [ca_Root ca, ca_RootKey ca, ca_Leaf ca, ca_LeafKey ca, ca_URL ca]),
     unmarshal_authority = (\<lambda>b. case unpack b of
         [r, rk, l, lk, u] \<Rightarrow> Some \<lparr>ca_Root = r, ca_RootKey = rk, ca_Leaf = l, ca_LeafKey = lk, ca_URL = u\<rparr>
       | _ \<Rightarrow> None)\<rparr>"

lemma count_replicate: "count_list (replicate n c) d = (if c = d then n else 0)"
  by (induction n) auto

lemma sample_pki_ok: "pki_ok sample_pki"
  by (auto simp: pki_ok_def sample_pki_def unpack_pack unary_def count_replicate)

definition sample_ca :: "int \<Rightarrow> authority" where
  "sample_ca now = \<lparr>ca_Root = pack [''Budge trust root'', unary 300000000], ca_RootKey = ''rk'',
     ca_Leaf = pack [[], unary (now + 30 * 24 * 3600)], ca_LeafKey = ''lk'', ca_URL = ''https://budge.example.com''\<rparr>"

definition sample_authority_disk :: "int \<Rightarrow> disk" where
  "sample_authority_disk now = (let v = \<lparr>user_version = 4, tables = schema_at 4,
       metadata = [(''authority'', seal_authority sample_pki (sample_cipher ''k'') ''twelve bytes'' (sample_ca now))]\<rparr>
     in \<lparr>contents = v, pending = v, locked = True, disk_faults = []\<rparr>)"

lemma sample_kept: "kept sample_pki (sample_cipher ''k'') (sample_ca now) (contents (sample_authority_disk now))"
proof -
  have "map_of (schema_at 4) ''metadata'' \<noteq> None" by code_simp
  then show ?thesis
    by (simp add: kept_def sample_authority_disk_def Let_def open_seal_authority sample_pki_ok sample_cipher_ok nonce_size_def)
qed

lemma sample_parsed:
  "x_parse sample_pki (ca_Leaf (sample_ca now)) = Some (now + 30 * 24 * 3600, [])"
  "x_parse sample_pki (ca_Root (sample_ca now)) = Some (300000000, ''Budge trust root'')"
  by (simp_all add: sample_pki_def sample_ca_def unpack_pack unary_def count_replicate del: pack.simps)

lemma sample_pem: "pem_Decode sample_pki b = Some b" "x_key sample_pki b = Some b" "x_pair sample_pki b c"
  "\<exists>der. create sample_pki t k par sg = Some der"
  by (simp_all add: sample_pki_def)

lemma sample_origin:
  "\<exists>u. Parse ''https://budge.example.com'' = Some u \<and> https_origin u"
proof -
  have "case Parse ''https://budge.example.com'' of None \<Rightarrow> False | Some u \<Rightarrow> https_origin u"
    by code_simp
  then show ?thesis by (auto split: option.splits)
qed

lemma sample_fresh_leaf:
  "\<exists>ca. fresh_leaf sample_pki now (Some k) host root (sample_ca t) = Inr ca"
  using sample_pem(4) [of "leaf_template now host" k "fst root" "snd root"] by (auto simp: fresh_leaf_def)

text \<open>A device connects at the first start and again 25 days later, when the leaf is renewed.\<close>

abbreviation sample_hello :: "int \<Rightarrow> hello" where
  "sample_hello t \<equiv> \<lparr>he_now = t, he_key = Some ''new'', he_nonce = ''twelve bytes''\<rparr>"

theorem connections_get_fresh_leaves_witness:
  "\<exists>rs ca s. handshakes sample_pki (sample_cipher ''k'') (''root'', ''rk'') (server_config (''leaf'', ''lk'') (sample_ca 0))
       [sample_hello 0, sample_hello (25 * day)] (sample_ca 0) (sample_authority_disk 0) = (rs, ca, s) \<and>
     list_all (\<lambda>r. \<exists>c. r = Inr c) rs \<and>
     list_all2 (well_served sample_pki (server_config (''leaf'', ''lk'') (sample_ca 0)) (sample_ca 0))
       [sample_hello 0, sample_hello (25 * day)] rs \<and> ca \<noteq> sample_ca 0"
proof -
  let ?hs = "[sample_hello 0, sample_hello (25 * day)]"
  let ?cfg = "server_config (''leaf'', ''lk'') (sample_ca 0)"
  have first: "currentCertificate sample_pki (sample_cipher ''k'') 0 (Some ''new'') ''twelve bytes'' (''root'', ''rk'')
      (sample_ca 0) (sample_authority_disk 0) =
      (Inr (ca_Leaf (sample_ca 0), ca_LeafKey (sample_ca 0)), sample_ca 0, sample_authority_disk 0)"
    by (simp add: currentCertificate_def sample_pem sample_parsed Let_def renewal_window_def second_def)
  obtain u where u: "Parse (ca_URL (sample_ca 0)) = Some u"
    using sample_origin by (auto simp: sample_ca_def)
  obtain ca where ca: "fresh_leaf sample_pki (25 * day) (Some ''new'') (Hostname u) (''root'', ''rk'') (sample_ca 0) = Inr ca"
    using sample_fresh_leaf by blast
  have "map_of (schema_at 4) ''metadata'' \<noteq> None" by code_simp
  then obtain s where "renewLeaf sample_pki (sample_cipher ''k'') (25 * day) (Some ''new'') ''twelve bytes''
       (''root'', ''rk'') (sample_ca 0) (sample_authority_disk 0) = (Inr ca, s)"
    using u ca by (auto simp: renewLeaf_def bind_def ret_def lift_error_def d_auto_def d_call_def Let_def
        sample_authority_disk_def set_metadata_def)
  then have second: "currentCertificate sample_pki (sample_cipher ''k'') (25 * day) (Some ''new'') ''twelve bytes''
      (''root'', ''rk'') (sample_ca 0) (sample_authority_disk 0) = (Inr (ca_Leaf ca, ca_LeafKey ca), ca, s)"
    by (simp add: currentCertificate_def sample_pem sample_parsed Let_def renewal_window_def day_def second_def)
  obtain rs where run: "handshakes sample_pki (sample_cipher ''k'') (''root'', ''rk'') ?cfg ?hs (sample_ca 0)
      (sample_authority_disk 0) = (rs, ca, s)" and rs: "list_all (\<lambda>r. \<exists>c. r = Inr c) rs"
    using first second by (simp add: GetConfigForClient_def)
  have "list_all (\<lambda>h. length (he_nonce h) = nonce_size) ?hs" by (simp add: nonce_size_def)
  note all = connections_get_fresh_leaves [OF sample_pki_ok sample_cipher_ok this sample_kept run]
  have "ca_LeafKey ca = ''new''" "ca_LeafKey (sample_ca 0) = ''lk''"
    using ca by (auto simp: fresh_leaf_def sample_ca_def sample_pki_def split: option.splits)
  then have "ca \<noteq> sample_ca 0" by auto
  with all run rs show ?thesis by blast
qed

theorem trust_root_is_stable_witness:
  "\<exists>ca s. initTLS sample_pki (sample_cipher ''k'') (25 * day) None (Some ''new'') ''twelve bytes''
       ''https://budge.example.com'' (sample_authority_disk 0) = (Inr ca, s) \<and>
     same_root (sample_ca 0) ca \<and> fresh_until sample_pki (25 * day) ca \<and>
     kept sample_pki (sample_cipher ''k'') ca (contents s)"
proof -
  let ?r = "initTLS sample_pki (sample_cipher ''k'') (25 * day) None (Some ''new'') ''twelve bytes''
       ''https://budge.example.com'' (sample_authority_disk 0)"
  obtain u where u: "Parse ''https://budge.example.com'' = Some u" "https_origin u"
    using sample_origin by auto
  have load: "load_authority sample_pki (sample_cipher ''k'') (25 * day) None ''https://budge.example.com''
      (sample_authority_disk 0) = (Inr (sample_ca 0), sample_authority_disk 0)"
    using sample_kept [of 0]
    by (auto simp: load_authority_def kept_def get_metadata_def bind_def d_query_def d_call_def Let_def
        lift_error_def ret_def fail_def sample_authority_disk_def sample_ca_def)
  have root: "root_of sample_pki (sample_ca 0) = Inr (ca_Root (sample_ca 0), ca_RootKey (sample_ca 0))"
    by (simp add: root_of_def sample_pem sample_parsed)
  obtain ca where ca: "fresh_leaf sample_pki (25 * day) (Some ''new'') (Hostname u)
      (ca_Root (sample_ca 0), ca_RootKey (sample_ca 0)) (sample_ca 0) = Inr ca"
    using sample_fresh_leaf by blast
  have t: "leaf_expiry sample_pki (sample_ca 0) = Some (30 * 24 * 3600)"
    by (simp add: leaf_expiry_def sample_pem sample_parsed)
  have "map_of (schema_at 4) ''metadata'' \<noteq> None" by code_simp
  then obtain s where run: "?r = (Inr ca, s)"
    using u load root ca t
    by (auto simp: initTLS_def bind_def ret_def lift_error_def d_auto_def d_call_def Let_def put_metadata_def
        renewal_window_def day_def second_def sample_authority_disk_def)
  from trust_root_is_stable [OF sample_pki_ok sample_cipher_ok _ sample_kept run] run show ?thesis
    by (auto simp: nonce_size_def)
qed

end
