(* ===== verification/Commands.thy ===== *)
theory Commands
  imports Authority_Facts Connector_Facts Fault_Free
begin

text \<open>
  The commands of \<open>cmd/budge/main.go\<close>: the order in which \<open>server\<close>, \<open>enroll\<close> and \<open>connect\<close> run the operations
  of the other theories, and what each of them checks first. Flags are arguments; a secret is read
  from its descriptor (the terminal is outside). Listening is a call that succeeds or not.
\<close>

section \<open>Secrets from a descriptor\<close>

definition line_end :: "char \<Rightarrow> bool" where
  "line_end c \<longleftrightarrow> c = CHR 0x0A \<or> c = CHR 0x0D"

definition strip_line :: "string \<Rightarrow> string" where
  "strip_line s = rev (dropWhile line_end (rev s))"

text \<open>
  \<open>ReadString\<close> on the first 64 KiB: up to the first newline, or up to the end. The input is the bytes
  it delivers and whether it ends properly.
\<close>

definition secret_line :: "string \<times> bool \<Rightarrow> string option" where
  "secret_line inp =
     (let b = take (64 * 1024) (fst inp) in
      if CHR 0x0A \<in> set b then Some (strip_line (takeWhile (\<lambda>c. c \<noteq> CHR 0x0A) b @ [CHR 0x0A]))
      else if length b = 64 * 1024 \<or> snd inp then Some (strip_line b) else None)"

section \<open>\<open>budge server\<close>\<close>

definition owner_host :: "string \<Rightarrow> bool \<Rightarrow> string \<Rightarrow> error + string" where
  "owner_host ownerAddr containerMode ownerHost =
     (case SplitHostPort ownerAddr of
        None \<Rightarrow> Inl (Err ''owner listener must bind loopback, or explicitly use container mode'')
      | Some (h, _) \<Rightarrow>
          if h \<noteq> ''127.0.0.1'' \<and> \<not> (h = ''0.0.0.0'' \<and> containerMode)
          then Inl (Err ''owner listener must bind loopback, or explicitly use container mode'')
          else let host = (if ownerHost = [] then ownerAddr else ownerHost) in
            (case SplitHostPort host of
               None \<Rightarrow> Inl (Err ''owner-host must be an explicit 127.0.0.1 host and port'')
             | Some (e, _) \<Rightarrow>
                 if e \<noteq> ''127.0.0.1'' then Inl (Err ''owner-host must be an explicit 127.0.0.1 host and port'')
                 else Inr host))"

text \<open>
  The flags, the secrets, and what the outside supplies: the clock, salts, nonces and keys, whether
  the two listeners could be opened. \<open>sv_hash\<close> is what \<open>store.Password\<close> makes of the password.
\<close>

record server_args =
  sv_url :: string
  sv_owner_listen :: string
  sv_container :: bool
  sv_owner_host :: string
  sv_restored :: bool
  sv_unlock :: "string \<times> bool"
  sv_password :: "string \<times> bool"
  sv_now :: int
  sv_salt :: string
  sv_nonce :: string
  sv_root_key :: "string option"
  sv_leaf_key :: "string option"
  sv_owner_id :: string
  sv_hash :: string
  sv_device_listens :: bool
  sv_owner_listens :: bool

text \<open>The database is seen twice: as a file (theory Vault) and as its tables (theory Store).\<close>

record host =
  h_disk :: disk
  h_store :: txst

definition on_disk :: "'a disk_op \<Rightarrow> host \<Rightarrow> (error + 'a) \<times> host" where
  "on_disk m h = (case m (h_disk h) of (r, s) \<Rightarrow> (r, h\<lparr>h_disk := s\<rparr>))"

definition on_tables :: "'a tx \<Rightarrow> host \<Rightarrow> (error + 'a) \<times> host" where
  "on_tables m h = (case m (h_store h) of (r, t) \<Rightarrow> (r, h\<lparr>h_store := t\<rparr>))"

definition h_value :: "error + 'a \<Rightarrow> host \<Rightarrow> (error + 'a) \<times> host" where
  "h_value r h = (r, h)"

text \<open>\<open>defer db.Close()\<close> on the error returns.\<close>

definition h_close_on_error :: "(host \<Rightarrow> (error + 'a) \<times> host) \<Rightarrow> host \<Rightarrow> (error + 'a) \<times> host" where
  "h_close_on_error m h = (case m h of
     (Inl e, h') \<Rightarrow> (Inl e, h'\<lparr>h_disk := Close (h_disk h')\<rparr>) | (Inr x, h') \<Rightarrow> (Inr x, h'))"

text \<open>\<open>server.New\<close>.\<close>

definition New :: "pki \<Rightarrow> crypto \<Rightarrow> server_args \<Rightarrow> string \<Rightarrow> host \<Rightarrow> (error + authority) \<times> host" where
  "New P E a password =
     bind (on_disk (initTLS P E (sv_now a) (sv_root_key a) (sv_leaf_key a) (sv_nonce a) (sv_url a))) (\<lambda>ca.
     bind (on_tables (New_tx (unix (sv_now a)) password (sv_owner_id a) (sv_hash a))) (\<lambda>_. h_value (Inr ca)))"

definition the_root :: "pki \<Rightarrow> authority \<Rightarrow> string \<times> string" where
  "the_root P ca = (case root_of P ca of Inl _ \<Rightarrow> ([], []) | Inr root \<Rightarrow> root)"

definition TLSConfig :: "pki \<Rightarrow> crypto \<Rightarrow> server_args \<Rightarrow> authority \<Rightarrow> host \<Rightarrow> (error + authority) \<times> host" where
  "TLSConfig P E a ca h =
     (case currentCertificate P E (sv_now a) (sv_leaf_key a) (sv_nonce a) (the_root P ca) ca (h_disk h) of
        (Inl e, ca', s) \<Rightarrow> (Inl e, h\<lparr>h_disk := s\<rparr>)
      | (Inr pair, ca', s) \<Rightarrow> (Inr ca', h\<lparr>h_disk := s\<rparr>))"

definition prepare :: "pki \<Rightarrow> crypto \<Rightarrow> server_args \<Rightarrow> host \<Rightarrow> (error + authority) \<times> host" where
  "prepare P E a =
     bind (on_tables (query_now (\<lambda>d. length (owners d)))) (\<lambda>n.
     bind (h_value (if n = 0
         then (case secret_line (sv_password a) of None \<Rightarrow> Inl DriverErr | Some p \<Rightarrow> Inr p) else Inr [])) (\<lambda>password.
     bind (New P E a password) (\<lambda>ca.
     bind (if sv_restored a then on_tables (RecoverRestored (unix (sv_now a))) else h_value (Inr ())) (\<lambda>_.
     bind (TLSConfig P E a ca) (\<lambda>ca.
       h_value (if \<not> sv_device_listens a \<or> \<not> sv_owner_listens a then Inl DriverErr else Inr ca))))))"

text \<open>Everything up to \<open>serve\<close>: the key of the database and the authority in memory.\<close>

definition start_server :: "vault_env \<Rightarrow> pki \<Rightarrow> server_args \<Rightarrow> host \<Rightarrow> (error + crypto \<times> authority) \<times> host" where
  "start_server V P a h =
     (case owner_host (sv_owner_listen a) (sv_container a) (sv_owner_host a) of
        Inl e \<Rightarrow> (Inl e, h)
      | Inr host \<Rightarrow>
          (case secret_line (sv_unlock a) of
             None \<Rightarrow> (Inl DriverErr, h)
           | Some unlock \<Rightarrow>
               bind (on_disk (Open V unlock (sv_salt a) (sv_nonce a))) (\<lambda>E.
                 h_close_on_error (bind (prepare P E a) (\<lambda>ca. h_value (Inr (E, ca))))) h))"

section \<open>\<open>budge enroll\<close>\<close>

text \<open>\<open>os.Stat\<close> finds the file unless the call fails.\<close>

definition stat_file :: "string \<Rightarrow> bool fs_op" where
  "stat_file path s = (Inr (fs_fault s = NoFault \<and> files s path \<noteq> None), fs_tick s)"

definition enroll_command :: "'a client_env_scheme \<Rightarrow> string option \<Rightarrow> (string \<Rightarrow> string \<Rightarrow> string \<Rightarrow> (int \<times> string) option) \<Rightarrow>
    string \<Rightarrow> string \<Rightarrow> string \<Rightarrow> string \<times> bool \<Rightarrow> string \<times> bool \<Rightarrow> identity fs_op" where
  "enroll_command C key post path salt nonce invitation passphrase =
     bind (stat_file path) (\<lambda>found.
       if found then fail (Err ''identity already exists'')
       else (case secret_line invitation of
           None \<Rightarrow> fail DriverErr
         | Some text \<Rightarrow>
             (case secret_line passphrase of
                None \<Rightarrow> fail DriverErr
              | Some pass \<Rightarrow>
                  if length pass < 12 then fail (Err ''passphrase must have at least 12 characters'')
                  else (case Enroll C key post text of
                      Inl e \<Rightarrow> fail e
                    | Inr i \<Rightarrow> bind (Save C path pass salt nonce i) (\<lambda>_. ret i)))))"

section \<open>\<open>budge connect\<close>\<close>

record connect_args =
  cn_path :: string
  cn_listen :: string
  cn_passphrase :: "string \<times> bool"
  cn_now :: int
  cn_salt :: string
  cn_nonce :: string
  cn_temp :: string
  cn_uid :: "32 word"
  cn_listens :: bool
  cn_mkdir :: bool
  cn_dir :: "file_info option"
  cn_socket :: bool
  cn_chmod :: bool

text \<open>\<open>Transport\<close> and \<open>NewRenewal\<close>: the pair of certificate and key, and the root.\<close>

definition NewRenewal :: "'a client_env_scheme \<Rightarrow> identity \<Rightarrow> error + live" where
  "NewRenewal C i =
     (case key_pair C (id_Certificate i) (id_PrivateKey i) of
        None \<Rightarrow> Inl DriverErr
      | Some leaf \<Rightarrow> if \<not> pool_ok C (id_Root i) then Inl (Err ''invalid identity root'')
          else Inr \<lparr>live_id = i, live_cert = leaf\<rparr>)"

definition connect_command :: "'a client_env_scheme \<Rightarrow> (string \<Rightarrow> string \<Rightarrow> (int \<times> string) option) \<Rightarrow> connect_args \<Rightarrow>
    (identity \<times> live) fs_op" where
  "connect_command C post a =
     (case secret_line (cn_passphrase a) of
        None \<Rightarrow> fail DriverErr
      | Some pass \<Rightarrow>
          bind (Load C (cn_path a) pass) (\<lambda>i.
            case NewRenewal C i of
              Inl e \<Rightarrow> fail e
            | Inr l0 \<Rightarrow> (\<lambda>s.
                (case Refresh C (cn_now a) post (cn_path a) pass (cn_salt a) (cn_nonce a) (cn_temp a) l0 s of
                   (Inl e, l, s) \<Rightarrow> (Inl e, s)
                 | (Inr _, l, s) \<Rightarrow>
                     (case ConnectorTransport i (cn_listen a) of
                        Inl e \<Rightarrow> (Inl e, s)
                      | Inr handler \<Rightarrow>
                          if \<not> cn_listens a then (Inl DriverErr, s)
                          else (case ListenSocket (cn_uid a) (cn_mkdir a) (cn_dir a) (cn_socket a) (cn_chmod a) of
                              Inl e \<Rightarrow> (Inl e, s)
                            | Inr _ \<Rightarrow> (Inr (i, l), s)))))))"

end
