(* ===== verification/Command_Facts.thy ===== *)
theory Command_Facts
  imports Commands Scenario
begin

text \<open>
  What the commands promise: a server that is up has recovered, holds the lock and serves a fresh
  leaf, one that is not has released the lock; an enrolled device connects; and an enrolment whose
  file cannot be written cannot be repeated.
\<close>

section \<open>The lock\<close>

lemma os_call_lock: "os_call s = (r, s') \<Longrightarrow> locked s' = locked s"
  by (auto simp: os_call_def d_call_def Let_def split: if_splits)

lemma lock_file_lock:
  "lock_file s = (r, s') \<Longrightarrow> (case r of Inl e \<Rightarrow> locked s' = locked s | Inr _ \<Rightarrow> \<not> locked s \<and> locked s')"
  by (auto simp: lock_file_def d_call_def Let_def split: if_splits)

lemma close_on_error_lock: "close_on_error m s = (Inl e, s') \<Longrightarrow> \<not> locked s'"
  by (auto simp: close_on_error_def Close_def split: prod.splits sum.splits)

lemma Open_lock:
  assumes "Open V unlock salt nonce s = (r, s')"
  shows "case r of Inl e \<Rightarrow> locked s' = locked s | Inr _ \<Rightarrow> \<not> locked s"
proof (cases "length unlock < 12")
  case True
  with assms show ?thesis by (auto simp: Open_def fail_def)
next
  case False
  obtain r1 s1 where 1: "os_call s = (r1, s1)" by (metis prod.exhaust)
  obtain r2 s2 where 2: "os_call s1 = (r2, s2)" by (metis prod.exhaust)
  obtain r3 s3 where 3: "lock_file s2 = (r3, s3)" by (metis prod.exhaust)
  show ?thesis
    using assms False 1 2 3 os_call_lock [OF 1] os_call_lock [OF 2] lock_file_lock [OF 3]
    by (auto simp: Open_def bind_def [of os_call] bind_def [of lock_file] split: sum.splits dest: close_on_error_lock)
qed

text \<open>Operations that leave the lock and the version of the schema alone.\<close>

definition same_lock :: "disk \<Rightarrow> disk \<Rightarrow> bool" where
  "same_lock s s' \<longleftrightarrow> locked s' = locked s \<and> user_version (contents s') = user_version (contents s)"

interpretation same_lock: passage same_lock
  by unfold_locales (auto simp: same_lock_def)

abbreviation steady :: "'a disk_op \<Rightarrow> bool" where
  "steady \<equiv> follows same_lock"

lemmas steady_def = follows_def same_lock_def

named_theorems steady_intros

lemma steady_ret [steady_intros]: "steady (ret x)" "steady (fail e)" "steady (lift_error r)" "steady (d_query f)"
  by (auto simp: steady_def ret_def fail_def lift_error_def d_query_def d_call_def Let_def split: sum.splits)

lemma steady_write [steady_intros]: "steady (d_auto (put_metadata k x))" "steady (d_auto (set_metadata k x))"
  by (auto simp: steady_def d_auto_def d_call_def put_metadata_def set_metadata_def Let_def)

lemmas steady_bind [steady_intros] = same_lock.binds

lemma steady_load [steady_intros]: "steady (load_authority P E now key url)"
  unfolding load_authority_def by (auto intro!: steady_intros split: option.split)

lemma steady_initTLS [steady_intros]: "steady (initTLS P E now rootkey leafkey nonce url)"
  unfolding initTLS_def by (auto intro!: steady_intros split: option.split)

lemma steady_renewLeaf [steady_intros]: "steady (renewLeaf P E now leafkey nonce root ca)"
  unfolding renewLeaf_def by (auto intro!: steady_intros split: option.split)

lemma steadyD: "steady m \<Longrightarrow> m s = (r, s') \<Longrightarrow> locked s' = locked s \<and> user_version (contents s') = user_version (contents s)"
  using followsD [of same_lock m s r s'] by (simp add: same_lock_def)

lemma currentCertificate_steady:
  assumes "currentCertificate P E now leafkey nonce root ca s = (r, ca', s')"
  shows "locked s' = locked s \<and> user_version (contents s') = user_version (contents s)"
  using assms steadyD [OF steady_renewLeaf [of P E now leafkey nonce root ca]]
  by (auto simp: currentCertificate_def Let_def split: option.splits if_splits sum.splits prod.splits)

section \<open>The tables at the start\<close>

text \<open>
  As long as no iteration over rows is cut short, a transaction that succeeds is a transaction on a
  store that works: any statement that fails makes it fail.
\<close>

definition whole :: "txst \<Rightarrow> bool" where
  "whole s \<longleftrightarrow> (\<forall>n. CutAfter n \<notin> set (faults s))"

definition unfailing :: "txst \<Rightarrow> txst" where
  "unfailing s = clear (committed s) (working s)"

definition honest :: "'a tx \<Rightarrow> bool" where
  "honest m \<longleftrightarrow> (\<forall>s x t. whole s \<longrightarrow> m s = (Inr x, t) \<longrightarrow> whole t \<and> m (unfailing s) = (Inr x, unfailing t))"

named_theorems honest_rules

lemma honestD: "honest m \<Longrightarrow> whole s \<Longrightarrow> m s = (Inr x, t) \<Longrightarrow> whole t \<and> m (unfailing s) = (Inr x, unfailing t)"
  unfolding honest_def by blast

lemma honest_bind [honest_rules]: "honest m \<Longrightarrow> (\<And>x. honest (f x)) \<Longrightarrow> honest (bind m f)"
  unfolding honest_def bind_Inr by metis

lemma whole_tick: "whole s \<Longrightarrow> whole (tick s)"
  by (cases "faults s") (auto simp: whole_def tick_def)

lemma whole_next: "whole s \<Longrightarrow> next_fault s \<noteq> CutAfter n"
  by (cases "faults s") (auto simp: whole_def next_fault_def)

lemma whole_update [simp]: "whole (s\<lparr>working := w\<rparr>) \<longleftrightarrow> whole s" "whole (s\<lparr>committed := w\<rparr>) \<longleftrightarrow> whole s"
  by (simp_all add: whole_def)

lemma honest_leaves [honest_rules]:
  "honest (ret x)" "honest (fail e)" "honest begin_tx" "honest commit" "honest (query f)" "honest (query_now f)"
  "honest (exec g)" "honest (exec_now g)" "honest (query_rows h)"
  by (auto simp: honest_def ret_def fail_def begin_tx_def commit_def query_def query_now_def exec_def exec_now_def
      query_rows_def no_faults unfailing_def whole_next whole_tick split: if_splits option.splits fault.splits
      dest: whole_tick)

lemmas honest_splits [honest_rules] = tx_split [where P = honest]

lemma honest_Audit [honest_rules]: "honest (Audit i dev kind entity)"
  unfolding Audit_def by (intro honest_rules)

lemma honest_for_each [honest_rules]: "(\<And>i. honest (f i)) \<Longrightarrow> honest (for_each f ids)"
  by (induction ids) (auto intro!: honest_rules)

lemma honest_New: "honest (New_tx now password i hash)"
  unfolding New_tx_def create_owner_def recoverDispatches_def close_request_def by (intro honest_rules)

lemma honest_Restored: "honest (RecoverRestored now)"
  unfolding RecoverRestored_def revoke_device_row_def cancelRequests_def close_request_def by (intro honest_rules)

lemma create_owner_clear:
  assumes "create_owner password i hash (clear d w) = (r, t)"
  shows "\<exists>d'. t = clear d' w \<and> requests d' = requests d \<and> devices d' = devices d \<or> r \<noteq> Inr ()"
  using assms by (auto simp: create_owner_def query_now_def exec_now_def plain_run insert_owner_def split: if_splits option.splits)

definition recovered_db :: "int \<Rightarrow> db \<Rightarrow> db" where
  "recovered_db now d = close_all outcome_unknown ''server_restarted_during_dispatch_check_provider'' now (interrupted d) d"

lemma recover_clear: "recoverDispatches now (clear d w) = (Inr (), clear (recovered_db now d) (recovered_db now d))"
  by (simp add: recoverDispatches_def plain_run plain_close_all interrupted_def recovered_db_def)

lemma recovered_requests:
  assumes "distinct (map rq_id (requests d))"
  shows "list_all (\<lambda>q. rq_status q \<noteq> dispatching) (requests (recovered_db now d)) \<and>
    map rq_id (requests (recovered_db now d)) = map rq_id (requests d)"
  using requests_closed_scope [OF assms]
  by (auto simp add: recovered_db_def interrupted_def closed_def [abs_def] list_all_iff simp del: requests_close_all)

definition settled :: "bool \<Rightarrow> db \<Rightarrow> bool" where
  "settled restored d \<longleftrightarrow> list_all (\<lambda>q. rq_status q \<noteq> dispatching) (requests d) \<and>
     (restored \<longrightarrow> list_all dev_revoked (devices d) \<and> sessions d = [])"

lemma New_settles:
  assumes "distinct (map rq_id (requests d))" and "New_tx now password i hash (clear d w) = (Inr (), t)"
  shows "\<exists>e. t = clear e e \<and> settled False e \<and> distinct (map rq_id (requests e))"
proof -
  obtain r1 t1 where c: "create_owner password i hash (clear d w) = (r1, t1)" by (metis prod.exhaust)
  with assms(2) have r1: "r1 = Inr ()" by (cases r1) (auto simp: New_tx_def bind_def)
  from create_owner_clear [OF c] r1 obtain d' where "t1 = clear d' w" "requests d' = requests d" by auto
  with assms c r1 recovered_requests [of d'] show ?thesis
    by (auto simp: New_tx_def bind_def recover_clear settled_def)
qed

lemma Restored_settles:
  assumes "distinct (map rq_id (requests d))" "settled False d" and "RecoverRestored now (clear d d) = (r, t)"
  shows "settled True (committed t)"
proof -
  obtain d' where d': "run_tx [] (RecoverRestored now) d = (Inr (), d')" "sessions d' = []"
    "devices d' = map (\<lambda>r. r\<lparr>dev_revoked := True\<rparr>) (devices d)"
    "requests d' = map (\<lambda>r. if rq_device r \<in> dev_id ` set (devices d) \<and> rq_status r \<in> {pending_approval, queued}
        then closed cancelled ''restored_database_recovery'' now r else r) (requests d)"
    using plain_RecoverRestored [OF assms(1)] by blast
  have "committed t = d'" using d'(1) assms(3) by (simp add: run_tx_def)
  with d' assms(2) show ?thesis by (auto simp: settled_def list_all_iff closed_def)
qed

section \<open>A server that is up\<close>

lemma h_bind_Inr: "bind m f h = (Inr y, h') \<longleftrightarrow> (\<exists>x h1. m h = (Inr x, h1) \<and> f x h1 = (Inr y, h'))"
  by (auto simp: bind_def split: prod.splits sum.splits)

lemma on_disk_Inr: "on_disk m h = (r, h') \<longleftrightarrow> (\<exists>s. m (h_disk h) = (r, s) \<and> h' = h\<lparr>h_disk := s\<rparr>)"
  by (auto simp: on_disk_def split: prod.splits)

lemma on_tables_Inr: "on_tables m h = (r, h') \<longleftrightarrow> (\<exists>t. m (h_store h) = (r, t) \<and> h' = h\<lparr>h_store := t\<rparr>)"
  by (auto simp: on_tables_def split: prod.splits)

lemma h_value_Inr: "h_value r h = (r', h') \<longleftrightarrow> r' = r \<and> h' = h"
  by (auto simp: h_value_def)

lemma tables_settle:
  assumes "whole (h_store h)" "distinct (map rq_id (requests (committed (h_store h))))"
    and "on_tables (query_now f) h = (Inr (n0 :: nat), ha)"
    and "New_tx now password i hash (h_store ha) = (Inr (), t1)"
    and "(if restored then RecoverRestored now t1 else (Inr (), t1)) = (Inr (), t2)"
  shows "settled restored (committed t2)"
proof -
  have "whole (h_store ha)" "unfailing (h_store ha) = unfailing (h_store h)"
    using assms(1,3) by (auto simp: on_tables_Inr query_now_def unfailing_def tick_def whole_tick [unfolded tick_def]
        split: if_splits)
  with honestD [OF honest_New _ assms(4)] have n: "whole t1"
    "New_tx now password i hash (unfailing (h_store h)) = (Inr (), unfailing t1)"
    by simp_all
  obtain e where e: "unfailing t1 = clear e e" "settled False e" "distinct (map rq_id (requests e))"
    using New_settles [OF assms(2) n(2) [unfolded unfailing_def [of "h_store h"]]] by blast
  show ?thesis
  proof (cases restored)
    case True
    with honestD [OF honest_Restored n(1)] assms(5) have "RecoverRestored now (clear e e) = (Inr (), unfailing t2)"
      by (simp add: e(1))
    from Restored_settles [OF e(3,2) this] True show ?thesis by (simp add: unfailing_def)
  next
    case False
    with assms(5) e show ?thesis by (auto simp: unfailing_def)
  qed
qed

lemma prepare_up:
  assumes laws: "pki_ok P" "aead_ok E" "length (sv_nonce a) = nonce_size"
    and run: "prepare P E a h = (Inr ca, h')"
  shows "locked (h_disk h') = locked (h_disk h) \<and>
    user_version (contents (h_disk h')) = user_version (contents (h_disk h)) \<and>
    kept P E ca (contents (h_disk h')) \<and> fresh_until P (sv_now a) ca \<and>
    (whole (h_store h) \<longrightarrow> distinct (map rq_id (requests (committed (h_store h)))) \<longrightarrow>
      settled (sv_restored a) (committed (h_store h')))"
proof -
  obtain n0 ha password hb ca1 h1 u h2 ca2 h3
    where q0: "on_tables (query_now (\<lambda>d. length (owners d))) h = (Inr n0, ha)"
    and pw: "h_value (if n0 = 0 then (case secret_line (sv_password a) of None \<Rightarrow> Inl DriverErr | Some p \<Rightarrow> Inr p)
        else Inr []) ha = (Inr password, hb)"
    and N: "New P E a password hb = (Inr ca1, h1)"
    and rs: "(if sv_restored a then on_tables (RecoverRestored (unix (sv_now a))) else h_value (Inr ())) h1 = (Inr u, h2)"
    and t: "TLSConfig P E a ca1 h2 = (Inr ca2, h3)"
    and l: "h_value (if \<not> sv_device_listens a \<or> \<not> sv_owner_listens a then Inl DriverErr else Inr ca2) h3 = (Inr ca, h')"
    using run unfolding prepare_def h_bind_Inr by blast
  have New: "New P E a password ha = (Inr ca1, h1)" "h_disk ha = h_disk h"
    using N pw q0 by (auto simp: h_value_Inr on_tables_Inr)
  have tls: "TLSConfig P E a ca1 h2 = (Inr ca, h')" using t l by (auto simp: h_value_Inr split: if_splits)
  obtain s1 t1 where i: "initTLS P E (sv_now a) (sv_root_key a) (sv_leaf_key a) (sv_nonce a) (sv_url a) (h_disk h) = (Inr ca1, s1)"
    and n: "New_tx (unix (sv_now a)) password (sv_owner_id a) (sv_hash a) (h_store ha) = (Inr (), t1)"
    and h1: "h1 = ha\<lparr>h_disk := s1, h_store := t1\<rparr>"
    using New by (auto simp: New_def h_bind_Inr on_tables_Inr on_disk_Inr h_value_Inr)
  have "(if sv_restored a then on_tables (RecoverRestored (unix (sv_now a))) else h_value (Inr ())) h1 = (Inr (), h2)"
    using rs by simp
  then obtain t2 where rr: "(if sv_restored a then RecoverRestored (unix (sv_now a)) t1 else (Inr (), t1)) = (Inr (), t2)"
    and h2: "h2 = ha\<lparr>h_disk := s1, h_store := t2\<rparr>"
    by (auto simp: on_tables_Inr h_value_Inr h1 split: if_splits)
  obtain s3 pair where c: "currentCertificate P E (sv_now a) (sv_leaf_key a) (sv_nonce a) (the_root P ca1) ca1 s1 = (Inr pair, ca, s3)"
    and h': "h' = ha\<lparr>h_disk := s3, h_store := t2\<rparr>"
    using tls by (auto simp: TLSConfig_def h2 split: prod.splits sum.splits)
  have 1: "kept P E ca1 (contents s1)" "fresh_until P (sv_now a) ca1" using first_start_keeps [OF laws i] by auto
  have 2: "locked s1 = locked (h_disk h)" "user_version (contents s1) = user_version (contents (h_disk h))"
    using steadyD [OF steady_initTLS i] by auto
  have 3: "kept P E ca (contents s3)" "fresh_until P (sv_now a) ca"
    using served_leaf_is_fresh [OF laws 1(1) c] by (cases pair; auto)+
  have 4: "locked s3 = locked s1" "user_version (contents s3) = user_version (contents s1)"
    using currentCertificate_steady [OF c] by auto
  from 2 3 4 tables_settle [OF _ _ q0 n rr] show ?thesis by (simp add: h')
qed

text \<open>C21. A server that has started and a server that has not. When \<open>budge server\<close> gets as far as serving,
  whatever calls on the disk and statements on the tables failed, it holds the lock, the schema is
  complete, the authority in memory is the one on the disk, and its leaf has more than a week. No
  request is left in dispatch, and with \<open>--recover-restored\<close> every device and session is gone, provided
  that no iteration over rows ended early: that is the one fault which these transactions do not
  notice. When the server stops before that, the lock is as it was, so the next start is not turned
  away.\<close>

theorem server_start:
  assumes "\<forall>k. aead_ok (cipher V k)" "pki_ok P" "length (sv_nonce a) = nonce_size" "migrated (contents (h_disk h))"
    and "distinct (map rq_id (requests (committed (h_store h))))"
    and "start_server V P a h = (r, h')"
  shows "case r of
      Inl e \<Rightarrow> locked (h_disk h') = locked (h_disk h)
    | Inr (E, ca) \<Rightarrow>
        \<not> locked (h_disk h) \<and> locked (h_disk h') \<and> user_version (contents (h_disk h')) = length migrations \<and>
        kept P E ca (contents (h_disk h')) \<and> fresh_until P (sv_now a) ca \<and>
        ((\<forall>n. CutAfter n \<notin> set (faults (h_store h))) \<longrightarrow>
          list_all (\<lambda>q. rq_status q \<noteq> dispatching) (requests (committed (h_store h'))) \<and>
          (sv_restored a \<longrightarrow> list_all dev_revoked (devices (committed (h_store h'))) \<and> sessions (committed (h_store h')) = []))"
proof (cases "\<exists>host unlock. owner_host (sv_owner_listen a) (sv_container a) (sv_owner_host a) = Inr host \<and>
    secret_line (sv_unlock a) = Some unlock")
  case False
  with assms(6) show ?thesis
    by (auto simp: start_server_def split: sum.splits option.splits)
next
  case True
  then obtain unlock where run: "bind (on_disk (Open V unlock (sv_salt a) (sv_nonce a))) (\<lambda>E.
      h_close_on_error (bind (prepare P E a) (\<lambda>ca. h_value (Inr (E, ca))))) h = (r, h')"
    using assms(6) by (auto simp: start_server_def)
  obtain r1 s1 where O: "Open V unlock (sv_salt a) (sv_nonce a) (h_disk h) = (r1, s1)" by (metis prod.exhaust)
  note lock = Open_lock [OF O]
  show ?thesis
  proof (cases r1)
    case (Inl e)
    with run O lock show ?thesis by (auto simp: bind_def on_disk_def)
  next
    case (Inr E)
    let ?h1 = "h\<lparr>h_disk := s1\<rparr>"
    have up: "unlockable V unlock E (contents s1)" "locked s1" "\<not> locked (h_disk h)"
      using Open_Inr [OF _ assms(3,4) O [unfolded Inr]] assms(1) lock Inr by auto
    then have E: "aead_ok E" using assms(1) by (auto simp: unlockable_def)
    from run O Inr have p: "h_close_on_error (bind (prepare P E a) (\<lambda>ca. h_value (Inr (E, ca)))) ?h1 = (r, h')"
      by (simp add: bind_def [of "on_disk _"] on_disk_def)
    show ?thesis
    proof (cases r)
      case (Inl e)
      with p up(3) show ?thesis by (auto simp: h_close_on_error_def Close_def split: prod.splits sum.splits)
    next
      case (Inr x)
      with p obtain ca where x: "x = (E, ca)" "prepare P E a ?h1 = (Inr ca, h')"
        by (auto simp: h_close_on_error_def h_bind_Inr h_value_Inr split: prod.splits sum.splits)
      from prepare_up [OF assms(2) E assms(3) x(2)] assms(5) up Inr x(1) show ?thesis
        by (simp add: unlockable_def whole_def settled_def)
    qed
  qed
qed

lemma initTLS_again:
  assumes "Parse url = Some u" "https_origin u" "load_authority P E now rootkey url s = (Inr ca, s)" "root_of P ca = Inr root"
    and "leaf_expiry P ca = Some t" "renewal_window < t * second - now"
    and "map_of (vault_file.tables (contents s)) ''metadata'' \<noteq> None" "disk_faults s = []"
  shows "\<exists>s1. initTLS P E now rootkey leafkey nonce url s = (Inr ca, s1)"
  using assms by (auto simp: initTLS_def bind_def ret_def lift_error_def d_auto_def d_call_def Let_def put_metadata_def)

text \<open>A restart on the database of the scenario whose request was being sent.\<close>

definition sample_key :: crypto where
  "sample_key = cipher sample_env (kdf sample_env ''a long secret'' ''salt'')"

definition sample_file :: vault_file where
  "sample_file = \<lparr>user_version = 4, tables = schema_at 4, metadata =
     [(''salt'', ''salt''), (''check'', Seal sample_key ''twelve bytes'' check_purpose check_text),
      (''authority'', seal_authority sample_pki sample_key ''twelve bytes'' (sample_ca 0))]\<rparr>"

definition sample_host :: host where
  "sample_host = \<lparr>h_disk = \<lparr>contents = sample_file, pending = sample_file, locked = False, disk_faults = []\<rparr>,
     h_store = clear db7 db7\<rparr>"

definition sample_args :: server_args where
  "sample_args = \<lparr>sv_url = ''https://budge.example.com'', sv_owner_listen = ''127.0.0.1:18780'', sv_container = False,
     sv_owner_host = [], sv_restored = False, sv_unlock = (''a long secret'' @ [CHR 0x0A], True), sv_password = ([], True),
     sv_now = 0, sv_salt = ''other'', sv_nonce = ''twelve bytes'', sv_root_key = None, sv_leaf_key = Some ''new'',
     sv_owner_id = [], sv_hash = [], sv_device_listens = True, sv_owner_listens = True\<rparr>"

lemma sample_key_ok: "aead_ok sample_key"
  by (simp add: sample_key_def sample_env_def sample_cipher_ok)

lemma sample_table: "map_of (schema_at 4) ''metadata'' \<noteq> None"
  by code_simp

lemma sample_file_kept: "kept sample_pki sample_key (sample_ca 0) sample_file"
  using sample_table
  by (simp add: kept_def sample_file_def open_seal_authority sample_pki_ok sample_key_ok nonce_size_def)

lemma sample_opens: "Open sample_env ''a long secret'' ''other'' ''twelve bytes'' (h_disk sample_host) =
    (Inr sample_key, (h_disk sample_host)\<lparr>locked := True\<rparr>)"
proof -
  have "length migrations = 4" by code_simp
  moreover have "Unseal sample_key check_purpose (Seal sample_key ''twelve bytes'' check_purpose check_text) = Inr check_text"
    by (rule Unseal_Seal [OF sample_key_ok]) (simp add: nonce_size_def)
  ultimately have "unlockable sample_env ''a long secret'' sample_key sample_file"
    using sample_table by (simp add: unlockable_def get_metadata_def sample_file_def) (simp add: sample_key_def)
  then show ?thesis
    using Open_again [of sample_env "''a long secret''" sample_key "h_disk sample_host"]
    by (simp add: sample_host_def)
qed

lemma sample_prepares:
  "\<exists>h. prepare sample_pki sample_key sample_args (sample_host\<lparr>h_disk := (h_disk sample_host)\<lparr>locked := True\<rparr>\<rparr>) = (Inr (sample_ca 0), h)"
proof -
  let ?h = "sample_host\<lparr>h_disk := (h_disk sample_host)\<lparr>locked := True\<rparr>\<rparr>"
  obtain u where u: "Parse ''https://budge.example.com'' = Some u" "https_origin u" using sample_origin by auto
  have load: "load_authority sample_pki sample_key 0 None ''https://budge.example.com'' (h_disk ?h) = (Inr (sample_ca 0), h_disk ?h)"
    using sample_file_kept
    by (auto simp: load_authority_def kept_def get_metadata_def bind_def d_query_def d_call_def Let_def
        lift_error_def ret_def fail_def sample_host_def sample_ca_def)
  have root: "root_of sample_pki (sample_ca 0) = Inr (ca_Root (sample_ca 0), ca_RootKey (sample_ca 0))"
    by (simp add: root_of_def sample_pem sample_parsed)
  have t: "leaf_expiry sample_pki (sample_ca 0) = Some (30 * 24 * 3600)"
    by (simp add: leaf_expiry_def sample_pem sample_parsed)
  obtain s1 where s1: "initTLS sample_pki sample_key 0 None (Some ''new'') ''twelve bytes'' ''https://budge.example.com'' (h_disk ?h) =
      (Inr (sample_ca 0), s1)"
    using initTLS_again [OF u load root t, of "Some ''new''" "''twelve bytes''"] sample_table
    by (auto simp: renewal_window_def second_def sample_host_def sample_file_def)
  have own: "owners db7 \<noteq> []" by (simp add: db7_def db6_def db5_def db4_def db3_def db2_def db1_def audited_def)
  have new: "New_tx 0 [] [] [] (clear db7 db7) = (Inr (), clear (recovered_db 0 db7) (recovered_db 0 db7))"
    using own by (simp add: New_tx_def create_owner_def query_now_def plain_run recover_clear)
  have cert: "currentCertificate sample_pki sample_key 0 (Some ''new'') ''twelve bytes'' r (sample_ca 0) s =
      (Inr (ca_Leaf (sample_ca 0), ca_LeafKey (sample_ca 0)), sample_ca 0, s)" for r s
    by (simp add: currentCertificate_def sample_pem sample_parsed Let_def renewal_window_def second_def)
  show ?thesis
    using s1 own new cert
    by (simp add: prepare_def bind_def on_tables_def on_disk_def h_value_def New_def TLSConfig_def sample_args_def
        query_now_def plain_run unix_def)
      (simp add: sample_host_def query_now_def plain_run bind_def h_value_def TLSConfig_def)
qed

theorem server_start_witness:
  "\<exists>h. start_server sample_env sample_pki sample_args sample_host = (Inr (sample_key, sample_ca 0), h) \<and>
     locked (h_disk h) \<and> list_all (\<lambda>q. rq_status q \<noteq> dispatching) (requests (committed (h_store h)))"
proof -
  obtain h where h: "prepare sample_pki sample_key sample_args
      (sample_host\<lparr>h_disk := (h_disk sample_host)\<lparr>locked := True\<rparr>\<rparr>) = (Inr (sample_ca 0), h)"
    using sample_prepares by blast
  have "owner_host (sv_owner_listen sample_args) (sv_container sample_args) (sv_owner_host sample_args) = Inr ''127.0.0.1:18780''"
    "secret_line (sv_unlock sample_args) = Some ''a long secret''"
    by (simp add: sample_args_def, code_simp)
      (simp add: sample_args_def secret_line_def Let_def strip_line_def line_end_def)
  moreover have "sv_salt sample_args = ''other''" "sv_nonce sample_args = ''twelve bytes''"
    by (simp_all add: sample_args_def)
  ultimately have run: "start_server sample_env sample_pki sample_args sample_host = (Inr (sample_key, sample_ca 0), h)"
    using h sample_opens
    by (simp add: start_server_def bind_def on_disk_def h_close_on_error_def h_value_def)
  have "migrated (contents (h_disk sample_host))" "distinct (map rq_id (requests (committed (h_store sample_host))))"
  proof -
    have "length migrations = 4" by code_simp
    then show "migrated (contents (h_disk sample_host))" by (simp add: migrated_def sample_host_def sample_file_def)
    have "requests db7 = [request_row0\<lparr>rq_status := dispatching\<rparr>]" by (simp add: db7_def audited_def)
    then show "distinct (map rq_id (requests (committed (h_store sample_host))))" by (simp add: sample_host_def)
  qed
  from server_start [OF _ sample_pki_ok _ this(1) this(2) run] run show ?thesis
    by (auto simp: sample_env_def sample_cipher_ok sample_args_def nonce_size_def sample_host_def settled_def)
qed

section \<open>Enrolling and connecting\<close>

lemma Enroll_ok: "Enroll C key post text = Inr i \<Longrightarrow> identity_ok C i"
  by (auto simp: Enroll_def Let_def split: sum.splits prod.splits option.splits if_splits)

lemma enroll_command_Inr:
  assumes "enroll_command C key post path salt nonce invitation passphrase s = (Inr i, s')"
  obtains pass s1 inv where "secret_line passphrase = Some pass" "identity_ok C i"
    "Save C path pass salt nonce i s1 = (Inr (), s')" "Enroll C key post inv = Inr i"
  using assms
  by (auto simp: enroll_command_def bind_def stat_file_def fail_def ret_def
      split: if_splits option.splits sum.splits prod.splits dest: Enroll_ok)

text \<open>C31. A device that was enrolled connects: after \<open>budge enroll\<close> has succeeded, \<open>budge connect\<close> with the
  same passphrase, on a loopback address and a private directory, comes up with the very identity
  that was enrolled; it asks the server for nothing while the certificate has more than a week.\<close>

theorem enrolled_device_connects:
  assumes "lawful C" "length salt = 16" "length nonce = nonce_size"
    and "enroll_command C key post path salt nonce invitation passphrase s = (Inr i, s')"
    and "cn_path a = path" "secret_line (cn_passphrase a) = secret_line passphrase"
    and "Option.bind (pem_block C (id_Certificate i)) (parse_leaf C) = Some (t, name)"
    and "renewal_window < t * second - cn_now a"
    and "connector_host (cn_listen a)" "cn_listens a" "cn_mkdir a" "cn_socket a" "cn_chmod a"
    and "cn_dir a = Some st" "fi_kind st = Directory" "owned_only (cn_uid a) st"
  shows "\<exists>l s2. connect_command C post' a (s'\<lparr>fs_faults := []\<rparr>) = (Inr (i, l), s2) \<and> live_id l = i \<and>
    files s2 = files s'"
proof -
  obtain pass s1 inv where p: "secret_line passphrase = Some pass" "identity_ok C i"
    "Save C path pass salt nonce i s1 = (Inr (), s')" "Enroll C key post inv = Inr i"
    by (rule enroll_command_Inr [OF assms(4)])
  have "files s' path = Some (identity_file C pass salt nonce i)" using Save_Inr [OF p(3)] by simp
  then have load: "Load C path pass (s'\<lparr>fs_faults := []\<rparr>) = (Inr i, s'\<lparr>fs_faults := []\<rparr>)"
    using open_identity_file [OF assms(1-3) enrolled_text [OF assms(1) p(4)], of pass]
    by (simp add: Load_def bind_def read_file_def fs_fault_def ret_def fs_tick_def)
  obtain leaf where leaf: "NewRenewal C i = Inr \<lparr>live_id = i, live_cert = leaf\<rparr>"
    using p(2) by (auto simp: NewRenewal_def identity_ok_def)
  obtain b where "pem_block C (id_Certificate i) = Some b" "parse_leaf C b = Some (t, name)"
    using assms(7) by (auto simp: bind_eq_Some_conv)
  then have ref: "Refresh C (cn_now a) post' path pass (cn_salt a) (cn_nonce a) (cn_temp a) \<lparr>live_id = i, live_cert = leaf\<rparr> x =
      (Inr (), \<lparr>live_id = i, live_cert = leaf\<rparr>, x)" for x
    using assms(8) by (simp add: Refresh_def)
  show ?thesis
    using assms(5,6,9-16) p(1) load leaf ref
    by (simp add: connect_command_def bind_def ConnectorTransport_def ListenSocket_def)
qed

text \<open>C32. An enrolment that is cut short cannot be repeated: when the server has accepted the invitation
  and writing the new identity file then fails, the file stays behind, and every later
  \<open>budge enroll\<close> for that path ends with \<open>identity already exists\<close> before it reads anything.\<close>

theorem enroll_cut_short:
  assumes "files s path = None" "fs_faults s = [NoFault, NoFault, NoFault, CutAfter n]"
    and "secret_line invitation = Some text" "secret_line passphrase = Some pass" "12 \<le> length pass"
    and "Enroll C key post text = Inr i"
  shows "\<exists>s'. enroll_command C key post path salt nonce invitation passphrase s = (Inl DriverErr, s') \<and>
    files s' path = Some (take n (identity_file C pass salt nonce i)) \<and>
    enroll_command C key' post' path salt' nonce' invitation' passphrase' s' =
      (Inl (Err ''identity already exists''), s')"
proof -
  let ?b = "identity_file C pass salt nonce i"
  obtain s' where S: "Save C path pass salt nonce i (fs_tick s) = (Inl DriverErr, s')"
    and f: "files s' path = Some (take n ?b)" "fs_faults s' = []"
    using assms(1,2,5)
    by (auto simp: Save_def bind_def fs_call_def create_file_def write_file_def fs_fault_def pass_through_simps
        prefixes_of_simps last_map)
  have "enroll_command C key post path salt nonce invitation passphrase s = (Inl DriverErr, s')"
    using assms S by (simp add: enroll_command_def bind_def stat_file_def)
  moreover have "fs_tick s' = s'" using f(2) by (cases s') (simp add: fs_tick_def)
  then have "enroll_command C key' post' path salt' nonce' invitation' passphrase' s' =
      (Inl (Err ''identity already exists''), s')"
    using f by (simp add: enroll_command_def bind_def stat_file_def fs_fault_def fail_def)
  ultimately show ?thesis using f(1) by blast
qed

definition sample_enrolled :: identity where
  "sample_enrolled = \<lparr>id_URL = ''https://budge.example.com'', id_Root = ''root'', id_Certificate = ''cert'',
     id_PrivateKey = ''k'', id_DeviceID = ''dev''\<rparr>"

abbreviation sample_post :: "string \<Rightarrow> string \<Rightarrow> string \<Rightarrow> (int \<times> string) option" where
  "sample_post \<equiv> (\<lambda>url secret csr. Some (200, ''cert''))"

lemma sample_invitation: "open_invitation sample_client ''eA'' = Inr (''https://budge.example.com'', ''root'', ''x'')"
proof -
  have "decode_raw URLSafe (TrimSpace ''eA'') = Some ''x''" "server_origin ''https://budge.example.com''"
    by code_simp+
  then show ?thesis by (simp add: open_invitation_def sample_client_def)
qed

lemma sample_enrols: "Enroll sample_client (Some ''k'') sample_post ''eA'' = Inr sample_enrolled"
  using sample_invitation
  by (simp add: Enroll_def sample_client_def identity_ok_def response_limit_def sample_enrolled_def Let_def)

abbreviation sample_line :: "string \<Rightarrow> string \<times> bool" where
  "sample_line x \<equiv> (x @ [CHR 0x0A], True)"

lemma sample_lines:
  "secret_line (sample_line ''eA'') = Some ''eA''" "secret_line (sample_line ''a passphrase'') = Some ''a passphrase''"
  by (simp_all add: secret_line_def Let_def strip_line_def line_end_def)

theorem enroll_cut_short_witness:
  "\<exists>s'. enroll_command sample_client (Some ''k'') sample_post ''id'' ''sixteen byte sal'' ''twelve bytes''
       (sample_line ''eA'') (sample_line ''a passphrase'') (sample_fs [NoFault, NoFault, NoFault, CutAfter 3] (\<lambda>_. None)) =
       (Inl DriverErr, s') \<and> files s' ''id'' \<noteq> None"
proof -
  have "files (sample_fs [NoFault, NoFault, NoFault, CutAfter 3] (\<lambda>_. None)) ''id'' = None"
    "fs_faults (sample_fs [NoFault, NoFault, NoFault, CutAfter 3] (\<lambda>_. None)) = [NoFault, NoFault, NoFault, CutAfter 3]"
    by (simp_all add: sample_fs_def)
  from enroll_cut_short [OF this sample_lines _ sample_enrols, of "''sixteen byte sal''" "''twelve bytes''"]
  show ?thesis by (simp del: append.simps) blast
qed

definition sample_connect :: connect_args where
  "sample_connect = \<lparr>cn_path = ''id'', cn_listen = ''127.0.0.1:18782'', cn_passphrase = sample_line ''a passphrase'',
     cn_now = - renewal_window, cn_salt = [], cn_nonce = [], cn_temp = [], cn_uid = 1000, cn_listens = True,
     cn_mkdir = True, cn_dir = Some \<lparr>fi_kind = Directory, fi_perm = 0x1C0, fi_uid = 1000\<rparr>, cn_socket = True,
     cn_chmod = True\<rparr>"

theorem enrolled_device_connects_witness:
  "\<exists>s' l s2. enroll_command sample_client (Some ''k'') sample_post ''id'' ''sixteen byte sal'' ''twelve bytes''
       (sample_line ''eA'') (sample_line ''a passphrase'') (sample_fs [] (\<lambda>_. None)) = (Inr sample_enrolled, s') \<and>
     connect_command sample_client (\<lambda>url csr. None) sample_connect (s'\<lparr>fs_faults := []\<rparr>) = (Inr (sample_enrolled, l), s2)"
proof -
  have "\<exists>s'. enroll_command sample_client (Some ''k'') sample_post ''id'' ''sixteen byte sal'' ''twelve bytes''
       (sample_line ''eA'') (sample_line ''a passphrase'') (sample_fs [] (\<lambda>_. None)) = (Inr sample_enrolled, s')"
    using sample_lines sample_enrols
    by (simp add: enroll_command_def bind_def stat_file_def ret_def Save_def fs_call_def create_file_def
        write_file_def fs_fault_def fs_tick_def sample_fs_def pass_through_def del: append.simps)
  then obtain s' where E: "enroll_command sample_client (Some ''k'') sample_post ''id'' ''sixteen byte sal'' ''twelve bytes''
       (sample_line ''eA'') (sample_line ''a passphrase'') (sample_fs [] (\<lambda>_. None)) = (Inr sample_enrolled, s')" ..
  have "connector_host (cn_listen sample_connect)" by (simp add: sample_connect_def) code_simp
  moreover have "Option.bind (pem_block sample_client (id_Certificate sample_enrolled)) (parse_leaf sample_client) = Some (1000, ''dev'')"
    by (simp add: sample_client_def)
  moreover have "renewal_window < 1000 * second - cn_now sample_connect"
    by (simp add: sample_connect_def second_def)
  moreover have "owned_only (cn_uid sample_connect) \<lparr>fi_kind = Directory, fi_perm = 0x1C0, fi_uid = 1000\<rparr>"
    by (simp add: owned_only_def sample_connect_def)
  ultimately show ?thesis
    using enrolled_device_connects [OF sample_client_lawful _ _ E, of sample_connect 1000 "''dev''"
        "\<lparr>fi_kind = Directory, fi_perm = 0x1C0, fi_uid = 1000\<rparr>" "\<lambda>url csr. None"] E
    by (simp add: nonce_size_def) (auto simp: sample_connect_def)
qed

end
