(* ===== verification/Renewal_Loop.thy ===== *)
theory Renewal_Loop
  imports Command_Facts
begin

text \<open>
  The hourly renewal of \<open>budge connect\<close> (\<open>cmd/budge/main.go\<close>): each tick runs \<open>Refresh\<close>, an error is
  printed and the loop goes on. Whatever fails and whenever the process is killed, the identity on
  disk is one that \<open>budge connect\<close> starts with again.
\<close>

section \<open>The loop\<close>

text \<open>What one turn takes from the outside: the clock, the exchange with the server, the random bytes.\<close>

record turn =
  tn_now :: int
  tn_post :: "string \<Rightarrow> string \<Rightarrow> (int \<times> string) option"
  tn_salt :: string
  tn_nonce :: string
  tn_temp :: string

text \<open>The turns until the context is cancelled, and the errors that were printed.\<close>

fun renewals :: "'a client_env_scheme \<Rightarrow> string \<Rightarrow> string \<Rightarrow> turn list \<Rightarrow> live \<Rightarrow> fsys \<Rightarrow> error list \<times> live \<times> fsys" where
  "renewals C path pass [] l s = ([], l, s)"
| "renewals C path pass (t # ts) l s =
     (case Refresh C (tn_now t) (tn_post t) path pass (tn_salt t) (tn_nonce t) (tn_temp t) l s of (r, l, s) \<Rightarrow>
      case renewals C path pass ts l s of (es, l, s) \<Rightarrow>
        (case r of Inl e \<Rightarrow> e # es | Inr _ \<Rightarrow> es, l, s))"

definition fresh_turn :: "turn \<Rightarrow> bool" where
  "fresh_turn t \<longleftrightarrow> length (tn_salt t) = 16 \<and> length (tn_nonce t) = nonce_size"

section \<open>What a restart finds\<close>

text \<open>The same device: all but the certificate is equal.\<close>

definition same_device :: "identity \<Rightarrow> identity \<Rightarrow> bool" where
  "same_device i j \<longleftrightarrow> j = i\<lparr>id_Certificate := id_Certificate j\<rparr>"

definition starts :: "'a client_env_scheme \<Rightarrow> string \<Rightarrow> identity \<Rightarrow> string option \<Rightarrow> bool" where
  "starts C pass i b \<longleftrightarrow> (\<exists>x j l. b = Some x \<and> open_identity C pass x = Inr j \<and> same_device i j \<and> NewRenewal C j = Inr l)"

definition held :: "'a client_env_scheme \<Rightarrow> string \<Rightarrow> identity \<Rightarrow> string option \<Rightarrow> bool" where
  "held C pass j b \<longleftrightarrow> (\<exists>x. b = Some x \<and> open_identity C pass x = Inr j)"

lemma same_device_refl [simp]: "same_device i i"
  by (simp add: same_device_def)

lemma same_device_text: "same_device i j \<Longrightarrow> text_identity j \<longleftrightarrow> text_identity i"
  by (cases i; cases j) (simp add: same_device_def text_identity_def)

lemma same_device_trans: "same_device i j \<Longrightarrow> same_device j k \<Longrightarrow> same_device i k"
  by (cases i; cases j; cases k) (simp add: same_device_def)

lemma NewRenewal_id: "NewRenewal C j = Inr l \<Longrightarrow> live_id l = j"
  by (auto simp: NewRenewal_def split: option.splits if_splits)

lemma renewed_starts:
  assumes "renewed C post i = Inr (j, leaf)" "NewRenewal C i = Inr l"
  shows "same_device i j \<and> NewRenewal C j = Inr \<lparr>live_id = j, live_cert = leaf\<rparr>"
proof -
  from renewed_Inr [OF assms(1)] have j: "j = i\<lparr>id_Certificate := id_Certificate j\<rparr>"
    "key_pair C (id_Certificate j) (id_PrivateKey i) = Some leaf" by auto
  then have "id_PrivateKey j = id_PrivateKey i" "id_Root j = id_Root i"
    by (metis identity.select_convs identity.surjective identity.update_convs(3))+
  with assms(2) j show ?thesis
    by (auto simp: NewRenewal_def same_device_def split: option.splits if_splits)
qed

lemma turn_starts:
  assumes "lawful C" "fresh_turn t" "NewRenewal C (live_id l) = Inr l" "same_device i (live_id l)"
    and "starts C pass i (files s path)"
    and "Refresh C (tn_now t) (tn_post t) path pass (tn_salt t) (tn_nonce t) (tn_temp t) l s = (r, l', s')"
  shows "(\<exists>fs. seen s' = seen s @ fs \<and> (\<forall>f \<in> set fs. starts C pass i (f path))) \<and>
    starts C pass i (files s' path) \<and> NewRenewal C (live_id l') = Inr l' \<and> same_device i (live_id l') \<and>
    (l' = l \<or> held C pass (live_id l') (files s' path))"
proof -
  from assms(5) obtain old where old: "files s path = Some old" by (auto simp: starts_def)
  have utf: "text_identity i"
    using assms(5) opened_text [OF assms(1)] same_device_text unfolding starts_def by blast
  have opens: "open_identity C pass (identity_file C pass (tn_salt t) (tn_nonce t) j) = Inr j"
    if "same_device i j" for j
    using assms(1,2) utf that by (simp add: open_identity_file fresh_turn_def same_device_text)
  have ok: "same_device i j" "NewRenewal C j = Inr \<lparr>live_id = j, live_cert = leaf\<rparr>"
    if "renewed C (tn_post t) (live_id l) = Inr (j, leaf)" for j leaf
    using renewed_starts [OF that assms(3)] same_device_trans [OF assms(4)] by auto
  have intact: "starts C pass i b" if "intact C (tn_post t) pass (tn_salt t) (tn_nonce t) old (live_id l) b" for b
    using that assms(5) old opens ok unfolding intact_def starts_def by auto
  from Refresh_states [OF old assms(6)] obtain fs where fs: "seen s' = seen s @ fs"
    "\<forall>f \<in> set (files s' # fs). starts C pass i (f path)"
    "l' = l \<or> files s' path = Some (identity_file C pass (tn_salt t) (tn_nonce t) (live_id l')) \<and>
       renewed C (tn_post t) (live_id l) = Inr (live_id l', live_cert l')"
    using intact by blast
  from fs(3) have "NewRenewal C (live_id l') = Inr l' \<and> same_device i (live_id l') \<and>
      (l' = l \<or> held C pass (live_id l') (files s' path))"
    using assms(3,4) ok opens by (auto simp: held_def)
  with fs(1,2) show ?thesis by auto
qed

lemma renewals_start:
  assumes "lawful C" "list_all fresh_turn ts" "NewRenewal C (live_id l) = Inr l" "same_device i (live_id l)"
    and "starts C pass i (files s path)" "renewals C path pass ts l s = (es, l', s')"
  shows "(\<exists>fs. seen s' = seen s @ fs \<and> files s' = last (files s # fs) \<and> (\<forall>f \<in> set fs. starts C pass i (f path)) \<and>
      (l' = l \<or> (\<exists>f \<in> set (files s # fs). held C pass (live_id l') (f path)))) \<and>
    NewRenewal C (live_id l') = Inr l' \<and> same_device i (live_id l')"
  using assms(2-6)
proof (induction ts arbitrary: l s es l' s')
  case (Cons t ts)
  obtain r l1 s1 where R: "Refresh C (tn_now t) (tn_post t) path pass (tn_salt t) (tn_nonce t) (tn_temp t) l s = (r, l1, s1)"
    by (metis prod.exhaust)
  obtain es2 where rest: "renewals C path pass ts l1 s1 = (es2, l', s')"
    using Cons.prems(5) R by (auto split: prod.splits)
  from Cons.prems(1) have t: "fresh_turn t" "list_all fresh_turn ts" by simp_all
  note one = turn_starts [OF assms(1) t(1) Cons.prems(2-4) R]
  from logged_Refresh [OF R] one obtain fs where fs: "seen s1 = seen s @ fs" "files s1 = last (files s # fs)"
    "\<forall>f \<in> set fs. starts C pass i (f path)" unfolding logged_def by auto
  then have s1: "files s1 \<in> set (files s # fs)" by (metis last_in_set list.distinct(1))
  from Cons.IH [OF t(2) _ _ _ rest] one obtain gs where gs: "seen s' = seen s1 @ gs" "files s' = last (files s1 # gs)"
    "\<forall>f \<in> set gs. starts C pass i (f path)"
    "l' = l1 \<or> (\<exists>f \<in> set (files s1 # gs). held C pass (live_id l') (f path))"
    "NewRenewal C (live_id l') = Inr l'" "same_device i (live_id l')" by blast
  have "l' = l \<or> (\<exists>f \<in> set (files s # fs @ gs). held C pass (live_id l') (f path))"
    using gs(4) one s1 by auto
  moreover have "files s' = last (files s # fs @ gs)" using gs(2) fs(2) by auto
  ultimately show ?case using fs gs by (intro conjI exI [of _ "fs @ gs"]) auto
qed auto

text \<open>C26. The identity of a connector outlives its renewals: however many hours it runs, whatever the server
  answers and whatever calls fail, in every state in which the process may be killed the file at the
  path of the identity opens under the passphrase to the identity of the same device, differing in
  the certificate at most, and \<open>budge connect\<close> starts with it. The certificate in use always fits
  the key, and it is the one the process started with or was on disk before it was used.\<close>

theorem identity_outlives_renewals:
  assumes "lawful C" "list_all fresh_turn ts" "NewRenewal C i = Inr l" "held C pass i (files s path)" "seen s = []"
    and "renewals C path pass ts l s = (es, l', s')"
  shows "list_all (\<lambda>f. starts C pass i (f path)) (files s # files s' # seen s') \<and>
    NewRenewal C (live_id l') = Inr l' \<and> same_device i (live_id l') \<and>
    list_ex (\<lambda>f. held C pass (live_id l') (f path)) (files s # seen s')"
proof -
  have id: "live_id l = i" by (rule NewRenewal_id [OF assms(3)])
  have st: "starts C pass i (files s path)" using assms(3,4) by (auto simp: held_def starts_def)
  from renewals_start [OF assms(1,2) _ _ st assms(6)] id assms(3) obtain fs where
    "seen s' = seen s @ fs" "files s' = last (files s # fs)" "\<forall>f \<in> set fs. starts C pass i (f path)"
    "l' = l \<or> (\<exists>f \<in> set (files s # fs). held C pass (live_id l') (f path))"
    "NewRenewal C (live_id l') = Inr l'" "same_device i (live_id l')" by auto
  with st id assms(4,5) show ?thesis by (auto simp: list_all_iff list_ex_iff split: if_splits)
qed

section \<open>Two hours\<close>

text \<open>The first renewal is cut in the write of its file, the second succeeds.\<close>

definition turn_at :: "string \<Rightarrow> turn" where
  "turn_at temp = \<lparr>tn_now = 900 * second, tn_post = (\<lambda>url csr. Some (200, ''new'')), tn_salt = ''sixteen byte sal'',
     tn_nonce = ''twelve bytes'', tn_temp = temp\<rparr>"

definition first_file :: string where
  "first_file = identity_file sample_client ''a passphrase'' ''sixteen byte sal'' ''twelve bytes'' sample_identity"

abbreviation first_live :: live where
  "first_live \<equiv> \<lparr>live_id = sample_identity, live_cert = ''c''\<rparr>"

abbreviation next_id :: identity where
  "next_id \<equiv> sample_identity\<lparr>id_Certificate := ''new''\<rparr>"

lemma sample_renewed: "renewed sample_client (\<lambda>url csr. Some (200, ''new'')) sample_identity = Inr (next_id, ''new'')"
  by (simp add: renewed_def sample_client_def sample_identity_def response_limit_def)

lemma sample_turn:
  "Refresh sample_client (900 * second) (\<lambda>url csr. Some (200, ''new'')) ''id'' ''a passphrase'' ''sixteen byte sal''
     ''twelve bytes'' temp first_live s =
   (case replace_identity sample_client ''id'' ''a passphrase'' ''sixteen byte sal'' ''twelve bytes'' temp next_id s of
      (Inl e, s) \<Rightarrow> (Inl e, first_live, s) | (Inr _, s) \<Rightarrow> (Inr (), \<lparr>live_id = next_id, live_cert = ''new''\<rparr>, s))"
proof -
  have "pem_block sample_client (id_Certificate sample_identity) = Some ''c''" "parse_leaf sample_client ''c'' = Some (1000, ''dev'')"
    by (simp_all add: sample_client_def sample_identity_def)
  then show ?thesis
    by (simp add: Refresh_def sample_renewed second_def renewal_window_def)
qed

lemma cut_replace:
  assumes "fs_faults s = [NoFault, NoFault, CutAfter n]" "files s temp = None" "12 \<le> length pass"
  shows "\<exists>s'. replace_identity C path pass salt nonce temp j s = (Inl DriverErr, s') \<and> fs_faults s' = [] \<and>
    files s' = (files s)(temp := Some (take n (identity_file C pass salt nonce j)))"
  using assms
  by (auto simp: replace_identity_def Save_def bind_def fs_call_def create_file_def write_file_def fs_fault_def
      fs_tick_def pass_through_def prefixes_of_simps last_map)

lemma plain_replace:
  assumes "fs_faults s = []" "files s temp = None" "12 \<le> length pass"
  shows "\<exists>s'. replace_identity C path pass salt nonce temp j s = (Inr (), s')"
  using assms
  by (auto simp: replace_identity_def Save_def remove_after_def rename_file_def bind_def fs_call_def create_file_def
      write_file_def fs_fault_def fs_tick_def pass_through_def prefixes_of_simps last_map)

theorem identity_outlives_renewals_witness:
  "\<exists>es l s. renewals sample_client ''id'' ''a passphrase'' [turn_at ''.renew-1'', turn_at ''.renew-2''] first_live
       (sample_fs [NoFault, NoFault, CutAfter 3] [''id'' \<mapsto> first_file]) = (es, l, s) \<and>
     es = [DriverErr] \<and> live_cert l = ''new'' \<and>
     list_all (\<lambda>f. starts sample_client ''a passphrase'' sample_identity (f ''id'')) (files s # seen s) \<and>
     list_ex (\<lambda>f. held sample_client ''a passphrase'' next_id (f ''id'')) (seen s)"
proof -
  let ?s = "sample_fs [NoFault, NoFault, CutAfter 3] [''id'' \<mapsto> first_file]"
  let ?ts = "[turn_at ''.renew-1'', turn_at ''.renew-2'']"
  let ?replace = "\<lambda>temp. replace_identity sample_client ''id'' ''a passphrase'' ''sixteen byte sal'' ''twelve bytes'' temp next_id"
  have "fs_faults ?s = [NoFault, NoFault, CutAfter 3]" "files ?s ''.renew-1'' = None" "12 \<le> length ''a passphrase''"
    by (simp_all add: sample_fs_def)
  from cut_replace [OF this, of sample_client "''id''" "''sixteen byte sal''" "''twelve bytes''" next_id] obtain s1 where
    s1: "?replace ''.renew-1'' ?s = (Inl DriverErr, s1)" "fs_faults s1 = []" "files s1 ''.renew-2'' = None"
    by (auto simp: sample_fs_def)
  then obtain s2 where s2: "?replace ''.renew-2'' s1 = (Inr (), s2)"
    using plain_replace [of s1 "''.renew-2''" "''a passphrase''"] by fastforce
  have run: "renewals sample_client ''id'' ''a passphrase'' ?ts first_live ?s =
      ([DriverErr], \<lparr>live_id = next_id, live_cert = ''new''\<rparr>, s2)"
    using s1(1) s2 by (simp add: turn_at_def sample_turn)
  have kept: "held sample_client ''a passphrase'' sample_identity (files ?s ''id'')"
    by (simp add: held_def sample_fs_def first_file_def open_identity_file sample_client_lawful sample_text nonce_size_def)
  have new: "NewRenewal sample_client sample_identity = Inr first_live"
    by (simp add: NewRenewal_def sample_client_def sample_identity_def)
  have turns: "list_all fresh_turn ?ts" by (simp add: turn_at_def fresh_turn_def nonce_size_def)
  have "seen ?s = []" by (simp add: sample_fs_def)
  note all = identity_outlives_renewals [OF sample_client_lawful turns new kept this run]
  moreover have "\<not> held sample_client ''a passphrase'' next_id (files ?s ''id'')"
    using kept by (auto simp: held_def sample_identity_def)
  ultimately show ?thesis using run by auto
qed

end
