(* ===== verification/Spec2Isabelle.thy ===== *)
theory Spec2Isabelle
  imports Boundary Limits Audit_Log Operations Device_Calls Owner_Calls Shutdown Mcp Renewal_Loop
begin

text \<open>
  Budge: a verification development.

  \<^bold>\<open>The program.\<close> Budge is a gateway between programs on a device and HTTP services whose credentials
  the device must not see. The owner of the gateway configures services (a base URL and a sealed
  credential) and permissions (which methods and paths of a service a device may use, until when, and
  whether each request needs an approval). A device enrols once with an invitation and then talks to
  the server over mutual TLS. A direct request is checked and sent at once; a durable request is
  submitted, decided by the owner if its permission says so, claimed by the worker, sent at most once
  and its result kept. The call path is

    local program \<open>-->\<close> connector or Unix socket or MCP tool (\<open>internal/client\<close>, \<open>internal/mcp\<close>)
      \<open>-->\<close> \<open>DeviceHandler\<close> (\<open>internal/server/server.go\<close>) \<open>-->\<close> \<open>Submit\<close>, \<open>RequestStatus\<close>, \<open>direct\<close>
      \<open>-->\<close> the database (\<open>internal/store\<close>) \<open>-->\<close> \<open>RunWorker\<close>, \<open>dispatch\<close> \<open>-->\<close> \<open>upstream.Send\<close>

  and the owner's pages (\<open>OwnerHandler\<close>, \<open>review\<close>) act on the same database.

  \<^bold>\<open>How the code is represented.\<close>
    \<^item> Go strings and byte slices are \<^typ>\<open>string\<close>, a list of bytes; \<open>int64\<close> times and counters that never
      leave their range are \<^typ>\<open>int\<close>; addresses and user ids are words of their width; a nil or absent
      value is an option. Structs are records and rows of a table are records, with the columns of the
      migrations.
    \<^item> A function that returns \<open>(T, error)\<close> returns \<open>error + T\<close>; the text of an error that callers compare
      or report is kept, the others are \<open>DriverErr\<close>.
    \<^item> The database is a record of tables. A transaction works on a copy (\<open>txst\<close> of theory Store): every
      statement, the begin and the commit consult a list of faults, so that each may fail in every
      execution; \<open>run_tx faults m d\<close> is one execution of \<open>m\<close> on the committed database \<open>d\<close>. The driver may
      also end the iteration over rows early, which is how the unchecked \<open>rows.Err()\<close> are visible.
    \<^item> The local file system (identity files) and the disk of the server (the database file, its lock and
      key) are states with faults of the same kind, \<open>fs_op\<close> and \<open>disk_op\<close> of theories Device_Identity and Vault.
    \<^item> HTTP handlers are functions from a parsed request and the state of the server (\<open>srv\<close>: limiters, audit
      events in flight and the store) to a reply and a new state. What the outside contributes in the
      course of a call (the reply of the upstream, the chunks of a body, the times read) is an argument.
    \<^item> Concurrency is interleaving. Code that holds a transaction or the mutex is one step. In theory System
      a request is claimed in one step and handed to the transport in another, since no transaction and
      no mutex spans the two: durable requests (\<open>claims\<close>, \<open>sent_log\<close>) and direct ones (\<open>http_claims\<close>,
      \<open>http_log\<close>) alike. The operations run in any order, each with any faults, with stops and restarts
      between any two of them. In theory Worker a whole turn of the loop is one step, between which
      handlers and finishing dispatches take and give back slots (that the slots are right after any
      sequence of single calls of \<open>acquire\<close> and \<open>release\<close> is shown in theory Limits). In theory Connector the
      calls to the local connector interleave, each in the parts between its waits.

  \<^bold>\<open>Theories, in the order of their imports, and the code they model.\<close>
    \<^item> Budge_Prelude, Netip, Go_URL, Base64: the string functions, \<open>net/netip\<close>, \<open>net/url\<close> and
      \<open>encoding/base64\<close> of the Go library, as far as the sources use them; parse and print facts.
    \<^item> Access: \<open>internal/access/access.go\<close> (\<open>Path\<close>, \<open>Method\<close>, \<open>Base\<close>, \<open>Target\<close>, \<open>Route\<close>, \<open>CIDR\<close>, \<open>Match\<close>,
      \<open>HasMethod\<close>, \<open>Overlap\<close>); Authorize: its queries (\<open>GetService\<close>, \<open>ActiveDevice\<close>, \<open>Authorize\<close>, \<open>Methods\<close>).
      The locale \<open>rules\<close> is the contract of matching and overlap.
    \<^item> Upstream: \<open>internal/upstream/http.go\<close> (\<open>Reserved\<close>, \<open>Headers\<close>, \<open>AllowedAddress\<close>, \<open>DialContext\<close>, \<open>Send\<close>,
      \<open>Stream\<close>). Boundary: what both guarantee at the boundary.
    \<^item> Limiter, Limits: \<open>throttle\<close>, \<open>acquire\<close> and \<open>release\<close> of \<open>internal/server/server.go\<close>; the locale \<open>pool\<close>
      says that the counters are a multiset of holders.
    \<^item> Effects: sequences of fallible calls on a state; the locale \<open>passage\<close> carries a relation that every
      call keeps to their sequence, and is interpreted for what reading, committing, logging, the lock
      and the files of a device keep.
    \<^item> Store: the schema, transactions, \<open>Seal\<close>, \<open>Unseal\<close>, \<open>Audit\<close> of \<open>internal/store\<close>; Tx_Rules: the rules to
      reason about transactions with faults; Vault: \<open>Open\<close>, \<open>Close\<close>, \<open>migrate\<close>, passwords.
    \<^item> Requests, Submissions: \<open>internal/requests/types.go\<close>, its normal form and digests.
    \<^item> Lifecycle, Owner, Server, each with a theory of facts: the transactions of \<open>requests.go\<close>, \<open>owner.go\<close>,
      \<open>server.go\<close>, \<open>renewal.go\<close> and \<open>tls.go\<close> in \<open>internal/server\<close>; the facts say, for any faults, what a
      successful execution changed. Fault_Free: the same operations as equations when storage works.
    \<^item> Evolution: the abstract specification of the request store, the state machine \<open>moves\<close>, the
      order on the statuses it gives, and the well-formedness \<open>db_inv\<close>; every operation refines it.
    \<^item> System: the transition system \<open>step\<close>, whose invariant, in the locale \<open>invariant\<close>, carries the theorems
      on sending. Audit_Log: the log only grows, and every direct request was authorized by the state in
      which it was claimed. Scenario: one run from the first start to a recorded result, which the
      witnesses use.
    \<^item> Operations: what each operation on the database guarantees on its own.
    \<^item> Handlers, Call_Effects, Device_Calls: \<open>DeviceHandler\<close> with all it routes to; every effect of a call
      is a sequence of steps of System. Owner_Pages, Owner_Calls: \<open>OwnerHandler\<close>, \<open>login\<close>, \<open>render\<close>, \<open>review\<close>.
    \<^item> Worker: \<open>RunWorker\<close> with its slots. Shutdown: \<open>serve\<close> and the order in which \<open>budge server\<close> stops.
    \<^item> Device_Identity, Identity_Facts: \<open>Save\<close>, \<open>Load\<close>, \<open>Enroll\<close> of \<open>internal/client/client.go\<close> and \<open>Refresh\<close> of
      \<open>renewal.go\<close>. Connector, Connector_Facts: the HTTP connector, its slots under
      concurrent calls (\<open>connector_step\<close>, another \<open>invariant\<close>), and the socket (\<open>socket.go\<close>).
    \<^item> Authority, Authority_Facts: \<open>initTLS\<close>, \<open>issue\<close>, \<open>renewLeaf\<close>, \<open>currentCertificate\<close> and \<open>TLSConfig\<close>, with the
      handshakes of a server's life.
    \<^item> Mcp: the tools of \<open>internal/mcp/mcp.go\<close>. Commands, Command_Facts: \<open>server\<close>, \<open>enroll\<close>, \<open>connect\<close> of
      \<open>cmd/budge/main.go\<close>. Renewal_Loop: the hourly renewal of \<open>connect\<close>.

  \<^bold>\<open>What is shown.\<close> In this theory: no request is sent twice, what is sent is the approved or authorized
  snapshot, nothing is claimed for a revoked device, refused requests are out, rows follow the state
  machine and stay consistent, errors change nothing, and permissions and pending requests are bounded. In the theories
  of the components: exact behaviour of claims and decisions, the HTTP handlers as refinements of
  System, sessions and form tokens of the owner, slots and progress of the worker, the end of waiting,
  the life of the trust root, the database file and the identity file under faults, the confinement of
  local callers, the header and address boundary, the order of shutdown, and the end-to-end path of an
  MCP request.

  \<^bold>\<open>Bounds and termination.\<close> The waiting loop of \<open>status\<close> is a \<open>partial_function\<close> over a clock given as a
  function; that it ends, after at most 77 looks at the database, is the theorem \<open>status_ends\<close>. Bodies and
  streams are finite lists of chunks with the way they end. The list of faults of an execution is
  unbounded. No definition uses fuel.

  \<^bold>\<open>Parameters and what is assumed of them.\<close> Code outside the repository is an argument: Argon2id,
  AES-GCM and SHA-256 (records \<open>crypto\<close>, \<open>vault_env\<close>, \<open>client_env\<close>), encoding of JSON (\<open>environment\<close>), PEM and
  X.509 (\<open>pki\<close>), the resolver and the exchange with the network, clock and random source. The laws, each
  a premise of the theorems that need it: opening what was sealed with the same key, nonce and context
  gives it back (\<open>aead_ok\<close>); a parsed certificate has the name and the expiry of the template that was signed
  (\<open>pki_ok\<close>); decoding what was encoded gives it back, strings being UTF-8 (\<open>lawful\<close>).
  Theorems with such a premise have a witness on a concrete instance. Digests are not assumed to be injective: theorems speak of texts of one digest.

  \<^bold>\<open>Not modelled.\<close> The HTML templates, style sheet and script of \<open>src/web\<close> (the data the pages show is
  modelled); deadlines of connections (\<open>IdleConn\<close>), timeouts and the other settings of the HTTP transports,
  which act inside the Go runtime; the TLS protocol; the parsing of flags and the terminal prompt; the
  accept loop of \<open>net/http\<close>; registration of the tools with the MCP SDK; SQLite itself, of which the
  model uses the semantics of the statements in the sources.
\<close>

section \<open>Sending\<close>

text \<open>C1. At most once: whatever the order of operations, the storage faults and the restarts, no
  request is handed to a transport twice.\<close>

theorem sent_at_most_once:
  assumes "initial s" "(step E)\<^sup>*\<^sup>* s s'"
  shows "distinct (map fst (sent_log s'))"
  using sys.reachable [OF assms] by (simp add: sys_inv_def)

theorem sent_at_most_once_witness:
  "distinct (map fst (sent_log demo_end)) \<and> map fst (sent_log demo_end) = [request0]"
  using sent_at_most_once [OF demo_initial demo_reaches] by (simp add: demo_end_simps)

text \<open>C3. What is sent is what was submitted: the row of the request holds the digest of the very
  snapshot that was sent, with its device, service, revision, permission and deadline; method, URL
  and body are those of the snapshot; the URL is the one that the service's base URL fixes; and the
  header is the snapshot's, cut to the names that the service lets through and completed by the
  credential that the snapshot refers to.\<close>

theorem sent_is_the_snapshot:
  assumes "initial s" "(step E)\<^sup>*\<^sup>* s s'" "(i, snap, svc, out) \<in> set (sent_log s')"
  shows "(\<exists>r b. r \<in> set (requests (database s')) \<and> rq_id r = i \<and>
        rq_status r \<in> {dispatching, completed, failed, outcome_unknown} \<and>
        Digest E b = snapshot_digest r \<and> unmarshal_snapshot E b = Some snap \<and>
        snap_DeviceID snap = rq_device r \<and> snap_ServiceID snap = rq_service r \<and>
        snap_Revision snap = rq_revision r \<and> PermissionID snap = rq_permission r \<and>
        snap_Expires snap = rq_expires r) \<and>
     out_Method out = (if snap_Method snap = [] then ''GET'' else snap_Method snap) \<and>
     out_URL out = snap_URL snap \<and> out_Body out = snap_Body snap \<and>
     (\<exists>q. Target (BaseURL svc) (snap_Path snap) q = Inr (out_URL out)) \<and>
     (\<exists>secret. Decrypt E (CredentialRef snap) (Credential svc) = Inr secret \<and>
        (\<forall>k. Values (out_Header out) k =
          (if injected svc secret k \<noteq> [] then injected svc secret k
           else Values (Headers (snap_Headers snap) (RequestHeaders svc) (AuthHeader svc)) k)))"
proof (intro conjI)
  note f = sent_facts [OF sys.reachable [OF assms(1,2)] assms(3)]
  from f(1) show "\<exists>r b. r \<in> set (requests (database s')) \<and> rq_id r = i \<and>
        rq_status r \<in> {dispatching, completed, failed, outcome_unknown} \<and>
        Digest E b = snapshot_digest r \<and> unmarshal_snapshot E b = Some snap \<and>
        snap_DeviceID snap = rq_device r \<and> snap_ServiceID snap = rq_service r \<and>
        snap_Revision snap = rq_revision r \<and> PermissionID snap = rq_permission r \<and>
        snap_Expires snap = rq_expires r"
    by (auto simp: holds_row_def bound_def begun_def)
  from f(2) obtain secret where d: "Decrypt E (CredentialRef snap) (Credential svc) = Inr secret"
    and b: "build_request svc (snap_Method snap) (snap_URL snap) (snap_Headers snap) (snap_Body snap) secret = Some out"
    by (auto simp: dispatch_request_def split: sum.splits)
  then show "out_Method out = (if snap_Method snap = [] then ''GET'' else snap_Method snap)"
    and url: "out_URL out = snap_URL snap" and "out_Body out = snap_Body snap"
    by (auto simp: build_request_iff)
  from f(3) show "\<exists>q. Target (BaseURL svc) (snap_Path snap) q = Inr (out_URL out)"
    by (auto simp: recheck_target_def url split: option.splits sum.splits if_splits)
  from d request_values [OF b] show "\<exists>secret. Decrypt E (CredentialRef snap) (Credential svc) = Inr secret \<and>
        (\<forall>k. Values (out_Header out) k =
          (if injected svc secret k \<noteq> [] then injected svc secret k
           else Values (Headers (snap_Headers snap) (RequestHeaders svc) (AuthHeader svc)) k))"
    by blast
qed

theorem sent_is_the_snapshot_witness:
  "out_URL outgoing0 = snap_URL demo_snapshot \<and> out_Method outgoing0 = snap_Method demo_snapshot \<and>
     (request0, demo_snapshot, crm, outgoing0) \<in> set (sent_log demo_end)"
proof -
  have m: "(request0, demo_snapshot, crm, outgoing0) \<in> set (sent_log demo_end)" by (simp add: demo_end_simps)
  have "snap_Method demo_snapshot \<noteq> []" by (simp add: demo_snapshot_def)
  with sent_is_the_snapshot [OF demo_initial demo_reaches m] m show ?thesis by simp
qed

text \<open>C2. No approval, no request: if the permission of a sent request asks for approval, the
  owner's approval is on record, and it names the digest of the snapshot that was sent.\<close>

theorem sent_was_approved:
  assumes "initial s" "(step E)\<^sup>*\<^sup>* s s'" "(i, snap, svc, out) \<in> set (sent_log s')"
    and "p \<in> set (permissions (database s'))" "perm_ID p = PermissionID snap" "Mode p = approval_required"
  shows "\<exists>a b. a \<in> set (approvals (database s')) \<and> ap_request a = i \<and> decision a = ''approve'' \<and>
    ap_digest a = Digest E b \<and> unmarshal_snapshot E b = Some snap"
proof -
  note inv = sys.reachable [OF assms(1,2)]
  from sent_facts(1) [OF inv assms(3)] obtain r b where r: "r \<in> set (requests (database s'))" "rq_id r = i"
    "rq_status r \<in> begun" "Digest E b = snapshot_digest r" "unmarshal_snapshot E b = Some snap"
    "PermissionID snap = rq_permission r"
    by (auto simp: holds_row_def bound_def)
  have "decided (database s')" using inv by (simp add: sys_inv_parts db_inv_def)
  moreover have "asks (database s') r" using assms(4-) r(6) by (auto simp: asks_def)
  ultimately have "approved_row (database s') r" using r(1,3) by (auto simp: decided_def begun_def)
  then obtain a where "a \<in> set (approvals (database s'))" "ap_request a = i" "decision a = ''approve''"
    "ap_digest a = Digest E b"
    using r(2,4) by (auto simp: approved_row_def)
  with r(5) show ?thesis by blast
qed

theorem sent_was_approved_witness:
  "\<exists>a b. a \<in> set (approvals (database demo_end)) \<and> ap_request a = request0 \<and> decision a = ''approve'' \<and>
    ap_digest a = Digest demo b \<and> unmarshal_snapshot demo b = Some demo_snapshot"
proof (rule sent_was_approved [OF demo_initial demo_reaches])
  show "(request0, demo_snapshot, crm, outgoing0) \<in> set (sent_log demo_end)" by (simp add: demo_end_simps)
  show "grant_row \<in> set (permissions (database demo_end))"
    by (simp add: demo_end_simps db10_def db9_def audited_def)
qed (simp_all add: grant_row_def demo_snapshot_def)

text \<open>C6. A request that waits, or that was denied, expired or cancelled, has not been sent, and
  once it has been denied, expired or cancelled it never will be.\<close>

theorem refused_never_sent:
  assumes "initial s0" "(step E)\<^sup>*\<^sup>* s0 s" "(step E)\<^sup>*\<^sup>* s s'" "r \<in> set (requests (database s))"
    and "rq_status r \<in> {denied, expired, cancelled}"
  shows "rq_id r \<notin> fst ` set (sent_log s')"
proof
  assume "rq_id r \<in> fst ` set (sent_log s')"
  then obtain snap svc out where m: "(rq_id r, snap, svc, out) \<in> set (sent_log s')" by auto
  note inv = sys.reachable [OF assms(1,2)] and inv' = sys.reachable [OF assms(1) rtranclp_trans [OF assms(2,3)]]
  from sent_facts(1) [OF inv' m] obtain q where q: "q \<in> set (requests (database s'))" "rq_id q = rq_id r"
    "rq_status q \<in> begun" by (auto simp: holds_row_def)
  from evolves_request [OF run_evolves [OF assms(3) inv] assms(4)] obtain r' where
    r': "r' \<in> set (requests (database s'))" "same_request r r'" "leads_to (rq_status r) (rq_status r')" .
  have "rq_id r' = rq_id r" using r'(2) by (simp add: same_request_def)
  with q r' inv' have "q = r'"
    by (auto simp: sys_inv_parts db_inv_def keyed_def intro: unique_id)
  moreover have "rq_status r' = rq_status r"
    using leads_to_terminal [OF r'(3)] assms(5) by (auto simp: terminal_iff)
  ultimately show False using q(3) assms(5) by (auto simp: begun_def)
qed

section \<open>The life of a request\<close>

text \<open>C7. The server refines its specification: through any operations, faults and restarts a row is
  never lost, keeps its identity, and its status only follows the moves of the state machine; a
  finished request stays as it ended, and a status that was left never comes back.\<close>

theorem requests_follow_the_machine:
  assumes "initial s0" "(step E)\<^sup>*\<^sup>* s0 s" "(step E)\<^sup>*\<^sup>* s s'" "r \<in> set (requests (database s))"
  shows "\<exists>r'. find_request (rq_id r) (database s') = Some r' \<and> same_request r r' \<and>
    leads_to (rq_status r) (rq_status r') \<and> (\<not> terminal (rq_status r) \<or> rq_status r' = rq_status r) \<and>
    (\<not> leads_to (rq_status r') (rq_status r) \<or> rq_status r' = rq_status r)"
proof -
  note inv = sys.reachable [OF assms(1,2)] and inv' = sys.reachable [OF assms(1) rtranclp_trans [OF assms(2,3)]]
  from evolves_request [OF run_evolves [OF assms(3) inv] assms(4)] obtain r' where
    r': "r' \<in> set (requests (database s'))" "same_request r r'" "leads_to (rq_status r) (rq_status r')" .
  moreover have "find_request (rq_id r) (database s') = Some r'"
    using r'(1,2) inv' find_request_iff [of "database s'"] by (simp add: sys_inv_parts db_inv_def same_request_def)
  ultimately show ?thesis using leads_to_terminal leads_to_antisym by blast
qed


theorem refused_never_sent_witness:
  "request0 \<notin> fst ` set (sent_log (demo_serving 1006 db_denied))"
proof -
  let ?r = "request_row0\<lparr>rq_status := denied, finished := Some 1006\<rparr>"
  have r: "?r \<in> set (requests (database (demo_serving 1006 db_denied)))" "rq_status ?r \<in> {denied, expired, cancelled}"
    by (simp_all add: demo_serving_def db_denied_def audited_def)
  have i: "rq_id ?r = request0" by (simp add: request_row0_simps)
  show ?thesis
    using refused_never_sent [OF demo_initial demo_denied rtranclp.rtrancl_refl r] unfolding i .
qed

theorem requests_follow_the_machine_witness:
  "\<exists>r'. find_request request0 (database demo_end) = Some r' \<and> leads_to queued (rq_status r')"
proof -
  let ?r = "request_row0\<lparr>rq_status := queued\<rparr>"
  have r: "?r \<in> set (requests (database (demo_serving 1006 db6)))"
    by (simp add: demo_serving_def demo_simps)
  have i: "rq_id ?r = request0" "rq_status ?r = queued" by (simp_all add: request_row0_simps)
  show ?thesis
    using requests_follow_the_machine [OF demo_initial demo_queued demo_finishes r] unfolding i by blast
qed

section \<open>Limits\<close>

text \<open>C35. At any time a device has at most twenty requests that wait for a decision.\<close>

theorem pending_limit:
  assumes "initial s" "(step E)\<^sup>*\<^sup>* s s'" "clock s' \<le> now"
  shows "pending_count dev now (database s') \<le> 20"
  using sys.reachable [OF assms(1,2)] assms(3) by (simp add: sys_inv_parts db_inv_def pending_bound_def)

theorem pending_limit_witness:
  "pending_count device0 1005 (database (demo_serving 1005 db5)) \<le> 20"
  using pending_limit [OF demo_initial demo_pending] by (simp add: demo_serving_def)

text \<open>C34. Grants are never ambiguous: whatever the owner granted and when, at most one live
  permission of a device for a service covers a request, so the rule that decides is unique.\<close>

theorem at_most_one_grant:
  assumes "initial s" "(step E)\<^sup>*\<^sup>* s s'" "clock s' \<le> now"
  shows "length (filter (\<lambda>p. DeviceID p = dev \<and> ServiceID p = srv \<and> perm_Revision p = revision \<and>
    live now p \<and> Match p m path) (permissions (database s'))) \<le> 1"
proof -
  have "perms.disjoint (candidate_rows dev srv revision now (database s'))"
    using sys.reachable [OF assms(1,2)] assms(3) by (simp add: sys_inv_parts db_inv_def grants_disjoint_def)
  from perms.disjoint_at_most_one [OF this, of "(m, path)"] show ?thesis
    by (simp add: candidate_rows_def conj_ac)
qed

theorem at_most_one_grant_witness:
  "length (filter (\<lambda>p. DeviceID p = device0 \<and> ServiceID p = ''crm'' \<and> perm_Revision p = 1 \<and>
    live 1010 p \<and> Match p ''GET'' ''/status'') (permissions (database demo_end))) \<le> 1"
  using at_most_one_grant [OF demo_initial demo_reaches] by (simp add: demo_end_simps)

text \<open>C33. The columns of a row agree in every reachable state: it has an end time exactly when it has
  ended, its snapshot is purged only then, and only an exchange leaves a result. Its service,
  device and permission exist, and its revision is not ahead of the service.\<close>

theorem rows_are_consistent:
  assumes "initial s" "(step E)\<^sup>*\<^sup>* s s'" "r \<in> set (requests (database s'))"
  shows "(finished r \<noteq> None \<longleftrightarrow> terminal (rq_status r)) \<and>
     (rq_snapshot r \<noteq> None \<or> terminal (rq_status r)) \<and>
     (rq_result r = None \<or> rq_status r \<in> {completed, outcome_unknown}) \<and>
     rq_device r \<in> dev_id ` set (devices (database s')) \<and>
     rq_permission r \<in> perm_ID ` set (permissions (database s')) \<and>
     (\<exists>v \<in> set (services (database s')). sv_id v = rq_service r \<and> rq_revision r \<le> sv_revision v)"
proof -
  have inv: "row_ok r" "linked (database s')" "revisions_ok (database s')"
    using sys.reachable [OF assms(1,2)] assms(3) by (auto simp: sys_inv_parts db_inv_def)
  then have l: "rq_device r \<in> dev_id ` set (devices (database s'))"
     "rq_permission r \<in> perm_ID ` set (permissions (database s'))"
     "rq_service r \<in> sv_id ` set (services (database s'))"
    using assms(3) by (auto simp: linked_def)
  then obtain v where "v \<in> set (services (database s'))" "sv_id v = rq_service r" by auto
  with inv(3) assms(3) have "rq_revision r \<le> sv_revision v" by (simp add: revisions_ok_def)
  with l inv(1) \<open>v \<in> _\<close> \<open>sv_id v = _\<close> show ?thesis unfolding row_ok_def by blast
qed

theorem rows_are_consistent_witness:
  "rq_device request_row0 \<in> dev_id ` set (devices (database (demo_serving 1005 db5))) \<and>
   finished request_row0 = None"
proof -
  have m: "request_row0 \<in> set (requests (database (demo_serving 1005 db5)))"
    by (simp add: demo_serving_def demo_simps)
  from rows_are_consistent [OF demo_initial demo_pending m] show ?thesis
    by (simp add: request_row0_simps terminal_def)
qed

text \<open>A claimed request is nobody else's: from its claim until its outcome is recorded, whatever
  expires, is revoked, revised or disabled meanwhile, its row stays \<open>dispatching\<close> and still holds
  the snapshot that is sent.\<close>

lemma claims_are_exclusive:
  assumes "initial s" "(step E)\<^sup>*\<^sup>* s s'" "(i, snap, svc) \<in> set (claims s')"
  shows "(\<exists>r b. find_request i (database s') = Some r \<and> rq_status r = dispatching \<and>
      Digest E b = snapshot_digest r \<and> unmarshal_snapshot E b = Some snap) \<and>
    i \<notin> fst ` set (sent_log s') \<and> length (filter (\<lambda>x. fst x = i) (claims s')) = 1"
proof (intro conjI)
  note inv = sys.reachable [OF assms(1,2)]
  then have c: "holds_row E (database s') {dispatching} i snap" "keyed (database s')"
    "fst ` set (claims s') \<inter> fst ` set (sent_log s') = {}" "distinct (map fst (claims s'))"
    using assms(3) by (auto simp: sys_inv_def db_inv_def)
  from c(1,2) show "\<exists>r b. find_request i (database s') = Some r \<and> rq_status r = dispatching \<and>
      Digest E b = snapshot_digest r \<and> unmarshal_snapshot E b = Some snap"
    by (auto simp: holds_row_def bound_def find_request_iff)
  from c(3) assms(3) show "i \<notin> fst ` set (sent_log s')" by force
  from filter_key [OF c(4) assms(3)] show "length (filter (\<lambda>x. fst x = i) (claims s')) = 1"
    by simp
qed

theorem claims_are_exclusive_witness:
  "\<exists>r. find_request request0 (database demo_claimed) = Some r \<and> rq_status r = dispatching"
proof -
  have m: "(request0, demo_snapshot, crm) \<in> set (claims demo_claimed)" by (simp add: demo_claimed_def)
  from claims_are_exclusive [OF demo_initial rtranclp.rtrancl_into_rtrancl [OF demo_queued demo_claim] m]
  show ?thesis by blast
qed

section \<open>Revocation and authority\<close>

text \<open>C5. A revoked device stays out: after its revocation, at any later time, whatever is claimed or has
  been sent for it had been claimed before. No durable request of the device is claimed any more, no
  direct request gets a claim, and of the direct requests claimed before the revocation each is still
  sent once at most. (That those are still sent is the behaviour of the code, in which no transaction spans
  the hand-over, and of its documentation: claimed work cannot be retracted.)\<close>

theorem revoked_device_is_out:
  assumes "initial s0" "(step E)\<^sup>*\<^sup>* s0 s" "(step E)\<^sup>*\<^sup>* s s'"
    and "v \<in> set (devices (database s))" "dev_revoked v"
  shows "filter_mset (\<lambda>k. dc_device k = dev_id v) (mset (http_claims s') + mset (map fst (http_log s'))) \<subseteq>#
      filter_mset (\<lambda>k. dc_device k = dev_id v) (mset (http_claims s) + mset (map fst (http_log s))) \<and>
    (\<forall>(i, snap, svc) \<in> set (claims s') \<union> (\<lambda>(i, snap, svc, out). (i, snap, svc)) ` set (sent_log s').
      snap_DeviceID snap = dev_id v \<longrightarrow>
      (i, snap, svc) \<in> set (claims s) \<union> (\<lambda>(i, snap, svc, out). (i, snap, svc)) ` set (sent_log s))"
proof -
  from run_adds_nothing [OF assms(3) sys.reachable [OF assms(1,2)] assms(4,5)]
  have d: "directs (dev_id v) s' \<subseteq># directs (dev_id v) s" "durables (dev_id v) s' \<subseteq> durables (dev_id v) s"
    by simp_all
  have "(i, snap, svc) \<in> durables (dev_id v) t \<longleftrightarrow> snap_DeviceID snap = dev_id v \<and>
      (i, snap, svc) \<in> set (claims t) \<union> (\<lambda>(i, snap, svc, out). (i, snap, svc)) ` set (sent_log t)" for i snap svc t
    by (force simp: durables_def)
  with d(2) have "\<forall>(i, snap, svc) \<in> set (claims s') \<union> (\<lambda>(i, snap, svc, out). (i, snap, svc)) ` set (sent_log s').
      snap_DeviceID snap = dev_id v \<longrightarrow>
      (i, snap, svc) \<in> set (claims s) \<union> (\<lambda>(i, snap, svc, out). (i, snap, svc)) ` set (sent_log s)"
    by blast
  with d(1) show ?thesis unfolding directs_def by blast
qed

theorem revoked_device_is_out_witness:
  "http_log demo_cut = [] \<and> http_claims demo_cut = [demo_direct] \<and> map fst (http_log demo_late) = [demo_direct] \<and>
     filter_mset (\<lambda>k. dc_device k = device0) (mset (http_claims demo_late) + mset (map fst (http_log demo_late))) \<subseteq>#
       {#demo_direct#}"
proof -
  let ?v = "device_row0\<lparr>dev_revoked := True\<rparr>"
  have v: "?v \<in> set (devices (database demo_cut))" "dev_revoked ?v"
    by (simp_all add: demo_cut_def db_revoked_def audited_def)
  have i: "dev_id ?v = device0" by (simp add: device_row0_def)
  have l: "http_log demo_cut = []" "http_claims demo_cut = [demo_direct]" "map fst (http_log demo_late) = [demo_direct]"
    by (simp_all add: demo_cut_def demo_late_def demo_asked_def demo_sent_def demo_serving_def)
  have "dc_device demo_direct = device0" by (simp add: demo_direct_def)
  then have "filter_mset (\<lambda>k. dc_device k = device0) {#demo_direct#} = {#demo_direct#}" by simp
  with l conjunct1 [OF revoked_device_is_out [OF demo_initial demo_revoked r_into_rtranclp [of "step demo", OF demo_sends_late] v]]
  show ?thesis unfolding i by (simp only: l list.map mset.simps add_0_right add_0)
qed

lemma permission_kept:
  assumes "evolves K d d'" "p \<in> set (permissions d)"
  shows "perm_ID p \<in> perm_ID ` set (permissions d')"
proof -
  from assms obtain p' where "p' \<in> set (permissions d')" "permission_evolves p p'"
    using grows_in unfolding evolves_def by metis
  then have "perm_ID p' = perm_ID p" by (auto simp: permission_evolves_def)
  with \<open>p' \<in> _\<close> show ?thesis by (metis image_eqI)
qed

text \<open>C4. A direct request goes out only on a claim that a state of the system authorized: there, at a
  clock not ahead of the claim's time, its device was active, the service enabled at the revision the
  claim holds, and a standing permission of the device for that revision was unrevoked, not expired at
  the time of the claim, and covered method and path. What is sent has the method and body that were
  asked for, the URL that the service's base URL fixes for the path, and the service's credential;
  and the claim is in the audit log.\<close>

theorem direct_requests_are_authorized:
  assumes "initial s" "(step E)\<^sup>*\<^sup>* s s'" "(k, out) \<in> set (http_log s')"
  shows "(\<exists>s1 g v p. (step E)\<^sup>*\<^sup>* s s1 \<and> (step E)\<^sup>*\<^sup>* s1 s' \<and> phase_of s1 = Serving \<and> clock s1 \<le> dc_time k \<and>
        g \<in> set (devices (database s1)) \<and> dev_id g = dc_device k \<and> \<not> dev_revoked g \<and>
        v \<in> set (services (database s1)) \<and> enabled v \<and> service_of_row E v = Some (dc_service k) \<and>
        p \<in> set (permissions (database s1)) \<and> dc_permission k = permission.truncate p \<and>
        \<not> perm_revoked p \<and> (case Expires p of None \<Rightarrow> True | Some t \<Rightarrow> dc_time k < t) \<and>
        Mode p = standing \<and> DeviceID p = dc_device k \<and> ServiceID p = sv_id v \<and> perm_Revision p = sv_revision v \<and>
        Match p (dc_method k) (dc_path k)) \<and>
     perm_ID (dc_permission k) \<in> perm_ID ` set (permissions (database s')) \<and>
     out_Method out = (if dc_method k = [] then ''GET'' else dc_method k) \<and> out_Body out = dc_body k \<and>
     (\<exists>q. Target (BaseURL (dc_service k)) (dc_path k) q = Inr (out_URL out)) \<and>
     (\<exists>secret. Decrypt E (credential_ref (svc_ID (dc_service k)) (svc_Revision (dc_service k))) (Credential (dc_service k)) = Inr secret \<and>
        (\<forall>name. Values (out_Header out) name =
          (if injected (dc_service k) secret name \<noteq> [] then injected (dc_service k) secret name
           else Values (Headers (dc_header k) (RequestHeaders (dc_service k)) (AuthHeader (dc_service k))) name))) \<and>
     \<lparr>aud_owner = [], aud_device = dc_device k, aud_kind = ''http_claim'', aud_entity = perm_ID (dc_permission k)\<rparr>
       \<in> set (audit (database s'))"
proof -
  have "claimed_before E s s' k" "direct_request E k = Some out"
    using direct_origin [OF assms(2)] assms(1,3) by (auto simp: initial_def)
  then obtain s1 where run: "(step E)\<^sup>*\<^sup>* s s1" "(step E)\<^sup>*\<^sup>* s1 s'" and g: "granted E s1 k"
    and rec: "recorded ''http_claim'' (dc_device k) (perm_ID (dc_permission k)) (database s')"
    by (auto simp: claimed_before_def)
  obtain row q where a: "authorize E (dc_time k) (database s1) (dc_device k) (svc_ID (dc_service k)) (dc_method k) (dc_path k) =
         Some (dc_service k, row)" "Mode row = standing" "dc_permission k = permission.truncate row"
    and t: "Target (BaseURL (dc_service k)) (dc_path k) q = Inr (dc_target k)"
    using g by (auto simp: granted_def)
  note au = authorize_SomeE [OF a(1)]
  obtain v where v: "v \<in> set (services (database s1))" "enabled v" "service_of_row E v = Some (dc_service k)"
    "sv_id v = svc_ID (dc_service k)"
    by (rule au) (auto elim: enabled_serviceE)
  have rev: "svc_Revision (dc_service k) = sv_revision v"
    using v(3) by (auto simp: service_of_row_def split: option.splits dest: sym)
  have p: "row \<in> set (permissions (database s1))" "DeviceID row = dc_device k" "ServiceID row = sv_id v"
    "perm_Revision row = sv_revision v" "\<not> perm_revoked row" "case Expires row of None \<Rightarrow> True | Some t \<Rightarrow> dc_time k < t"
    "Match row (dc_method k) (dc_path k)" "active_device (dc_device k) (database s1)"
    using au by (auto simp: v(4) rev live_def)
  obtain e where e: "e \<in> set (devices (database s1))" "dev_id e = dc_device k" "\<not> dev_revoked e"
    using p(8) by (auto simp: active_device_def list_ex_iff)
  have kept: "perm_ID (dc_permission k) \<in> perm_ID ` set (permissions (database s'))"
    using permission_kept [OF run_evolves [OF run(2) sys.reachable [OF assms(1) run(1)]] p(1)]
    by (simp add: a(3) permission.truncate_def)
  obtain secret where
    d: "Decrypt E (credential_ref (svc_ID (dc_service k)) (svc_Revision (dc_service k))) (Credential (dc_service k)) = Inr secret"
    and b: "build_request (dc_service k) (dc_method k) (dc_target k) (dc_header k) (dc_body k) secret = Some out"
    using \<open>direct_request E k = Some out\<close> by (auto simp: direct_request_def http_request_def split: sum.splits)
  have out: "out_Method out = (if dc_method k = [] then ''GET'' else dc_method k)" "out_URL out = dc_target k"
    "out_Body out = dc_body k"
    using b by (auto simp: build_request_iff)
  have "phase_of s1 = Serving" "clock s1 \<le> dc_time k" using g by (simp_all add: granted_def)
  with run e v p(1-7) a(2,3) have "\<exists>s1 g v p. (step E)\<^sup>*\<^sup>* s s1 \<and> (step E)\<^sup>*\<^sup>* s1 s' \<and> phase_of s1 = Serving \<and> clock s1 \<le> dc_time k \<and>
        g \<in> set (devices (database s1)) \<and> dev_id g = dc_device k \<and> \<not> dev_revoked g \<and>
        v \<in> set (services (database s1)) \<and> enabled v \<and> service_of_row E v = Some (dc_service k) \<and>
        p \<in> set (permissions (database s1)) \<and> dc_permission k = permission.truncate p \<and>
        \<not> perm_revoked p \<and> (case Expires p of None \<Rightarrow> True | Some t \<Rightarrow> dc_time k < t) \<and>
        Mode p = standing \<and> DeviceID p = dc_device k \<and> ServiceID p = sv_id v \<and> perm_Revision p = sv_revision v \<and>
        Match p (dc_method k) (dc_path k)"
    by (intro exI [of _ s1] exI [of _ e] exI [of _ v] exI [of _ row]) simp
  moreover have "\<exists>q. Target (BaseURL (dc_service k)) (dc_path k) q = Inr (out_URL out)"
    using t out(2) by auto
  ultimately show ?thesis
    using kept out(1,3) d request_values [OF b] rec unfolding recorded_def by (intro conjI) (assumption | blast)+
qed

theorem direct_requests_are_authorized_witness:
  "(demo_direct, outgoing1) \<in> set (http_log demo_end) \<and>
     perm_ID status_grant \<in> perm_ID ` set (permissions (database demo_end)) \<and> out_Method outgoing1 = ''GET'' \<and>
     (\<exists>s1 p. (step demo)\<^sup>*\<^sup>* demo_start s1 \<and> p \<in> set (permissions (database s1)) \<and> \<not> perm_revoked p \<and>
       Match p ''GET'' ''/status'')"
proof -
  have m: "(demo_direct, outgoing1) \<in> set (http_log demo_end)" by (simp add: demo_end_simps)
  have k: "dc_method demo_direct = ''GET''" "dc_path demo_direct = ''/status''"
    "perm_ID (dc_permission demo_direct) = perm_ID status_grant"
    by (simp_all add: demo_direct_def permission.truncate_def)
  from direct_requests_are_authorized [OF demo_initial demo_reaches m] m show ?thesis
    unfolding k by (intro conjI) (simp_all, blast)
qed

section \<open>The audit log\<close>

text \<open>The audit log is append-only, and it is ahead of the network: every claimed or sent request
  has its entry, written before the request left.\<close>

lemma audit_is_ahead:
  assumes "initial s0" "(step E)\<^sup>*\<^sup>* s0 s" "(step E)\<^sup>*\<^sup>* s s'"
  shows "prefix (audit (database s)) (audit (database s')) \<and>
    list_all (\<lambda>(i, snap, svc, out). \<lparr>aud_owner = [], aud_device = snap_DeviceID snap,
        aud_kind = ''request_dispatching'', aud_entity = i\<rparr> \<in> set (audit (database s'))) (sent_log s')"
proof
  show "prefix (audit (database s)) (audit (database s'))"
    using assms(3)
  proof (induction rule: rtranclp_induct)
    case (step a b)
    with step_logs [of E a b] show ?case by auto
  qed simp
  have "dispatches_recorded s0" using assms(1) by (simp add: initial_def dispatches_recorded_def)
  with assms(1) have "dispatches_recorded s'"
    using sys.stable [OF rtranclp_trans [OF assms(2,3)] sys.base, where P = dispatches_recorded]
      dispatches_recorded_step by blast
  then show "list_all (\<lambda>(i, snap, svc, out). \<lparr>aud_owner = [], aud_device = snap_DeviceID snap,
        aud_kind = ''request_dispatching'', aud_entity = i\<rparr> \<in> set (audit (database s'))) (sent_log s')"
    by (auto simp: dispatches_recorded_def recorded_def list_all_iff)
qed

theorem audit_is_ahead_witness:
  "prefix (audit db6) (audit db10) \<and> \<lparr>aud_owner = [], aud_device = snap_DeviceID demo_snapshot,
        aud_kind = ''request_dispatching'', aud_entity = request0\<rparr> \<in> set (audit db10)"
  using audit_is_ahead [OF demo_initial demo_queued demo_finishes] by (simp add: demo_end_simps demo_serving_def)

section \<open>Errors\<close>

text \<open>C13. A failed operation changes nothing: whatever statement fails, and wherever, if an operation
  returns an error the database is the one before it.\<close>

theorem errors_change_nothing:
  assumes "run_tx fs (perform E now cmd) d = (Inl e, d')"
  shows "d' = d"
  using assms safe_perform by (rule run_tx_error)

theorem errors_change_nothing_witness:
  "snd (run_tx [NoFault, NoFault, Fail] (perform demo 5 (C_revoke_device owner0 ''nobody'')) db1) = db1"
proof -
  obtain e d' where r: "run_tx [NoFault, NoFault, Fail] (perform demo 5 (C_revoke_device owner0 ''nobody'')) db1 =
      (Inl e, d')"
    by (simp add: run_tx_def revoke_def bind_def begin_tx_def exec_count_def fail_def next_fault_def tick_def
        db1_def empty_db_def)
  from errors_change_nothing [OF r] r show ?thesis by simp
qed

end
